(* ===== verification/Prelude.thy ===== *)
theory Prelude
  imports Complex_Main "HOL-Library.Word" "HOL-Library.Code_Target_Nat"
begin

text \<open>
  Shared vocabulary of the development: the fixed-width integer types of the C++ sources,
  the exceptions they throw, range predicates for the signed types, and the generic
  lemmas on bytes, words and lists that the component theories rely on.
\<close>

unbundle bit_operations_syntax

subsection \<open>Collections of facts\<close>

named_theorems byte_simps \<open>little-endian readers and writers\<close>
named_theorems frame_simps \<open>definitions of the frame codec\<close>
named_theorems ring_defs \<open>definitions of the ring operations\<close>

subsection \<open>Types of the sources\<close>

type_synonym byte = "8 word"
type_synonym u16 = "16 word"
type_synonym u32 = "32 word"
type_synonym u64 = "64 word"
type_synonym bytes = "byte list"

text \<open>
  Exceptions, failed assertions and undefined behaviour are values. A function that can
  fail returns a sum, with \<open>Inl\<close> for the failure.
\<close>

datatype exn =
    Invalid_argument
  | Overflow_error
  | Runtime_error
  | Sink_overload
  | Malformed_ipc_request
  | Assertion_failed
  | Undefined_behaviour

type_synonym 'a res = "exn + 'a"

definition is_ok :: "'a res \<Rightarrow> bool" where
  "is_ok r = (case r of Inl _ \<Rightarrow> False | Inr _ \<Rightarrow> True)"

lemma is_ok_simps [simp]: "\<not> is_ok (Inl e)" "is_ok (Inr x)"
  by (simp_all add: is_ok_def)

subsection \<open>Signed ranges\<close>

text \<open>
  Values of type \<open>int\<close> and \<open>long long\<close> are HOL integers. Where an operation of the
  source could leave the range, the model tests it and returns
  \<^const>\<open>Undefined_behaviour\<close>.
\<close>

definition i32_min :: int where "i32_min = - 2147483648"
definition i32_max :: int where "i32_max = 2147483647"

definition in_i32 :: "int \<Rightarrow> bool" where
  "in_i32 x \<longleftrightarrow> i32_min \<le> x \<and> x \<le> i32_max"

definition checked_i32 :: "int \<Rightarrow> int res" where
  "checked_i32 x = (if in_i32 x then Inr x else Inl Undefined_behaviour)"

text \<open>The conversion of a wider signed value to \<open>int\<close>: modulo \<open>2 ^ 32\<close> since C++20.\<close>

definition narrow_i32 :: "int \<Rightarrow> int" where
  "narrow_i32 x = (x + 2147483648) mod 4294967296 - 2147483648"

lemmas i32_defs = in_i32_def i32_min_def i32_max_def

lemma checked_i32_Inr [simp]: "checked_i32 x = Inr y \<longleftrightarrow> in_i32 x \<and> y = x"
  by (auto simp: checked_i32_def)

lemma narrow_i32_in: "in_i32 (narrow_i32 x)"
proof -
  have "0 \<le> (x + 2147483648) mod 4294967296" "(x + 2147483648) mod 4294967296 < 4294967296"
    by simp_all
  then show ?thesis by (simp add: narrow_i32_def i32_defs)
qed

lemma narrow_i32_id: "in_i32 x \<Longrightarrow> narrow_i32 x = x"
  by (simp add: narrow_i32_def i32_defs)

text \<open>Integer division of the source truncates towards zero.\<close>

definition c_div :: "int \<Rightarrow> int \<Rightarrow> int" where
  "c_div a b = sgn a * sgn b * (\<bar>a\<bar> div \<bar>b\<bar>)"

definition c_mod :: "int \<Rightarrow> int \<Rightarrow> int" where
  "c_mod a b = a - b * c_div a b"

lemma c_div_nonneg: "0 \<le> a \<Longrightarrow> 0 < b \<Longrightarrow> c_div a b = a div b"
  by (cases "a = 0") (simp_all add: c_div_def)

lemma c_mod_nonneg: "0 \<le> a \<Longrightarrow> 0 < b \<Longrightarrow> c_mod a b = a mod b"
  by (simp add: c_mod_def c_div_nonneg minus_mult_div_eq_mod)

subsection \<open>Words\<close>

lemma unat_word_lt [simp]: "unat (w :: 32 word) < 4294967296"
  using unsigned_less [of w] by simp

lemma unat_u32_sub:
  assumes "unat b \<le> unat (a :: u32)"
  shows "unat (a - b) = unat a - unat b"
  using assms by (simp add: unat_sub_if')

subsection \<open>Lists\<close>

lemma take_append_le: "n \<le> length xs \<Longrightarrow> take n (xs @ ys) = take n xs"
  by simp

lemma drop_append_le: "n \<le> length xs \<Longrightarrow> drop n (xs @ ys) = drop n xs @ ys"
  by simp

lemma list_of_length4: "length xs = 4 \<Longrightarrow> \<exists>a b c d. xs = [a, b, c, d]"
  by (auto simp: numeral_eq_Suc length_Suc_conv)

lemma list_of_length2: "length xs = 2 \<Longrightarrow> \<exists>a b. xs = [a, b]"
  by (auto simp: numeral_eq_Suc length_Suc_conv)

lemma list_update_last_pos: "xs \<noteq> [] \<Longrightarrow> xs[length xs - 1 := x] = butlast xs @ [x]"
  by (cases xs rule: rev_cases) simp_all

text \<open>Decimal text of an integer, as \<open>std::to_string\<close> prints it.\<close>

definition digit_char :: "nat \<Rightarrow> char" where
  "digit_char d = char_of (48 + d)"

fun dec_digits :: "nat \<Rightarrow> string" where
  "dec_digits n = (if n < 10 then [digit_char n] else dec_digits (n div 10) @ [digit_char (n mod 10)])"

declare dec_digits.simps [simp del]

definition std_to_string :: "int \<Rightarrow> string" where
  "std_to_string i = (if i < 0 then CHR ''-'' # dec_digits (nat (- i)) else dec_digits (nat i))"

end
