(* ===== verification/Protocol.thy ===== *)
theory Protocol
  imports Prelude
begin

text \<open>
  The FBEB v2 frame codec shared by client, gateway and dispatch
  (common/include/bike/protocol.hpp, common/src/protocol.cpp) and the error codes of
  common/include/bike/errors.hpp. A buffer given as pointer and length is the list of
  its bytes.
\<close>

subsection \<open>Error codes\<close>

datatype ErrCode =
    Ok | InvalidMsg | Unauthorized | InvalidData | MethodNotAllowed
  | ProcessFailed | BikeIsTook | BikeIsRunning | BikeIsDamaged | Unknown

fun code :: "ErrCode \<Rightarrow> int" where
  "code Ok = 200"
| "code InvalidMsg = 400"
| "code Unauthorized = 401"
| "code InvalidData = 404"
| "code MethodNotAllowed = 405"
| "code ProcessFailed = 406"
| "code BikeIsTook = 407"
| "code BikeIsRunning = 408"
| "code BikeIsDamaged = 409"
| "code Unknown = 255"

fun to_string :: "ErrCode \<Rightarrow> string" where
  "to_string Ok = ''ok''"
| "to_string InvalidMsg = ''invalid message''"
| "to_string Unauthorized = ''unauthorized (session expired)''"
| "to_string InvalidData = ''invalid data''"
| "to_string MethodNotAllowed = ''method not allowed''"
| "to_string ProcessFailed = ''process failed''"
| "to_string BikeIsTook = ''bike is took''"
| "to_string BikeIsRunning = ''bike is running''"
| "to_string BikeIsDamaged = ''bike is damaged''"
| "to_string Unknown = ''unknown''"

subsection \<open>Frame constants and events\<close>

definition kFrameMagic :: bytes where
  "kFrameMagic = [0x46, 0x42, 0x45, 0x42]"

definition kHeaderLen :: nat where "kHeaderLen = 14"
definition kMaxMessageLen :: nat where "kMaxMessageLen = 372680"

datatype Event =
    MobileRequest | MobileResponse | LoginRequest | LoginResponse
  | RechargeRequest | RechargeResponse | AccountBalanceRequest | AccountBalanceResponse
  | ListAccountRecordsRequest | ListAccountRecordsResponse
  | ListNearbyBikesRequest | ListNearbyBikesResponse
  | ScanUnlockRequest | ScanUnlockResponse | RidePositionReport
  | EndRideRequest | EndRideResponse | ReportDamageRequest | ReportDamageResponse
  | GetRideDetailRequest | GetRideDetailResponse | ListRidesRequest | ListRidesResponse

fun event_id :: "Event \<Rightarrow> u16" where
  "event_id MobileRequest = 0x01"
| "event_id MobileResponse = 0x02"
| "event_id LoginRequest = 0x03"
| "event_id LoginResponse = 0x04"
| "event_id RechargeRequest = 0x05"
| "event_id RechargeResponse = 0x06"
| "event_id AccountBalanceRequest = 0x07"
| "event_id AccountBalanceResponse = 0x08"
| "event_id ListAccountRecordsRequest = 0x09"
| "event_id ListAccountRecordsResponse = 0x10"
| "event_id ListNearbyBikesRequest = 0x11"
| "event_id ListNearbyBikesResponse = 0x12"
| "event_id ScanUnlockRequest = 0x13"
| "event_id ScanUnlockResponse = 0x14"
| "event_id RidePositionReport = 0x15"
| "event_id EndRideRequest = 0x17"
| "event_id EndRideResponse = 0x18"
| "event_id ReportDamageRequest = 0x19"
| "event_id ReportDamageResponse = 0x1A"
| "event_id GetRideDetailRequest = 0x1B"
| "event_id GetRideDetailResponse = 0x1C"
| "event_id ListRidesRequest = 0x1D"
| "event_id ListRidesResponse = 0x1E"

record Frame =
  fr_event_id :: u16
  fr_seq :: u32
  fr_payload :: bytes

text \<open>The value-initialised frame of a default-constructed \<open>DecodeOutcome\<close>.\<close>

definition frame0 :: Frame where
  "frame0 = \<lparr>fr_event_id = 0, fr_seq = 0, fr_payload = []\<rparr>"

datatype DecodeStatus = NeedMore | BadFrame | DecodeOk

record DecodeOutcome =
  do_status :: DecodeStatus
  do_frame :: Frame
  do_consumed :: nat

subsection \<open>Little-endian fields\<close>

definition put_u16_le :: "bytes \<Rightarrow> u16 \<Rightarrow> bytes" where
  "put_u16_le out v = out @ [ucast (v AND 0xFF), ucast (drop_bit 8 v AND 0xFF)]"

definition put_u32_le :: "bytes \<Rightarrow> u32 \<Rightarrow> bytes" where
  "put_u32_le out u = out @ [ucast (u AND 0xFF), ucast (drop_bit 8 u AND 0xFF),
     ucast (drop_bit 16 u AND 0xFF), ucast (drop_bit 24 u AND 0xFF)]"

text \<open>
  An \<open>int32_t\<close> is the 32-bit word that represents it, read with \<^const>\<open>sint\<close>; the
  conversion to \<open>uint32_t\<close> in \<open>put_i32_le\<close> keeps the word.
\<close>

definition put_i32_le :: "bytes \<Rightarrow> u32 \<Rightarrow> bytes" where
  "put_i32_le out u = out @ [ucast (u AND 0xFF), ucast (drop_bit 8 u AND 0xFF),
     ucast (drop_bit 16 u AND 0xFF), ucast (drop_bit 24 u AND 0xFF)]"

definition get_u16_le :: "bytes \<Rightarrow> u16" where
  "get_u16_le p = ucast (p ! 0) OR push_bit 8 (ucast (p ! 1))"

definition get_u32_le :: "bytes \<Rightarrow> u32" where
  "get_u32_le p = ucast (p ! 0) OR push_bit 8 (ucast (p ! 1))
     OR push_bit 16 (ucast (p ! 2)) OR push_bit 24 (ucast (p ! 3))"

definition get_i32_le :: "bytes \<Rightarrow> u32" where
  "get_i32_le p = ucast (p ! 0) OR push_bit 8 (ucast (p ! 1))
     OR push_bit 16 (ucast (p ! 2)) OR push_bit 24 (ucast (p ! 3))"

subsection \<open>Encoding, decoding, stamping\<close>

definition encode :: "Frame \<Rightarrow> bytes res" where
  "encode f =
     (if length (fr_payload f) > kMaxMessageLen then Inl Overflow_error
      else Inr (put_i32_le (put_u32_le (put_u16_le kFrameMagic (fr_event_id f)) (fr_seq f))
                  (word_of_nat (length (fr_payload f)))
                @ fr_payload f))"

definition decode_frame :: "bytes \<Rightarrow> DecodeOutcome" where
  "decode_frame buf =
     (let n = length buf; out = \<lparr>do_status = NeedMore, do_frame = frame0, do_consumed = 0\<rparr> in
      if n < kHeaderLen then out\<lparr>do_status := NeedMore\<rparr>
      else if take 4 buf \<noteq> kFrameMagic then out\<lparr>do_status := BadFrame\<rparr>
      else
        let len = get_i32_le (drop 10 buf) in
        if sint len < 0 \<or> unat len > kMaxMessageLen then out\<lparr>do_status := BadFrame\<rparr>
        else
          let total = kHeaderLen + unat len in
          if n < total then out\<lparr>do_status := NeedMore\<rparr>
          else \<lparr>do_status = DecodeOk,
                do_frame = \<lparr>fr_event_id = get_u16_le (drop 4 buf),
                            fr_seq = get_u32_le (drop 6 buf),
                            fr_payload = take (unat len) (drop kHeaderLen buf)\<rparr>,
                do_consumed = total\<rparr>)"

definition decode :: "bytes \<Rightarrow> (Frame \<times> nat) option" where
  "decode buf =
     (let out = decode_frame buf in
      if do_status out \<noteq> DecodeOk then None else Some (do_frame out, do_consumed out))"

text \<open>\<open>stamp_seq\<close> updates its argument in place: the model returns the result and the buffer.\<close>

definition stamp_seq :: "bytes \<Rightarrow> u32 \<Rightarrow> bool \<times> bytes" where
  "stamp_seq encoded seq =
     (if length encoded < kHeaderLen then (False, encoded)
      else if take 4 encoded \<noteq> kFrameMagic then (False, encoded)
      else (True, encoded[6 := ucast (seq AND 0xFF),
                          7 := ucast (drop_bit 8 seq AND 0xFF),
                          8 := ucast (drop_bit 16 seq AND 0xFF),
                          9 := ucast (drop_bit 24 seq AND 0xFF)]))"

text \<open>The bytes of a field, and of a whole header, as the specification sees them.\<close>

definition le16 :: "u16 \<Rightarrow> bytes" where
  "le16 v = [ucast v, ucast (drop_bit 8 v)]"

definition le32 :: "u32 \<Rightarrow> bytes" where
  "le32 u = [ucast u, ucast (drop_bit 8 u), ucast (drop_bit 16 u), ucast (drop_bit 24 u)]"

definition header :: "u16 \<Rightarrow> u32 \<Rightarrow> u32 \<Rightarrow> bytes" where
  "header e s l = kFrameMagic @ le16 e @ le32 s @ le32 l"

text \<open>The wire image of a frame: what \<open>encode\<close> returns when it does not throw.\<close>

definition wire :: "Frame \<Rightarrow> bytes" where
  "wire f = header (fr_event_id f) (fr_seq f) (word_of_nat (length (fr_payload f))) @ fr_payload f"

definition frame_fits :: "Frame \<Rightarrow> bool" where
  "frame_fits f \<longleftrightarrow> length (fr_payload f) \<le> kMaxMessageLen"

subsection \<open>Field lemmas\<close>

lemma byte_mask32: "ucast (u AND 255) = (ucast u :: byte)" for u :: u32
proof -
  have "u AND 255 = take_bit 8 u" by (simp add: take_bit_eq_mask mask_eq_exp_minus_1)
  then show ?thesis by (simp only:) (rule bit_word_eqI, simp add: bit_simps)
qed

lemma byte_mask16: "ucast (u AND 255) = (ucast u :: byte)" for u :: u16
proof -
  have "u AND 255 = take_bit 8 u" by (simp add: take_bit_eq_mask mask_eq_exp_minus_1)
  then show ?thesis by (simp only:) (rule bit_word_eqI, simp add: bit_simps)
qed

lemma byte_no_high: "8 \<le> n \<Longrightarrow> \<not> bit (b :: byte) n"
  using bit_imp_le_length [of b n] by auto

lemma length_le [simp]: "length (le16 v) = 2" "length (le32 u) = 4"
  by (simp_all add: le16_def le32_def)

lemma length_magic [simp]: "length kFrameMagic = 4"
  by (simp add: kFrameMagic_def)

lemma length_header [simp]: "length (header e s l) = kHeaderLen"
  by (simp add: header_def kHeaderLen_def)

lemma put_le [byte_simps]:
  "put_u16_le out v = out @ le16 v"
  "put_u32_le out u = out @ le32 u"
  "put_i32_le out u = out @ le32 u"
  by (simp_all add: put_u16_le_def put_u32_le_def put_i32_le_def le16_def le32_def
      byte_mask32 byte_mask16)

lemma get_i32_u32 [byte_simps]: "get_i32_le p = get_u32_le p"
  by (simp add: get_i32_le_def get_u32_le_def)

lemma get_u16_le16 [byte_simps]: "get_u16_le (le16 v @ r) = v"
  unfolding get_u16_le_def le16_def
  by (rule bit_word_eqI) (auto simp: bit_simps)

lemma get_u32_le32 [byte_simps]: "get_u32_le (le32 v @ r) = v"
  unfolding get_u32_le_def le32_def
  apply (rule bit_word_eqI)
  apply (auto simp: bit_simps)
  subgoal for n by (cases "24 \<le> n") auto
  done

lemma le16_get: "le16 (get_u16_le (a # b # p)) = [a, b]"
  by (auto simp: le16_def get_u16_le_def intro!: bit_word_eqI simp: bit_simps byte_no_high)

lemma le32_get: "le32 (get_u32_le (a # b # c # d # p)) = [a, b, c, d]"
  by (auto simp: le32_def get_u32_le_def intro!: bit_word_eqI simp: bit_simps byte_no_high)

lemma le16_get_take: "2 \<le> length p \<Longrightarrow> le16 (get_u16_le p) = take 2 p"
  by (cases p; cases "tl p") (auto simp: le16_get)

lemma le32_get_take: "4 \<le> length p \<Longrightarrow> le32 (get_u32_le p) = take 4 p"
  by (cases p; cases "tl p"; cases "tl (tl p)"; cases "tl (tl (tl p))") (auto simp: le32_get)

subsection \<open>Headers\<close>

lemma encode_eq: "encode f = (if frame_fits f then Inr (wire f) else Inl Overflow_error)"
  by (simp add: encode_def frame_fits_def wire_def header_def byte_simps)

lemma header_parts:
  "take 4 (header e s l @ r) = kFrameMagic"
  "get_u16_le (drop 4 (header e s l @ r)) = e"
  "get_u32_le (drop 6 (header e s l @ r)) = s"
  "get_i32_le (drop 10 (header e s l @ r)) = l"
  "drop kHeaderLen (header e s l @ r) = r"
  by (simp_all add: header_def kHeaderLen_def byte_simps)

lemma header_exists:
  assumes "kHeaderLen \<le> length buf" "take 4 buf = kFrameMagic"
  shows "buf = header (get_u16_le (drop 4 buf)) (get_u32_le (drop 6 buf))
                 (get_i32_le (drop 10 buf)) @ drop kHeaderLen buf"
proof -
  have len: "14 \<le> length buf" using assms(1) by (simp add: kHeaderLen_def)
  have split: "drop k buf = take m (drop k buf) @ drop (k + m) buf" for k m
    by (metis add.commute append_take_drop_id drop_drop)
  have "buf = take 4 buf @ drop 4 buf" by simp
  also have "drop 4 buf = take 2 (drop 4 buf) @ drop 6 buf" using split [of 4 2] by simp
  also have "drop 6 buf = take 4 (drop 6 buf) @ drop 10 buf" using split [of 6 4] by simp
  also have "drop 10 buf = take 4 (drop 10 buf) @ drop 14 buf" using split [of 10 4] by simp
  finally have "buf = take 4 buf @ take 2 (drop 4 buf) @ take 4 (drop 6 buf)
                @ take 4 (drop 10 buf) @ drop 14 buf" .
  with len assms(2) show ?thesis
    by (simp add: header_def kHeaderLen_def byte_simps le16_get_take le32_get_take)
qed

lemma decode_frame_header:
  "decode_frame (header e s l @ r) =
     (if sint l < 0 \<or> unat l > kMaxMessageLen
      then \<lparr>do_status = BadFrame, do_frame = frame0, do_consumed = 0\<rparr>
      else if length r < unat l
      then \<lparr>do_status = NeedMore, do_frame = frame0, do_consumed = 0\<rparr>
      else \<lparr>do_status = DecodeOk,
            do_frame = \<lparr>fr_event_id = e, fr_seq = s, fr_payload = take (unat l) r\<rparr>,
            do_consumed = kHeaderLen + unat l\<rparr>)"
  unfolding decode_frame_def Let_def header_parts by simp

lemma decode_short: "length b < kHeaderLen \<Longrightarrow>
    decode_frame b = \<lparr>do_status = NeedMore, do_frame = frame0, do_consumed = 0\<rparr>"
  by (simp add: decode_frame_def)

lemma decode_bad_magic: "kHeaderLen \<le> length b \<Longrightarrow> take 4 b \<noteq> kFrameMagic \<Longrightarrow>
    decode_frame b = \<lparr>do_status = BadFrame, do_frame = frame0, do_consumed = 0\<rparr>"
  by (simp add: decode_frame_def Let_def)

text \<open>Every buffer is short, misaligned, or starts with a header: the case rule of the codec.\<close>

lemma buffer_cases [case_names short magic header]:
  obtains "length b < kHeaderLen"
  | "kHeaderLen \<le> length b" "take 4 b \<noteq> kFrameMagic"
  | e s l r where "b = header e s l @ r"
  using header_exists [of b] by (metis not_le)

subsection \<open>Round trip and monotonicity\<close>

lemma unat_len32: "n \<le> kMaxMessageLen \<Longrightarrow> unat (word_of_nat n :: u32) = n"
  by (simp add: kMaxMessageLen_def unat_of_nat)

lemma sint_len32: "n \<le> kMaxMessageLen \<Longrightarrow> 0 \<le> sint (word_of_nat n :: u32)"
  by (simp add: kMaxMessageLen_def sint_word_ariths signed_of_nat signed_take_bit_int_eq_self)

lemma length_wire [simp]: "length (wire f) = kHeaderLen + length (fr_payload f)"
  by (simp add: wire_def)

lemma decode_wire:
  assumes "frame_fits f"
  shows "decode_frame (wire f @ r) =
           \<lparr>do_status = DecodeOk, do_frame = f, do_consumed = length (wire f)\<rparr>"
  using assms unat_len32 [of "length (fr_payload f)"] sint_len32 [of "length (fr_payload f)"]
  by (simp add: wire_def frame_fits_def decode_frame_header)

lemma decode_ok_wire:
  assumes "do_status (decode_frame b) = DecodeOk"
  shows "frame_fits (do_frame (decode_frame b))"
    and "b = wire (do_frame (decode_frame b)) @ drop (do_consumed (decode_frame b)) b"
    and "do_consumed (decode_frame b) = length (wire (do_frame (decode_frame b)))"
  using assms
  by (cases b rule: buffer_cases;
      auto simp: decode_short decode_bad_magic decode_frame_header frame_fits_def wire_def
        min_absorb2 split: if_splits)+

lemma decode_not_ok:
  "do_status (decode_frame b) \<noteq> DecodeOk \<Longrightarrow>
     do_frame (decode_frame b) = frame0 \<and> do_consumed (decode_frame b) = 0"
  by (cases b rule: buffer_cases)
    (auto simp: decode_short decode_bad_magic decode_frame_header split: if_splits)

lemma decode_consumed:
  assumes "do_status (decode_frame b) = DecodeOk"
  shows "kHeaderLen \<le> do_consumed (decode_frame b)" "do_consumed (decode_frame b) \<le> length b"
proof -
  note d = decode_ok_wire [OF assms]
  show "kHeaderLen \<le> do_consumed (decode_frame b)" by (simp add: d(3))
  show "do_consumed (decode_frame b) \<le> length b"
    by (metis append_take_drop_id d(2) d(3) length_append le_add1)
qed

lemma decode_mono:
  "do_status (decode_frame b) \<noteq> NeedMore \<Longrightarrow> decode_frame (b @ r) = decode_frame b"
proof (cases b rule: buffer_cases)
  case magic
  then have "take 4 (b @ r) \<noteq> kFrameMagic" by (simp add: kHeaderLen_def)
  with magic show ?thesis by (simp add: decode_bad_magic)
qed (auto simp: decode_short decode_frame_header split: if_splits)

lemma decode_prefix:
  assumes "frame_fits f" "wire f = b @ c" "c \<noteq> []"
  shows "do_status (decode_frame b) = NeedMore"
proof (rule ccontr)
  assume "do_status (decode_frame b) \<noteq> NeedMore"
  then have "decode_frame b = decode_frame (wire f @ [])"
    using decode_mono [of b c] assms(2) by simp
  then have "do_consumed (decode_frame b) = length (wire f)"
    and "do_status (decode_frame b) = DecodeOk"
    using decode_wire [OF assms(1), of "[]"] by simp_all
  then have "length (wire f) \<le> length b" using decode_consumed by metis
  with assms(2,3) show False by simp
qed

lemma stamp_header:
  "stamp_seq (header e s l @ r) s' = (True, header e s' l @ r)"
proof -
  have "stamp_seq (header e s l @ r) s' = (True, (header e s l @ r)
          [6 := ucast s', 7 := ucast (drop_bit 8 s'), 8 := ucast (drop_bit 16 s'),
           9 := ucast (drop_bit 24 s')])"
    unfolding stamp_seq_def byte_mask32 header_parts by simp
  then show ?thesis
    by (simp add: header_def kFrameMagic_def le16_def le32_def)
qed

lemma stamp_wire: "stamp_seq (wire f) s = (True, wire (f\<lparr>fr_seq := s\<rparr>))"
  by (simp add: wire_def stamp_header)

lemma stamp_fails: "fst (stamp_seq b s) = False \<Longrightarrow> snd (stamp_seq b s) = b"
  by (auto simp: stamp_seq_def split: if_splits)

lemma frame_fits_seq [simp]: "frame_fits (f\<lparr>fr_seq := s\<rparr>) = frame_fits f"
  by (simp add: frame_fits_def)

lemma wire_nonempty [simp]: "wire f \<noteq> []"
  by (metis length_wire kHeaderLen_def add_is_0 list.size(3) zero_neq_numeral)

lemma encode_Inr: "encode f = Inr b \<longleftrightarrow> frame_fits f \<and> b = wire f"
  by (auto simp: encode_eq)

lemma decode_Some:
  "decode b = Some (f, n) \<longleftrightarrow> do_status (decode_frame b) = DecodeOk
     \<and> f = do_frame (decode_frame b) \<and> n = do_consumed (decode_frame b)"
  by (auto simp: decode_def Let_def)

subsection \<open>Properties of the codec\<close>

text \<open>Property C28: round trip. A frame that \<open>encode\<close> accepts is decoded back unchanged, with
  exactly its own bytes consumed, whatever bytes follow it in the buffer.\<close>

theorem decode_encode:
  "encode f = Inr b \<Longrightarrow> decode (b @ r) = Some (f, length b)"
  by (simp add: encode_Inr decode_Some decode_wire)

theorem decode_encode_witness:
  "decode ([0x46, 0x42, 0x45, 0x42, 0x15, 0, 7, 0, 0, 0, 2, 0, 0, 0, 0x68, 0x69] @ [0x46]) =
     Some (\<lparr>fr_event_id = 0x15, fr_seq = 7, fr_payload = [0x68, 0x69]\<rparr>, 16)"
  using decode_encode [of "\<lparr>fr_event_id = 0x15, fr_seq = 7, fr_payload = [0x68, 0x69]\<rparr>"
      "[0x46, 0x42, 0x45, 0x42, 0x15, 0, 7, 0, 0, 0, 2, 0, 0, 0, 0x68, 0x69]" "[0x46]"]
  by (simp add: encode_Inr frame_fits_def kMaxMessageLen_def wire_def header_def kFrameMagic_def
      le16_def le32_def)

text \<open>Property C29: the encoding is canonical. When \<open>decode\<close> accepts a buffer, the bytes it
  consumed lie inside the buffer and are exactly what \<open>encode\<close> produces for the frame it
  returned, so no two byte strings decode to the same frame.\<close>

theorem encode_decode:
  "decode b = Some (f, n) \<Longrightarrow> n \<le> length b \<and> encode f = Inr (take n b)"
proof -
  assume "decode b = Some (f, n)"
  then have ok: "do_status (decode_frame b) = DecodeOk"
    and f: "f = do_frame (decode_frame b)" and n: "n = do_consumed (decode_frame b)"
    by (simp_all add: decode_Some)
  have "b = wire f @ drop n b" "n = length (wire f)" "frame_fits f"
    using decode_ok_wire [OF ok] by (simp_all add: f n)
  then have "take n b = wire f" by (metis append_eq_conv_conj)
  with \<open>frame_fits f\<close> decode_consumed(2) [OF ok] show ?thesis by (simp add: encode_Inr n)
qed

theorem encode_decode_witness:
  "16 \<le> (17::nat) \<and> encode \<lparr>fr_event_id = 0x15, fr_seq = 7, fr_payload = [0x68, 0x69]\<rparr>
     = Inr [0x46, 0x42, 0x45, 0x42, 0x15, 0, 7, 0, 0, 0, 2, 0, 0, 0, 0x68, 0x69]"
  using encode_decode [of "[0x46, 0x42, 0x45, 0x42, 0x15, 0, 7, 0, 0, 0, 2, 0, 0, 0, 0x68, 0x69, 1]"
      "\<lparr>fr_event_id = 0x15, fr_seq = 7, fr_payload = [0x68, 0x69]\<rparr>" 16]
  by (simp add: decode_def decode_frame_def kHeaderLen_def kFrameMagic_def kMaxMessageLen_def
      get_i32_le_def get_u32_le_def get_u16_le_def)

text \<open>An incomplete frame is never mistaken for a bad one. Every strict prefix of
  an encoded frame, the empty one included, is answered with \<open>NeedMore\<close>.\<close>

theorem decode_strict_prefix:
  "encode f = Inr (b @ c) \<Longrightarrow> c \<noteq> [] \<Longrightarrow> do_status (decode_frame b) = NeedMore"
  by (metis decode_prefix encode_Inr)

theorem decode_strict_prefix_witness:
  "do_status (decode_frame [0x46, 0x42, 0x45, 0x42, 0x15, 0, 7, 0, 0, 0, 2, 0, 0, 0, 0x68])
     = NeedMore"
  using decode_strict_prefix [of "\<lparr>fr_event_id = 0x15, fr_seq = 7, fr_payload = [0x68, 0x69]\<rparr>"
      "[0x46, 0x42, 0x45, 0x42, 0x15, 0, 7, 0, 0, 0, 2, 0, 0, 0, 0x68]" "[0x69]"]
  by (simp add: encode_Inr frame_fits_def kMaxMessageLen_def wire_def header_def kFrameMagic_def
      le16_def le32_def)

text \<open>Restamping. Writing a sequence number into an encoded frame succeeds and
  gives the encoding of the same frame with that sequence number; nothing else changes.\<close>

theorem stamp_encode:
  "encode f = Inr b \<Longrightarrow>
     fst (stamp_seq b s) \<and> encode (f\<lparr>fr_seq := s\<rparr>) = Inr (snd (stamp_seq b s))"
  by (simp add: encode_Inr stamp_wire)

theorem stamp_encode_witness:
  "encode \<lparr>fr_event_id = 3, fr_seq = 9, fr_payload = [1]\<rparr> = Inr (snd (stamp_seq
     [0x46, 0x42, 0x45, 0x42, 3, 0, 0, 0, 0, 0, 1, 0, 0, 0, 1] 9))"
  using stamp_encode [of "\<lparr>fr_event_id = 3, fr_seq = 0, fr_payload = [1]\<rparr>"
      "[0x46, 0x42, 0x45, 0x42, 3, 0, 0, 0, 0, 0, 1, 0, 0, 0, 1]" 9]
  by (simp add: encode_Inr frame_fits_def kMaxMessageLen_def wire_def header_def kFrameMagic_def
      le16_def le32_def)

end
