(* ===== verification/FrameCut.thy ===== *)
theory FrameCut
  imports Protocol
begin

text \<open>
  Cutting frames out of a byte stream: \<open>cut_frames\<close> of the gateway worker
  (server/src/gateway/frame_cut.cpp) and \<open>consume_frames\<close> of the client
  (client/src/net/tcp_worker.cpp). The main result is that the way a stream is split
  into reads has no influence on the frames that come out of it.
\<close>

record CutResult =
  bad :: bool
  leftover :: bytes

lemma consumed_pos:
  "do_status (decode_frame b) = DecodeOk \<Longrightarrow> 0 < do_consumed (decode_frame b)"
  using decode_consumed(1) [of b] by (simp add: kHeaderLen_def)

text \<open>
  The loop of \<open>cut_frames\<close>: \<open>off\<close> is the offset into the buffer \<open>p\<close>, \<open>out\<close> the
  frames pushed so far. The pointer and length \<open>p + off\<close>, \<open>n - off\<close> are
  \<open>drop off p\<close>.
\<close>

function cut_loop :: "bytes \<Rightarrow> nat \<Rightarrow> Frame list \<Rightarrow> CutResult \<times> Frame list" where
  "cut_loop p off out =
     (if off < length p then
        let res = decode_frame (drop off p) in
        case do_status res of
          NeedMore \<Rightarrow> (\<lparr>bad = False, leftover = drop off p\<rparr>, out)
        | BadFrame \<Rightarrow> (\<lparr>bad = True, leftover = drop off p\<rparr>, out)
        | DecodeOk \<Rightarrow> cut_loop p (off + do_consumed res) (out @ [do_frame res])
      else (\<lparr>bad = False, leftover = drop off p\<rparr>, out))"
  by pat_completeness auto
termination
  by (relation "measure (\<lambda>(p, off, out). length p - off)") (auto dest: consumed_pos)

declare cut_loop.simps [simp del]

definition cut_frames :: "bytes \<Rightarrow> Frame list \<Rightarrow> CutResult \<times> Frame list" where
  "cut_frames p out = cut_loop p 0 out"

text \<open>
  The client's loop works on the buffer itself: \<open>buf.remove(0, consumed)\<close> drops the
  frame just decoded, the callback receives its fields. It returns whether the stream
  is still trusted, the remaining buffer and the frames handed to the callback.
\<close>

function consume_frames :: "bytes \<Rightarrow> bool \<times> bytes \<times> Frame list" where
  "consume_frames buf =
     (let out = decode_frame buf in
      case do_status out of
        NeedMore \<Rightarrow> (True, buf, [])
      | BadFrame \<Rightarrow> (False, buf, [])
      | DecodeOk \<Rightarrow>
          (let (ok, rest, fs) = consume_frames (drop (do_consumed out) buf)
           in (ok, rest, do_frame out # fs)))"
  by pat_completeness auto
termination
proof (relation "measure length", simp)
  fix buf :: bytes and out
  assume "out = decode_frame buf" "do_status out = DecodeOk"
  then have "0 < do_consumed (decode_frame buf)" "do_consumed (decode_frame buf) \<le> length buf"
    using consumed_pos decode_consumed(2) by simp_all
  with \<open>out = decode_frame buf\<close> show "(drop (do_consumed out) buf, buf) \<in> measure length"
    by simp
qed

declare consume_frames.simps [simp del]

text \<open>
  A connection as the byte stream sees it: each read is appended to the bytes left over
  from the reads before, and the frames are cut out of the whole. After a bad frame the
  connection is closed and further reads do not happen.
\<close>

fun feed_reads :: "bytes list \<Rightarrow> CutResult \<times> Frame list \<Rightarrow> CutResult \<times> Frame list" where
  "feed_reads [] st = st"
| "feed_reads (c # cs) (r, fs) =
     (if bad r then (r, fs) else feed_reads cs (cut_frames (leftover r @ c) fs))"

subsection \<open>Characterisation of the loop\<close>

lemma decode_frame_empty [simp]: "do_status (decode_frame []) = NeedMore"
  by (simp add: decode_short kHeaderLen_def)

lemma consume_need_more:
  "do_status (decode_frame b) = NeedMore \<Longrightarrow> consume_frames b = (True, b, [])"
  by (subst consume_frames.simps) simp

lemma consume_bad:
  "do_status (decode_frame b) = BadFrame \<Longrightarrow> consume_frames b = (False, b, [])"
  by (subst consume_frames.simps) simp

lemma consume_ok:
  assumes "do_status (decode_frame b) = DecodeOk"
    and "consume_frames (drop (do_consumed (decode_frame b)) b) = (ok, rest, fs)"
  shows "consume_frames b = (ok, rest, do_frame (decode_frame b) # fs)"
  using assms by (subst consume_frames.simps) simp

lemma cut_loop_consume:
  "cut_loop p off out =
     (case consume_frames (drop off p) of (ok, rest, fs) \<Rightarrow>
        (\<lparr>bad = \<not> ok, leftover = rest\<rparr>, out @ fs))"
proof (induction p off out rule: cut_loop.induct)
  case (1 p off out)
  let ?d = "decode_frame (drop off p)"
  show ?case
  proof (cases "do_status ?d")
    case NeedMore
    then show ?thesis by (subst cut_loop.simps) (simp add: consume_need_more)
  next
    case BadFrame
    then have "off < length p" by (rule contrapos_pp) simp
    with BadFrame show ?thesis by (subst cut_loop.simps) (simp add: consume_bad)
  next
    case DecodeOk
    then have off: "off < length p" by (rule contrapos_pp) simp
    obtain ok rest fs where
      c: "consume_frames (drop (do_consumed ?d) (drop off p)) = (ok, rest, fs)"
      by (cases "consume_frames (drop (do_consumed ?d) (drop off p))") auto
    show ?thesis
      using "1.IH" [OF off refl DecodeOk] c consume_ok [OF DecodeOk c] off DecodeOk
      by (subst cut_loop.simps) (simp add: add.commute)
  qed
qed

lemma cut_frames_consume:
  "cut_frames p out =
     (case consume_frames p of (ok, rest, fs) \<Rightarrow>
        (\<lparr>bad = \<not> ok, leftover = rest\<rparr>, out @ fs))"
  by (simp add: cut_frames_def cut_loop_consume)

text \<open>Reads may be concatenated: the frames cut from \<open>b @ r\<close> are those of \<open>b\<close>, then
  those of what \<open>b\<close> leaves over together with \<open>r\<close>.\<close>

lemma consume_append:
  "consume_frames (b @ r) =
     (case consume_frames b of (ok, rest, fs) \<Rightarrow>
        if ok then (case consume_frames (rest @ r) of (ok', rest', fs') \<Rightarrow> (ok', rest', fs @ fs'))
        else (False, rest @ r, fs))"
proof (induction b rule: consume_frames.induct)
  case (1 b)
  let ?d = "decode_frame b"
  show ?case
  proof (cases "do_status ?d")
    case NeedMore
    then show ?thesis by (simp add: consume_need_more split: prod.splits)
  next
    case BadFrame
    then have "decode_frame (b @ r) = ?d" by (simp add: decode_mono)
    with BadFrame show ?thesis by (simp add: consume_bad)
  next
    case DecodeOk
    then have app: "decode_frame (b @ r) = ?d" by (simp add: decode_mono)
    have split: "drop (do_consumed ?d) (b @ r) = drop (do_consumed ?d) b @ r"
      using decode_consumed(2) [OF DecodeOk] by simp
    show ?thesis
      using "1.IH" [OF refl DecodeOk] DecodeOk app split
      by (subst (1 2) consume_frames.simps) (simp split: prod.splits)
  qed
qed

lemma consume_rest_stable:
  "consume_frames b = (True, rest, fs) \<Longrightarrow> consume_frames rest = (True, rest, [])"
proof (induction b arbitrary: fs rule: consume_frames.induct)
  case (1 b)
  show ?case
  proof (cases "do_status (decode_frame b)")
    case DecodeOk
    obtain ok' rest' gs where
      c: "consume_frames (drop (do_consumed (decode_frame b)) b) = (ok', rest', gs)"
      by (cases "consume_frames (drop (do_consumed (decode_frame b)) b)") auto
    then show ?thesis
      using 1(2) consume_ok [OF DecodeOk c] "1.IH" [OF refl DecodeOk] by auto
  qed (use 1(2) in \<open>auto simp: consume_need_more consume_bad\<close>)
qed

lemma consume_wire:
  assumes "frame_fits f" "consume_frames r = (ok, rest, fs)"
  shows "consume_frames (wire f @ r) = (ok, rest, f # fs)"
  using assms by (subst consume_frames.simps) (simp add: decode_wire)

lemma consume_wires:
  assumes "\<forall>f\<in>set fs. frame_fits f"
  shows "consume_frames (concat (map wire fs) @ r) =
    (case consume_frames r of (ok, rest, gs) \<Rightarrow> (ok, rest, fs @ gs))"
  using assms by (induction fs) (auto simp: consume_wire split: prod.splits)

lemma consume_sound:
  "consume_frames b = (ok, rest, fs) \<Longrightarrow>
     b = concat (map wire fs) @ rest \<and> (\<forall>f\<in>set fs. frame_fits f)"
proof (induction b arbitrary: fs rule: consume_frames.induct)
  case (1 b)
  show ?case
  proof (cases "do_status (decode_frame b)")
    case DecodeOk
    obtain ok' rest' gs where
      c: "consume_frames (drop (do_consumed (decode_frame b)) b) = (ok', rest', gs)"
      by (cases "consume_frames (drop (do_consumed (decode_frame b)) b)") auto
    have eq: "ok' = ok" "rest' = rest" "fs = do_frame (decode_frame b) # gs"
      using 1(2) consume_ok [OF DecodeOk c] by simp_all
    have "drop (do_consumed (decode_frame b)) b = concat (map wire gs) @ rest
        \<and> (\<forall>f\<in>set gs. frame_fits f)"
      using "1.IH" [OF refl DecodeOk] c eq(1,2) by simp
    with decode_ok_wire(1,2) [OF DecodeOk] eq(3) show ?thesis by simp
  qed (use 1(2) in \<open>auto simp: consume_need_more consume_bad\<close>)
qed

lemma feed_reads_concat:
  assumes "consume_frames b = (True, rest, fs)"
  shows "(case feed_reads cs (\<lparr>bad = False, leftover = rest\<rparr>, fs) of (r, gs) \<Rightarrow>
           \<exists>tail. cut_frames (b @ concat cs) [] = (r\<lparr>leftover := leftover r @ tail\<rparr>, gs)
             \<and> (\<not> bad r \<longrightarrow> tail = []))"
  using assms
proof (induction cs arbitrary: b rest fs)
  case Nil
  then show ?case by (simp add: cut_frames_consume)
next
  case (Cons c cs)
  obtain ok rest' gs where c: "consume_frames (rest @ c) = (ok, rest', gs)"
    by (cases "consume_frames (rest @ c)") auto
  have bc: "consume_frames (b @ c) = (ok, rest', fs @ gs)"
    using consume_append [of b c] Cons.prems c by (cases ok) (auto split: prod.splits)
  show ?case
  proof (cases ok)
    case True
    with Cons.IH [of "b @ c" rest' "fs @ gs"] bc c show ?thesis
      by (simp add: cut_frames_consume)
  next
    case False
    have "feed_reads cs (\<lparr>bad = True, leftover = rest'\<rparr>, fs @ gs)
        = (\<lparr>bad = True, leftover = rest'\<rparr>, fs @ gs)"
      by (cases cs) simp_all
    with False c bc consume_append [of "b @ c" "concat cs"] show ?thesis
      by (simp add: cut_frames_consume)
  qed
qed

lemma feed_consumed:
  assumes "consume_frames (concat cs) = (True, part, fs)"
  shows "feed_reads cs (\<lparr>bad = False, leftover = []\<rparr>, []) = (\<lparr>bad = False, leftover = part\<rparr>, fs)"
proof -
  have cut: "cut_frames (concat cs) [] = (\<lparr>bad = False, leftover = part\<rparr>, fs)"
    using assms by (simp add: cut_frames_consume)
  obtain r gs where fr: "feed_reads cs (\<lparr>bad = False, leftover = []\<rparr>, []) = (r, gs)"
    by fastforce
  obtain tail where "cut_frames (concat cs) [] = (r\<lparr>leftover := leftover r @ tail\<rparr>, gs)"
      "\<not> bad r \<longrightarrow> tail = []"
    using feed_reads_concat [of "[]" "[]" "[]" cs] by (auto simp: consume_need_more fr)
  with cut fr show ?thesis by (cases r) auto
qed

subsection \<open>Properties of the cutters\<close>

text \<open>Reassembly does not depend on how TCP splits the stream. Feeding the
  reads one by one gives the same frames and the same verdict as cutting the whole stream
  at once, and the same leftover bytes while the stream is good.\<close>

theorem feed_reads_chunking:
  "(case (feed_reads cs (\<lparr>bad = False, leftover = []\<rparr>, []), cut_frames (concat cs) []) of
     ((r, fs), (r', fs')) \<Rightarrow> fs = fs' \<and> bad r = bad r' \<and>
        (bad r \<or> leftover r = leftover r'))"
  using feed_reads_concat [of "[]" "[]" "[]" cs]
  by (auto simp: consume_need_more split: prod.splits)

text \<open>Property C27: delivery. When the peer sends encoded frames back to back, and the bytes
  arrive in any split together with a part of one more frame, the receiver has cut out exactly
  those frames, in order, and is waiting with exactly that part.\<close>

theorem feed_reads_delivers:
  assumes "list_all2 (\<lambda>f b. encode f = Inr b) fs bs"
    and "concat cs = concat bs @ part" and "encode g = Inr (part @ c)" and "c \<noteq> []"
  shows "feed_reads cs (\<lparr>bad = False, leftover = []\<rparr>, []) = (\<lparr>bad = False, leftover = part\<rparr>, fs)"
proof -
  have fits: "\<forall>f\<in>set fs. frame_fits f" and bs: "bs = map wire fs"
    using assms(1) by (induction fs bs rule: list_all2_induct) (auto simp: encode_Inr)
  have "do_status (decode_frame part) = NeedMore"
    using decode_prefix assms(3,4) by (metis encode_Inr)
  then have "consume_frames (concat cs) = (True, part, fs)"
    using consume_wires [OF fits, of part] assms(2) bs by (simp add: consume_need_more)
  then show ?thesis by (rule feed_consumed)
qed

theorem feed_reads_delivers_witness:
  "feed_reads [[0x46, 0x42, 0x45, 0x42, 3, 0, 0, 0], [0, 0, 1, 0, 0, 0, 9, 0x46, 0x42]]
     (\<lparr>bad = False, leftover = []\<rparr>, []) =
   (\<lparr>bad = False, leftover = [0x46, 0x42]\<rparr>, [\<lparr>fr_event_id = 3, fr_seq = 0, fr_payload = [9]\<rparr>])"
  using feed_reads_delivers [of "[\<lparr>fr_event_id = 3, fr_seq = 0, fr_payload = [9]\<rparr>]"
      "[[0x46, 0x42, 0x45, 0x42, 3, 0, 0, 0, 0, 0, 1, 0, 0, 0, 9]]"
      "[[0x46, 0x42, 0x45, 0x42, 3, 0, 0, 0], [0, 0, 1, 0, 0, 0, 9, 0x46, 0x42]]" "[0x46, 0x42]"
      "\<lparr>fr_event_id = 0, fr_seq = 0, fr_payload = []\<rparr>"
      "[0x45, 0x42, 0, 0, 0, 0, 0, 0, 0, 0, 0, 0]"]
  by (simp add: encode_Inr frame_fits_def kMaxMessageLen_def wire_def header_def kFrameMagic_def
      le16_def le32_def)

text \<open>Client and gateway agree. The client's \<open>consume_frames\<close>, which removes each
  frame from the front of its buffer, and the gateway's \<open>cut_frames\<close>, which advances an
  offset, deliver the same frames, keep the same bytes and reject the same streams.\<close>

theorem cut_frames_client:
  "cut_frames b fs = (let (ok, rest, gs) = consume_frames b
                      in (\<lparr>bad = \<not> ok, leftover = rest\<rparr>, fs @ gs))"
  by (simp add: cut_frames_consume Let_def)

end
