(* ===== verification/TcpClient.thy ===== *)
theory TcpClient
  imports FrameCut
begin

text \<open>
  The network worker of the client (client/src/net/tcp_worker.cpp): one socket, reconnected
  with exponential back-off. The Qt socket is a parameter, a record of the calls the worker
  makes; a call that may emit a signal before it returns also returns whether it did, and the
  slot connected to that signal runs there, inside the call. Signals of the worker itself are
  queued to the thread of the user interface, so they are appended to a list.
\<close>

datatype SocketState = UnconnectedState | HostLookupState | ConnectingState | ConnectedState | ClosingState

text \<open>
  \<open>connect_to_host\<close> returns whether it emitted \<open>errorOccurred\<close>, \<open>disconnect_from_host\<close> and
  \<open>sock_abort\<close> whether they emitted \<open>disconnected\<close>. \<open>sock_sent\<close> is what has been written on the
  current connection, for the statements about the stream; the worker does not read it.
\<close>

record 's QTcpSocket =
  new_socket :: 's
  sock_state :: "'s \<Rightarrow> SocketState"
  connect_to_host :: "string \<Rightarrow> u16 \<Rightarrow> 's \<Rightarrow> 's \<times> bool"
  sock_write :: "bytes \<Rightarrow> 's \<Rightarrow> 's"
  read_all :: "'s \<Rightarrow> bytes \<times> 's"
  disconnect_from_host :: "'s \<Rightarrow> 's \<times> bool"
  sock_abort :: "'s \<Rightarrow> 's \<times> bool"
  sock_sent :: "'s \<Rightarrow> bytes"

datatype WorkerSignal = Connected | Disconnected | FrameReady Frame | ErrorOccurred

text \<open>\<open>tw_timers\<close> holds the delays of the single-shot timers that have not fired yet.\<close>

record 's TcpWorker =
  tw_host :: string
  tw_port :: u16
  shutting_down :: bool
  connecting :: bool
  reconnect_scheduled :: bool
  backoff_ms :: int
  tw_sock :: "'s option"
  tw_rx :: bytes
  tw_pending :: "bytes list"
  tw_timers :: "int list"
  emitted :: "WorkerSignal list"

definition kMaxPendingFrames :: nat where "kMaxPendingFrames = 128"
definition kBackoffInitMs :: int where "kBackoffInitMs = 500"
definition kBackoffCapMs :: int where "kBackoffCapMs = 10000"

definition worker0 :: "'s TcpWorker" where
  "worker0 = \<lparr>tw_host = [], tw_port = 0, shutting_down = False, connecting = False,
     reconnect_scheduled = False, backoff_ms = 500, tw_sock = None, tw_rx = [], tw_pending = [],
     tw_timers = [], emitted = []\<rparr>"

definition emit :: "WorkerSignal \<Rightarrow> 's TcpWorker \<Rightarrow> 's TcpWorker" where
  "emit sg w = w\<lparr>emitted := emitted w @ [sg]\<rparr>"

definition has_state :: "'s QTcpSocket \<Rightarrow> (SocketState \<Rightarrow> bool) \<Rightarrow> 's TcpWorker \<Rightarrow> bool" where
  "has_state q P w = (case tw_sock w of None \<Rightarrow> False | Some s \<Rightarrow> P (sock_state q s))"

text \<open>
  Aborting a connected socket emits \<open>disconnected\<close>, so \<open>onDisconnected\<close> and \<open>scheduleReconnect\<close>
  call each other; the flag \<open>reconnect_scheduled_\<close> ends the recursion. \<open>markDisconnected\<close> is
  the part of \<open>onDisconnected\<close> before the call.
\<close>

definition markDisconnected :: "'s TcpWorker \<Rightarrow> 's TcpWorker" where
  "markDisconnected w = emit Disconnected (w\<lparr>connecting := False, tw_rx := []\<rparr>)"

function scheduleReconnect :: "'s QTcpSocket \<Rightarrow> 's TcpWorker \<Rightarrow> 's TcpWorker" where
  "scheduleReconnect q w =
     (if shutting_down w \<or> tw_host w = [] then w
      else if reconnect_scheduled w then w
      else
        let w1 = w\<lparr>reconnect_scheduled := True\<rparr>;
            w2 = (case tw_sock w1 of
                    None \<Rightarrow> w1
                  | Some s \<Rightarrow>
                      let (s', gone) = sock_abort q s; w' = w1\<lparr>tw_sock := Some s'\<rparr>
                      in if gone then scheduleReconnect q (markDisconnected w') else w')
        in w2\<lparr>tw_timers := tw_timers w2 @ [backoff_ms w2],
              backoff_ms := min (backoff_ms w2 * 2) kBackoffCapMs\<rparr>)"
  by pat_completeness auto
termination
  by (relation "measure (\<lambda>(q, w). of_bool (\<not> reconnect_scheduled w))")
    (auto simp: markDisconnected_def emit_def)

declare scheduleReconnect.simps [simp del]

definition onDisconnected :: "'s QTcpSocket \<Rightarrow> 's TcpWorker \<Rightarrow> 's TcpWorker" where
  "onDisconnected q w = scheduleReconnect q (markDisconnected w)"

text \<open>The slot of \<open>errorOccurred\<close>, a lambda of \<open>ensureSocket\<close>.\<close>

definition onError :: "'s QTcpSocket \<Rightarrow> 's TcpWorker \<Rightarrow> 's TcpWorker" where
  "onError q w =
     (let w1 = emit ErrorOccurred w in
      if connecting w1 \<and> \<not> shutting_down w1 \<and> has_state q (\<lambda>st. st = UnconnectedState) w1
      then scheduleReconnect q (w1\<lparr>connecting := False\<rparr>) else w1)"

definition ensureSocket :: "'s QTcpSocket \<Rightarrow> 's TcpWorker \<Rightarrow> 's TcpWorker" where
  "ensureSocket q w = (if tw_sock w \<noteq> None then w else w\<lparr>tw_sock := Some (new_socket q)\<rparr>)"

text \<open>\<open>sock_->connectToHost(host_, port_)\<close>, with the slot of the error it may emit.\<close>

definition connectSocket :: "'s QTcpSocket \<Rightarrow> 's TcpWorker \<Rightarrow> 's TcpWorker" where
  "connectSocket q w =
     (case tw_sock w of
        None \<Rightarrow> w
      | Some s \<Rightarrow>
          let (s', err) = connect_to_host q (tw_host w) (tw_port w) s; w' = w\<lparr>tw_sock := Some s'\<rparr>
          in if err then onError q w' else w')"

definition connectToServer :: "'s QTcpSocket \<Rightarrow> string \<Rightarrow> u16 \<Rightarrow> 's TcpWorker \<Rightarrow> 's TcpWorker" where
  "connectToServer q h p w =
     (if shutting_down w then w
      else
        let w1 = w\<lparr>tw_host := h, tw_port := p\<rparr> in
        if connecting w1 \<or> has_state q (\<lambda>st. st \<noteq> UnconnectedState) w1 then w1
        else connectSocket q ((ensureSocket q w1)\<lparr>connecting := True\<rparr>))"

definition sendFrame :: "'s QTcpSocket \<Rightarrow> u16 \<Rightarrow> u32 \<Rightarrow> bytes \<Rightarrow> 's TcpWorker \<Rightarrow> 's TcpWorker" where
  "sendFrame q eid sq pl w =
     (case encode \<lparr>fr_event_id = eid, fr_seq = sq, fr_payload = pl\<rparr> of
        Inl e \<Rightarrow> emit ErrorOccurred w
      | Inr b \<Rightarrow>
          if has_state q (\<lambda>st. st = ConnectedState) w
          then w\<lparr>tw_sock := map_option (sock_write q b) (tw_sock w)\<rparr>
          else if eid \<noteq> event_id RidePositionReport then w
          else
            let w1 = (if kMaxPendingFrames \<le> length (tw_pending w)
                      then w\<lparr>tw_pending := tl (tw_pending w)\<rparr> else w)
            in w1\<lparr>tw_pending := tw_pending w1 @ [b]\<rparr>)"

definition dropSocket :: "'s QTcpSocket \<Rightarrow> 's TcpWorker \<Rightarrow> 's TcpWorker" where
  "dropSocket q w =
     (case tw_sock w of
        None \<Rightarrow> w
      | Some s \<Rightarrow>
          let (s1, gone) = disconnect_from_host q s;
              w1 = w\<lparr>tw_sock := Some s1\<rparr>;
              w2 = (if gone then onDisconnected q w1 else w1);
              w3 = (case tw_sock w2 of
                      None \<Rightarrow> w2
                    | Some s2 \<Rightarrow>
                        if sock_state q s2 \<noteq> UnconnectedState
                        then let (s3, gone') = sock_abort q s2; w' = w2\<lparr>tw_sock := Some s3\<rparr>
                             in if gone' then onDisconnected q w' else w'
                        else w2)
          in w3\<lparr>tw_sock := None\<rparr>)"

definition shutdown :: "'s QTcpSocket \<Rightarrow> 's TcpWorker \<Rightarrow> 's TcpWorker" where
  "shutdown q w = dropSocket q (w\<lparr>shutting_down := True, tw_pending := []\<rparr>)"

definition flushPending :: "'s QTcpSocket \<Rightarrow> 's TcpWorker \<Rightarrow> 's TcpWorker" where
  "flushPending q w =
     (if tw_sock w = None \<or> tw_pending w = [] then w
      else w\<lparr>tw_sock := map_option (fold (sock_write q) (tw_pending w)) (tw_sock w), tw_pending := []\<rparr>)"

definition onConnected :: "'s QTcpSocket \<Rightarrow> 's TcpWorker \<Rightarrow> 's TcpWorker" where
  "onConnected q w =
     emit Connected (flushPending q
       (w\<lparr>connecting := False, backoff_ms := kBackoffInitMs, tw_rx := []\<rparr>))"

definition onReadyRead :: "'s QTcpSocket \<Rightarrow> 's TcpWorker \<Rightarrow> 's TcpWorker" where
  "onReadyRead q w =
     (case tw_sock w of
        None \<Rightarrow> w
      | Some s \<Rightarrow>
          let (b, s') = read_all q s;
              (ok, rest, fs) = consume_frames (tw_rx w @ b);
              w1 = w\<lparr>tw_sock := Some s', tw_rx := rest, emitted := emitted w @ map FrameReady fs\<rparr>
          in if ok then w1 else onDisconnected q (dropSocket q (emit ErrorOccurred w1)))"

text \<open>The lambda of the single-shot timer.\<close>

definition onTimer :: "'s QTcpSocket \<Rightarrow> 's TcpWorker \<Rightarrow> 's TcpWorker" where
  "onTimer q w =
     (let w1 = w\<lparr>reconnect_scheduled := False\<rparr> in
      if shutting_down w1 then w1
      else connectSocket q (ensureSocket q (w1\<lparr>connecting := True\<rparr>)))"

subsection \<open>The event loop of the worker thread\<close>

text \<open>
  Connecting and shutting down, timers, and signals of the socket. With each signal the socket
  has changed on its own: a name was found, a connection was made or lost, bytes came in.
  A step of the worker is one of these or the sending of a frame.
\<close>

inductive net_step :: "'s QTcpSocket \<Rightarrow> 's TcpWorker \<Rightarrow> 's TcpWorker \<Rightarrow> bool" for q where
  user_connect: "net_step q w (connectToServer q h p w)"
| user_shutdown: "net_step q w (shutdown q w)"
| timer_fires: "tw_timers w = a @ t # b \<Longrightarrow> net_step q w (onTimer q (w\<lparr>tw_timers := a @ b\<rparr>))"
| host_found: "tw_sock w = Some s \<Longrightarrow> sock_state q s = HostLookupState \<Longrightarrow> sock_state q s' = ConnectingState \<Longrightarrow>
    net_step q w (w\<lparr>tw_sock := Some s'\<rparr>)"
| sig_connected: "tw_sock w = Some s \<Longrightarrow> sock_state q s = ConnectingState \<Longrightarrow> sock_state q s' = ConnectedState \<Longrightarrow>
    sock_sent q s' = [] \<Longrightarrow> net_step q w (onConnected q (w\<lparr>tw_sock := Some s'\<rparr>))"
| sig_ready_read: "tw_sock w = Some s \<Longrightarrow> sock_state q s = ConnectedState \<Longrightarrow> sock_state q s' = ConnectedState \<Longrightarrow>
    sock_sent q s' = sock_sent q s \<Longrightarrow> net_step q w (onReadyRead q (w\<lparr>tw_sock := Some s'\<rparr>))"
| sig_disconnected: "tw_sock w = Some s \<Longrightarrow> sock_state q s \<in> {ConnectedState, ClosingState} \<Longrightarrow>
    sock_state q s' = UnconnectedState \<Longrightarrow> net_step q w (onDisconnected q (w\<lparr>tw_sock := Some s'\<rparr>))"
| sig_refused: "tw_sock w = Some s \<Longrightarrow> sock_state q s \<in> {HostLookupState, ConnectingState} \<Longrightarrow>
    sock_state q s' = UnconnectedState \<Longrightarrow> net_step q w (onError q (w\<lparr>tw_sock := Some s'\<rparr>))"
| sig_error: "tw_sock w = Some s \<Longrightarrow> sock_state q s' = sock_state q s \<Longrightarrow> sock_sent q s' = sock_sent q s \<Longrightarrow>
    net_step q w (onError q (w\<lparr>tw_sock := Some s'\<rparr>))"

definition worker_step :: "'s QTcpSocket \<Rightarrow> 's TcpWorker \<Rightarrow> 's TcpWorker \<Rightarrow> bool" where
  "worker_step q w w' \<longleftrightarrow> net_step q w w' \<or> (\<exists>eid sq pl. w' = sendFrame q eid sq pl w)"

text \<open>What the worker relies on of the Qt socket.\<close>

definition qt_socket :: "'s QTcpSocket \<Rightarrow> bool" where
  "qt_socket q \<longleftrightarrow>
     sock_state q (new_socket q) = UnconnectedState \<and>
     (\<forall>s. sock_state q (fst (sock_abort q s)) = UnconnectedState) \<and>
     (\<forall>b s. sock_state q (sock_write q b s) = sock_state q s) \<and>
     (\<forall>s. sock_state q (snd (read_all q s)) = sock_state q s) \<and>
     (\<forall>h p s. sock_state q s = UnconnectedState \<longrightarrow>
        sock_state q (fst (connect_to_host q h p s)) \<in>
          (if snd (connect_to_host q h p s) then {UnconnectedState} else {HostLookupState, ConnectingState})) \<and>
     (\<forall>h p s. sock_state q s \<noteq> UnconnectedState \<longrightarrow>
        sock_state q (fst (connect_to_host q h p s)) = sock_state q s \<and>
        sock_sent q (fst (connect_to_host q h p s)) = sock_sent q s) \<and>
     (\<forall>b s. sock_state q s = ConnectedState \<longrightarrow> sock_sent q (sock_write q b s) = sock_sent q s @ b) \<and>
     (\<forall>s. sock_sent q (snd (read_all q s)) = sock_sent q s)"

subsection \<open>Never idle\<close>

text \<open>
  The invariant of the worker: at most one reconnect timer, delays within their bounds, a
  bounded number of waiting frames, and, unless shut down, a timer or a busy socket.
\<close>

definition worker_bounds :: "'s TcpWorker \<Rightarrow> bool" where
  "worker_bounds w \<longleftrightarrow>
     500 \<le> backoff_ms w \<and> backoff_ms w \<le> 10000 \<and> (\<forall>t \<in> set (tw_timers w). 500 \<le> t \<and> t \<le> 10000) \<and>
     length (tw_timers w) = of_bool (reconnect_scheduled w) \<and> length (tw_pending w) \<le> 128"

definition worker_inv :: "'s QTcpSocket \<Rightarrow> 's TcpWorker \<Rightarrow> bool" where
  "worker_inv q w \<longleftrightarrow> worker_bounds w \<and>
     (shutting_down w \<longrightarrow> tw_sock w = None) \<and>
     (\<not> shutting_down w \<and> tw_host w \<noteq> [] \<longrightarrow>
        reconnect_scheduled w \<or> has_state q (\<lambda>st. st \<noteq> UnconnectedState) w) \<and>
     (has_state q (\<lambda>st. st \<in> {HostLookupState, ConnectingState}) w \<longrightarrow> connecting w) \<and>
     (\<not> shutting_down w \<and> connecting w \<longrightarrow> has_state q (\<lambda>st. st \<noteq> UnconnectedState) w)"

lemmas worker_defs = worker_bounds_def has_state_def emit_def kBackoffCapMs_def kBackoffInitMs_def
  kMaxPendingFrames_def markDisconnected_def

lemma bounds_timers:
  assumes "worker_bounds w"
  shows "length (tw_timers w) \<le> 1" "set (tw_timers w) \<subseteq> {500..10000}" "length (tw_pending w) \<le> 128"
    and "reconnect_scheduled w \<Longrightarrow> tw_timers w \<noteq> []"
proof -
  have t: "length (tw_timers w) = of_bool (reconnect_scheduled w)" using assms by (simp add: worker_bounds_def)
  then show "length (tw_timers w) \<le> 1" by (cases "reconnect_scheduled w") simp_all
  show "reconnect_scheduled w \<Longrightarrow> tw_timers w \<noteq> []" using t by (cases "tw_timers w") simp_all
  show "set (tw_timers w) \<subseteq> {500..10000}" "length (tw_pending w) \<le> 128"
    using assms by (simp_all add: worker_bounds_def subset_iff)
qed

lemma schedule_stop:
  "shutting_down w \<or> tw_host w = [] \<or> reconnect_scheduled w \<Longrightarrow> scheduleReconnect q w = w"
  by (subst scheduleReconnect.simps) auto

lemma schedule_arms:
  assumes "\<not> shutting_down w" "tw_host w \<noteq> []" "\<not> reconnect_scheduled w"
  shows "scheduleReconnect q w =
    (let gone = (case tw_sock w of None \<Rightarrow> False | Some s \<Rightarrow> snd (sock_abort q s)) in
     w\<lparr>reconnect_scheduled := True, connecting := connecting w \<and> \<not> gone,
       tw_rx := if gone then [] else tw_rx w, emitted := emitted w @ (if gone then [Disconnected] else []),
       tw_sock := map_option (\<lambda>s. fst (sock_abort q s)) (tw_sock w),
       tw_timers := tw_timers w @ [backoff_ms w], backoff_ms := min (backoff_ms w * 2) kBackoffCapMs\<rparr>)"
  using assms
  by (subst scheduleReconnect.simps)
    (cases w; auto simp: schedule_stop markDisconnected_def emit_def split: option.split prod.split)

lemma schedule_inv:
  assumes "worker_bounds w" "\<not> connecting w" "\<not> has_state q (\<lambda>st. st \<noteq> UnconnectedState) w"
    and "shutting_down w \<longrightarrow> tw_sock w = None" "qt_socket q"
  shows "worker_inv q (scheduleReconnect q w)"
proof (cases "shutting_down w \<or> tw_host w = [] \<or> reconnect_scheduled w")
  case True
  with assms show ?thesis
    by (auto simp: schedule_stop worker_inv_def has_state_def split: option.splits)
next
  case False
  with assms show ?thesis
    by (auto simp: schedule_arms worker_inv_def worker_defs Let_def qt_socket_def split: option.splits)
qed

lemma schedule_keeps [simp]:
  "shutting_down (scheduleReconnect q w) = shutting_down w" "tw_host (scheduleReconnect q w) = tw_host w"
  "tw_pending (scheduleReconnect q w) = tw_pending w" 
  by (cases "shutting_down w \<or> tw_host w = [] \<or> reconnect_scheduled w"; auto simp: schedule_stop schedule_arms Let_def)+

lemma schedule_bounds: "worker_bounds w \<Longrightarrow> worker_bounds (scheduleReconnect q w)"
  by (cases "shutting_down w \<or> tw_host w = [] \<or> reconnect_scheduled w")
    (auto simp: schedule_stop schedule_arms worker_defs Let_def)

lemma mark_keeps [simp]:
  "shutting_down (markDisconnected w) = shutting_down w" "tw_host (markDisconnected w) = tw_host w"
  "tw_pending (markDisconnected w) = tw_pending w" "tw_sock (markDisconnected w) = tw_sock w"
  "worker_bounds (markDisconnected w) = worker_bounds w" "\<not> connecting (markDisconnected w)"
  by (simp_all add: worker_defs)

lemma disconnected_inv:
  assumes "worker_bounds w" "\<not> has_state q (\<lambda>st. st \<noteq> UnconnectedState) w"
    and "shutting_down w \<longrightarrow> tw_sock w = None" "qt_socket q"
  shows "worker_inv q (onDisconnected q w)"
  unfolding onDisconnected_def by (rule schedule_inv) (use assms in \<open>simp_all add: has_state_def\<close>)

lemma refused_inv:
  assumes "worker_bounds w" "connecting w" "\<not> shutting_down w"
    and "has_state q (\<lambda>st. st = UnconnectedState) w" "qt_socket q"
  shows "worker_inv q (onError q w)"
proof -
  have "worker_inv q (scheduleReconnect q ((emit ErrorOccurred w)\<lparr>connecting := False\<rparr>))"
    by (rule schedule_inv) (use assms in \<open>auto simp: worker_defs split: option.splits\<close>)
  with assms show ?thesis by (simp add: onError_def has_state_def emit_def)
qed

lemma inv_emit: "worker_inv q w \<Longrightarrow> worker_inv q (emit sg w)"
  by (simp add: worker_inv_def worker_bounds_def has_state_def emit_def)

lemma error_inv:
  assumes "worker_inv q w"
  shows "worker_inv q (onError q w)"
proof -
  have "\<not> (connecting w \<and> \<not> shutting_down w \<and> has_state q (\<lambda>st. st = UnconnectedState) w)"
    using assms by (cases "tw_sock w") (simp_all add: worker_inv_def has_state_def)
  then have "onError q w = emit ErrorOccurred w" by (auto simp: onError_def emit_def has_state_def Let_def)
  with inv_emit [OF assms] show ?thesis by simp
qed

lemma qt_connect:
  assumes "qt_socket q" "connect_to_host q h p s = (s', err)"
  shows "sock_state q s = UnconnectedState \<Longrightarrow>
      sock_state q s' \<in> (if err then {UnconnectedState} else {HostLookupState, ConnectingState})"
    and "sock_state q s \<noteq> UnconnectedState \<Longrightarrow> sock_state q s' = sock_state q s \<and> sock_sent q s' = sock_sent q s"
  using assms(1) [unfolded qt_socket_def, THEN conjunct2, THEN conjunct2, THEN conjunct2, THEN conjunct2, THEN conjunct1,
      rule_format, of s h p]
    assms(1) [unfolded qt_socket_def, THEN conjunct2, THEN conjunct2, THEN conjunct2, THEN conjunct2, THEN conjunct2,
      THEN conjunct1, rule_format, of s h p] assms(2) by simp_all

lemma connect_socket_inv:
  assumes "worker_bounds w" "connecting w" "\<not> shutting_down w" "tw_sock w = Some s" "qt_socket q"
  shows "worker_inv q (connectSocket q w)"
proof -
  obtain s' err where c: "connect_to_host q (tw_host w) (tw_port w) s = (s', err)" by fastforce
  let ?w = "w\<lparr>tw_sock := Some s'\<rparr>"
  have b: "worker_bounds ?w" "connecting ?w" "\<not> shutting_down ?w" "tw_sock ?w = Some s'"
    using assms(1-3) by (simp_all add: worker_bounds_def)
  show ?thesis
  proof (cases "sock_state q s' = UnconnectedState")
    case True
    then have err using qt_connect [OF assms(5) c] by (cases "sock_state q s = UnconnectedState") (auto split: if_splits)
    with True b refused_inv [of ?w q] assms(4,5) c show ?thesis by (simp add: connectSocket_def has_state_def)
  next
    case False
    then have "worker_inv q ?w" using b by (auto simp: worker_inv_def has_state_def)
    with error_inv [of q ?w] assms(4) c show ?thesis by (simp add: connectSocket_def Let_def)
  qed
qed

lemma ensure_socket [simp]:
  "worker_bounds (ensureSocket q w) = worker_bounds w" "shutting_down (ensureSocket q w) = shutting_down w"
  "connecting (ensureSocket q w) = connecting w" "\<exists>s. tw_sock (ensureSocket q w) = Some s"
  by (auto simp: ensureSocket_def worker_bounds_def)

lemma connect_inv:
  assumes "worker_inv q w" "qt_socket q"
  shows "worker_inv q (connectToServer q h p w)"
proof -
  let ?w = "w\<lparr>tw_host := h, tw_port := p\<rparr>"
  have b: "worker_bounds ((ensureSocket q ?w)\<lparr>connecting := True\<rparr>)"
    using assms(1) by (simp add: worker_inv_def worker_bounds_def ensureSocket_def)
  obtain s where s: "tw_sock (ensureSocket q ?w) = Some s" using ensure_socket(4) [of q ?w] by (rule exE)
  have "worker_inv q (connectSocket q ((ensureSocket q ?w)\<lparr>connecting := True\<rparr>))" if "\<not> shutting_down w"
    using connect_socket_inv [OF b _ _ _ assms(2)] s that by simp
  moreover have "worker_inv q ?w" if "connecting w \<or> has_state q (\<lambda>st. st \<noteq> UnconnectedState) w"
    using assms(1) that by (simp add: worker_inv_def worker_bounds_def has_state_def) blast
  ultimately show ?thesis
    using assms(1) by (simp add: connectToServer_def Let_def has_state_def)
qed

lemma timer_inv:
  assumes "worker_inv q w" "qt_socket q" "tw_timers w = a @ t # b"
  shows "worker_inv q (onTimer q (w\<lparr>tw_timers := a @ b\<rparr>))"
proof -
  have ab: "a = []" "b = []"
    using assms(1,3) by (cases "reconnect_scheduled w"; simp add: worker_inv_def worker_bounds_def)+
  let ?w = "w\<lparr>tw_timers := [], reconnect_scheduled := False, connecting := True\<rparr>"
  have b: "worker_bounds (ensureSocket q ?w)"
    using assms(1) by (simp add: worker_inv_def) (simp add: worker_bounds_def)
  obtain s where s: "tw_sock (ensureSocket q ?w) = Some s" using ensure_socket(4) [of q ?w] by (rule exE)
  have "worker_inv q (connectSocket q (ensureSocket q ?w))" if "\<not> shutting_down w"
    using connect_socket_inv [OF b _ _ s assms(2)] that by simp
  moreover have "worker_inv q (w\<lparr>tw_timers := [], reconnect_scheduled := False\<rparr>)" if "shutting_down w"
    using assms(1) that by (simp add: worker_inv_def worker_bounds_def has_state_def)
  ultimately show ?thesis by (simp add: onTimer_def Let_def ab)
qed

lemma flush_keeps [simp]:
  "shutting_down (flushPending q w) = shutting_down w" "tw_host (flushPending q w) = tw_host w"
  "connecting (flushPending q w) = connecting w" "reconnect_scheduled (flushPending q w) = reconnect_scheduled w"
  "tw_timers (flushPending q w) = tw_timers w" "backoff_ms (flushPending q w) = backoff_ms w"
  "length (tw_pending (flushPending q w)) \<le> length (tw_pending w)"
  by (simp_all add: flushPending_def)

lemma write_state:
  "qt_socket q \<Longrightarrow> sock_state q (fold (sock_write q) bs s) = sock_state q s"
  by (induction bs arbitrary: s) (simp_all add: qt_socket_def)

lemma connected_inv:
  assumes "worker_bounds w" "\<not> shutting_down w" "tw_sock w = Some s" "sock_state q s = ConnectedState"
    and "qt_socket q"
  shows "worker_inv q (onConnected q w)"
proof -
  let ?w = "flushPending q (w\<lparr>connecting := False, backoff_ms := kBackoffInitMs, tw_rx := []\<rparr>)"
  have "has_state q (\<lambda>st. st = ConnectedState) ?w"
    using assms(3-5) write_state [OF assms(5)] by (simp add: has_state_def flushPending_def)
  moreover have "worker_bounds ?w"
    using assms(1) flush_keeps(7) [of q "w\<lparr>connecting := False, backoff_ms := kBackoffInitMs, tw_rx := []\<rparr>"]
    by (simp add: worker_bounds_def kBackoffInitMs_def)
  ultimately show ?thesis
    using assms(2) by (simp add: onConnected_def worker_inv_def worker_defs split: option.splits)
qed

lemma send_inv:
  assumes "worker_inv q w" "qt_socket q"
  shows "worker_inv q (sendFrame q eid sq pl w)"
proof -
  have "worker_inv q (w\<lparr>tw_pending := ps\<rparr>)" if "length ps \<le> 128" for ps
    using assms(1) that by (simp add: worker_inv_def worker_bounds_def has_state_def)
  moreover have "worker_inv q (w\<lparr>tw_sock := map_option (sock_write q b) (tw_sock w)\<rparr>)" for b
    using assms by (cases "tw_sock w") (simp_all add: worker_inv_def worker_bounds_def has_state_def qt_socket_def)
  moreover have "worker_inv q (emit ErrorOccurred w)" by (rule inv_emit [OF assms(1)])
  moreover have "length (tw_pending w) \<le> 128" using assms(1) by (simp add: worker_inv_def worker_bounds_def)
  ultimately show ?thesis
    using assms(1) by (simp add: sendFrame_def kMaxPendingFrames_def Let_def split: sum.split)
qed

lemma drop_keeps:
  "tw_sock (dropSocket q w) = None" "shutting_down (dropSocket q w) = shutting_down w"
  "worker_bounds w \<Longrightarrow> worker_bounds (dropSocket q w)"
  subgoal by (simp add: dropSocket_def Let_def split: option.split prod.split)
  subgoal by (simp add: dropSocket_def onDisconnected_def Let_def split: option.split prod.split)
  subgoal premises p
  proof -
    have d: "worker_bounds (onDisconnected q v)" if "worker_bounds v" for v
      using schedule_bounds [of "markDisconnected v"] that by (simp add: onDisconnected_def)
    have s: "worker_bounds (v\<lparr>tw_sock := x\<rparr>) = worker_bounds v" for v x by (simp add: worker_bounds_def)
    show ?thesis using p by (simp add: dropSocket_def Let_def d s split: option.split prod.split)
  qed
  done

lemma ready_read_inv:
  assumes "worker_inv q w" "qt_socket q" "\<not> shutting_down w"
  shows "worker_inv q (onReadyRead q w)"
proof (cases "tw_sock w")
  case None
  with assms(1) show ?thesis by (simp add: onReadyRead_def)
next
  case (Some s)
  obtain b s' where r: "read_all q s = (b, s')" by fastforce
  obtain ok rest fs where c: "consume_frames (tw_rx w @ b) = (ok, rest, fs)" by (metis surj_pair)
  let ?w = "w\<lparr>tw_sock := Some s', tw_rx := rest, emitted := emitted w @ map FrameReady fs\<rparr>"
  have st: "sock_state q s' = sock_state q s" using assms(2) r unfolding qt_socket_def by (metis snd_conv)
  have inv: "worker_inv q ?w"
    using assms(1) Some st by (simp add: worker_inv_def worker_bounds_def has_state_def)
  then have "worker_bounds (emit ErrorOccurred ?w)" by (simp add: worker_inv_def worker_bounds_def emit_def)
  from disconnected_inv [OF drop_keeps(3) [OF this] _ _ assms(2)]
  have "worker_inv q (onDisconnected q (dropSocket q (emit ErrorOccurred ?w)))"
    by (simp add: has_state_def drop_keeps(1))
  with inv Some r c show ?thesis by (simp only: onReadyRead_def Let_def option.case prod.case) simp
qed

lemma shutdown_inv:
  assumes "worker_inv q w"
  shows "worker_inv q (shutdown q w)"
proof -
  have "worker_bounds (w\<lparr>shutting_down := True, tw_pending := []\<rparr>)"
    using assms by (simp add: worker_inv_def worker_bounds_def)
  then show ?thesis by (simp add: shutdown_def worker_inv_def drop_keeps has_state_def)
qed

lemma worker_inv0: "worker_inv q worker0"
  by (simp add: worker_inv_def worker0_def worker_bounds_def has_state_def)

lemma inv_sock:
  assumes "worker_inv q w" "tw_sock w = Some s"
  shows "worker_bounds (w\<lparr>tw_sock := x\<rparr>)" "\<not> shutting_down w"
    and "sock_state q s \<in> {HostLookupState, ConnectingState} \<Longrightarrow> connecting w"
    and "sock_state q s' = sock_state q s \<Longrightarrow> worker_inv q (w\<lparr>tw_sock := Some s'\<rparr>)"
  using assms by (simp_all add: worker_inv_def worker_bounds_def has_state_def)

lemma net_inv:
  assumes "net_step q w w'" "worker_inv q w" "qt_socket q"
  shows "worker_inv q w'"
  using assms(1)
proof cases
  case (user_connect h p)
  show ?thesis unfolding user_connect(1) by (rule connect_inv [OF assms(2,3)])
next
  case user_shutdown
  show ?thesis unfolding user_shutdown(1) by (rule shutdown_inv [OF assms(2)])
next
  case (timer_fires a t b)
  show ?thesis unfolding timer_fires(1) by (rule timer_inv [OF assms(2,3) timer_fires(2)])
next
  case (host_found s s')
  with inv_sock(1) [OF assms(2), of s "Some s'"] inv_sock(2,3) [OF assms(2), of s]
  show ?thesis by (simp add: worker_inv_def has_state_def)
next
  case (sig_connected s s')
  show ?thesis unfolding sig_connected(1)
    by (rule connected_inv [OF inv_sock(1) [OF assms(2) sig_connected(2)]])
      (use sig_connected inv_sock(2) [OF assms(2)] assms(3) in simp_all)
next
  case (sig_ready_read s s')
  show ?thesis unfolding sig_ready_read(1)
    by (rule ready_read_inv [OF inv_sock(4) [OF assms(2) sig_ready_read(2)] assms(3)])
      (use sig_ready_read inv_sock(2) [OF assms(2)] in simp_all)
next
  case (sig_disconnected s s')
  show ?thesis unfolding sig_disconnected(1)
    by (rule disconnected_inv [OF inv_sock(1) [OF assms(2) sig_disconnected(2)] _ _ assms(3)])
      (use sig_disconnected inv_sock(2) [OF assms(2)] in \<open>simp_all add: has_state_def\<close>)
next
  case (sig_refused s s')
  show ?thesis unfolding sig_refused(1)
    by (rule refused_inv [OF inv_sock(1) [OF assms(2) sig_refused(2)] _ _ _ assms(3)])
      (use sig_refused inv_sock(2,3) [OF assms(2)] in \<open>simp_all add: has_state_def\<close>)
next
  case (sig_error s s')
  show ?thesis unfolding sig_error(1)
    by (rule error_inv [OF inv_sock(4) [OF assms(2) sig_error(2,3)]])
qed

lemma step_inv:
  assumes "worker_step q w w'" "worker_inv q w" "qt_socket q"
  shows "worker_inv q w'"
  using net_inv [of q w w'] send_inv [OF assms(2,3)] assms by (auto simp: worker_step_def)

subsection \<open>What goes over the wire\<close>

definition report_wire :: "bytes \<Rightarrow> bool" where
  "report_wire b \<longleftrightarrow> (\<exists>f. frame_fits f \<and> fr_event_id f = event_id RidePositionReport \<and> b = wire f)"

definition whole_frames :: "bytes \<Rightarrow> bool" where
  "whole_frames b \<longleftrightarrow> (\<exists>fs. (\<forall>f \<in> set fs. frame_fits f) \<and> b = concat (map wire fs))"

definition stream_inv :: "'s QTcpSocket \<Rightarrow> 's TcpWorker \<Rightarrow> bool" where
  "stream_inv q w \<longleftrightarrow> (\<forall>b \<in> set (tw_pending w). report_wire b) \<and>
     (\<forall>s. tw_sock w = Some s \<and> sock_state q s = ConnectedState \<longrightarrow> whole_frames (sock_sent q s))"

lemma whole_frames_Nil [simp]: "whole_frames []"
  by (auto simp: whole_frames_def intro: exI [of _ "[]"])

lemma whole_frames_snoc: "whole_frames b \<Longrightarrow> frame_fits f \<Longrightarrow> whole_frames (b @ wire f)"
  unfolding whole_frames_def by (elim exE) (rule_tac x = "fs @ [f]" in exI, auto)

lemma stream_emit [simp]: "stream_inv q (emit sg w) = stream_inv q w" "stream_inv q (markDisconnected w) = stream_inv q w"
  by (simp_all add: stream_inv_def emit_def markDisconnected_def)

lemma schedule_stream: "stream_inv q w \<Longrightarrow> qt_socket q \<Longrightarrow> stream_inv q (scheduleReconnect q w)"
  by (cases "shutting_down w \<or> tw_host w = [] \<or> reconnect_scheduled w")
    (auto simp: schedule_stop schedule_arms Let_def stream_inv_def qt_socket_def)

lemma disconnected_stream: "stream_inv q w \<Longrightarrow> qt_socket q \<Longrightarrow> stream_inv q (onDisconnected q w)"
  by (simp add: onDisconnected_def schedule_stream)

lemma error_stream:
  assumes "stream_inv q w" "qt_socket q"
  shows "stream_inv q (onError q w)"
proof -
  have "stream_inv q ((emit ErrorOccurred w)\<lparr>connecting := False\<rparr>)"
    using assms(1) by (simp add: stream_inv_def emit_def)
  from schedule_stream [OF this assms(2)] show ?thesis using assms(1) by (simp add: onError_def Let_def)
qed

lemma connect_socket_stream:
  assumes "stream_inv q w" "qt_socket q"
  shows "stream_inv q (connectSocket q w)"
proof (cases "tw_sock w")
  case (Some s)
  obtain s' err where c: "connect_to_host q (tw_host w) (tw_port w) s = (s', err)" by fastforce
  have "sock_state q s' = ConnectedState \<Longrightarrow> sock_state q s = ConnectedState \<and> sock_sent q s' = sock_sent q s"
    using qt_connect [OF assms(2) c] by (cases "sock_state q s = UnconnectedState") (auto split: if_splits)
  then have "stream_inv q (w\<lparr>tw_sock := Some s'\<rparr>)" using assms(1) Some by (simp add: stream_inv_def)
  with c Some error_stream [OF this assms(2)] show ?thesis by (simp add: connectSocket_def Let_def)
qed (use assms in \<open>simp add: connectSocket_def\<close>)

lemma drop_pending: "tw_pending (dropSocket q w) = tw_pending w"
  by (simp add: dropSocket_def onDisconnected_def Let_def split: option.split prod.split)

lemma drop_stream: "stream_inv q w \<Longrightarrow> stream_inv q (dropSocket q w)"
  by (simp add: stream_inv_def drop_keeps(1) drop_pending)

lemma ensure_stream:
  "stream_inv q w \<Longrightarrow> qt_socket q \<Longrightarrow> stream_inv q (ensureSocket q w)"
  by (auto simp: ensureSocket_def stream_inv_def qt_socket_def)

lemma fields_stream [simp]:
  "stream_inv q (w\<lparr>connecting := c\<rparr>) = stream_inv q w" "stream_inv q (w\<lparr>tw_timers := ts\<rparr>) = stream_inv q w"
  "stream_inv q (w\<lparr>reconnect_scheduled := c\<rparr>) = stream_inv q w"
  "stream_inv q (w\<lparr>tw_host := h, tw_port := p\<rparr>) = stream_inv q w"
  "stream_inv q (w\<lparr>shutting_down := c\<rparr>) = stream_inv q w"
  by (simp_all add: stream_inv_def)

lemma send_stream:
  assumes "stream_inv q w" "qt_socket q"
  shows "stream_inv q (sendFrame q eid sq pl w)"
proof (cases "encode \<lparr>fr_event_id = eid, fr_seq = sq, fr_payload = pl\<rparr>")
  case (Inl e)
  with assms(1) show ?thesis by (simp add: sendFrame_def)
next
  case (Inr b)
  let ?f = "\<lparr>fr_event_id = eid, fr_seq = sq, fr_payload = pl\<rparr>"
  have b: "frame_fits ?f" "b = wire ?f" using Inr by (simp_all add: encode_Inr)
  have wr: "sock_state q (sock_write q b s) = sock_state q s"
    "sock_state q s = ConnectedState \<Longrightarrow> sock_sent q (sock_write q b s) = sock_sent q s @ b" for s
    using assms(2) by (simp_all add: qt_socket_def)
  show ?thesis
  proof (cases "has_state q (\<lambda>st. st = ConnectedState) w")
    case True
    with Inr assms(1) b wr show ?thesis
      by (auto simp: sendFrame_def stream_inv_def whole_frames_snoc)
  next
    case False
    have "set (tl (tw_pending w)) \<subseteq> set (tw_pending w)" by (cases "tw_pending w") auto
    moreover have "report_wire b" if "eid = event_id RidePositionReport"
      using b that unfolding report_wire_def by (intro exI [of _ ?f]) simp
    ultimately show ?thesis
      using Inr False assms(1) by (auto simp: sendFrame_def Let_def stream_inv_def)
  qed
qed

lemma fold_write_sent:
  assumes "qt_socket q" "sock_state q s = ConnectedState"
  shows "sock_sent q (fold (sock_write q) bs s) = sock_sent q s @ concat bs"
  using assms(2)
proof (induction bs arbitrary: s)
  case (Cons b bs)
  moreover have "sock_state q (sock_write q b s) = ConnectedState" "sock_sent q (sock_write q b s) = sock_sent q s @ b"
    using assms(1) Cons.prems by (simp_all add: qt_socket_def)
  ultimately show ?case by simp
qed simp

lemma reports_whole: "\<forall>b \<in> set bs. report_wire b \<Longrightarrow> whole_frames (concat bs)"
proof (induction bs rule: rev_induct)
  case (snoc b bs)
  then obtain f where "frame_fits f" "b = wire f" by (auto simp: report_wire_def)
  with snoc show ?case by (simp add: whole_frames_snoc)
qed simp

lemma connected_stream:
  assumes "stream_inv q w" "qt_socket q" "tw_sock w = Some s" "sock_state q s = ConnectedState" "sock_sent q s = []"
  shows "stream_inv q (onConnected q w)"
proof -
  have "whole_frames (sock_sent q (fold (sock_write q) (tw_pending w) s))"
    using assms(1) fold_write_sent [OF assms(2,4)] assms(5) reports_whole by (simp add: stream_inv_def)
  with assms show ?thesis by (auto simp: onConnected_def flushPending_def stream_inv_def emit_def)
qed

lemma ready_read_stream:
  assumes "stream_inv q w" "qt_socket q"
  shows "stream_inv q (onReadyRead q w)"
proof (cases "tw_sock w")
  case (Some s)
  obtain b s' where r: "read_all q s = (b, s')" by fastforce
  obtain ok rest fs where c: "consume_frames (tw_rx w @ b) = (ok, rest, fs)" by (metis surj_pair)
  let ?w = "w\<lparr>tw_sock := Some s', tw_rx := rest, emitted := emitted w @ map FrameReady fs\<rparr>"
  have "sock_state q s' = sock_state q s" "sock_sent q s' = sock_sent q s"
    using assms(2) r unfolding qt_socket_def by (metis snd_conv)+
  then have inv: "stream_inv q ?w" using assms(1) Some by (simp add: stream_inv_def)
  then have "stream_inv q (onDisconnected q (dropSocket q (emit ErrorOccurred ?w)))"
    by (intro disconnected_stream drop_stream assms(2)) simp
  with inv Some r c show ?thesis by (simp only: onReadyRead_def Let_def option.case prod.case) simp
qed (use assms in \<open>simp add: onReadyRead_def\<close>)

lemma net_stream:
  assumes "net_step q w w'" "stream_inv q w" "qt_socket q"
  shows "stream_inv q w'"
  using assms(1)
proof cases
  case (user_connect h p)
  have "stream_inv q ((ensureSocket q (w\<lparr>tw_host := h, tw_port := p\<rparr>))\<lparr>connecting := True\<rparr>)"
    using ensure_stream [of q "w\<lparr>tw_host := h, tw_port := p\<rparr>"] assms(2,3) by simp
  from connect_socket_stream [OF this assms(3)] assms(2) user_connect show ?thesis
    by (simp add: connectToServer_def Let_def)
next
  case user_shutdown
  have "stream_inv q (w\<lparr>shutting_down := True, tw_pending := []\<rparr>)" using assms(2) by (simp add: stream_inv_def)
  then show ?thesis unfolding user_shutdown(1) shutdown_def by (rule drop_stream)
next
  case (timer_fires a t b)
  have "stream_inv q (ensureSocket q (w\<lparr>tw_timers := a @ b, reconnect_scheduled := False, connecting := True\<rparr>))"
    by (intro ensure_stream assms(3)) (use assms(2) in \<open>simp add: stream_inv_def\<close>)
  from connect_socket_stream [OF this assms(3)] assms(2) timer_fires(1) show ?thesis
    by (simp add: onTimer_def Let_def)
next
  case (host_found s s')
  with assms(2) show ?thesis by (simp add: stream_inv_def)
next
  case (sig_connected s s')
  show ?thesis unfolding sig_connected(1)
    by (rule connected_stream [OF _ assms(3)]) (use sig_connected assms(2) in \<open>auto simp: stream_inv_def\<close>)
next
  case (sig_ready_read s s')
  show ?thesis unfolding sig_ready_read(1)
    by (rule ready_read_stream [OF _ assms(3)]) (use sig_ready_read assms(2) in \<open>auto simp: stream_inv_def\<close>)
next
  case (sig_disconnected s s')
  show ?thesis unfolding sig_disconnected(1)
    by (rule disconnected_stream [OF _ assms(3)]) (use sig_disconnected assms(2) in \<open>auto simp: stream_inv_def\<close>)
next
  case (sig_refused s s')
  show ?thesis unfolding sig_refused(1)
    by (rule error_stream [OF _ assms(3)]) (use sig_refused assms(2) in \<open>auto simp: stream_inv_def\<close>)
next
  case (sig_error s s')
  show ?thesis unfolding sig_error(1)
    by (rule error_stream [OF _ assms(3)]) (use sig_error assms(2) in \<open>auto simp: stream_inv_def\<close>)
qed

lemma step_stream:
  assumes "worker_step q w w'" "stream_inv q w" "qt_socket q"
  shows "stream_inv q w'"
  using net_stream [of q w w'] send_stream [OF assms(2,3)] assms by (auto simp: worker_step_def)

lemma worker_reachable:
  assumes "(worker_step q)\<^sup>*\<^sup>* worker0 w" "qt_socket q"
  shows "worker_inv q w \<and> stream_inv q w"
  using assms(1)
proof induction
  case base
  show ?case by (simp add: worker_inv0) (simp add: stream_inv_def worker0_def)
next
  case (step y z)
  with step_inv [OF step.hyps(2)] step_stream [OF step.hyps(2)] assms(2) show ?case by simp
qed

text \<open>
  Property C22: the client never gives up. In every reachable state of the worker that knows its
  server and has not been shut down, a reconnect timer is running or the socket is looking up,
  connecting or connected. There is never more than one timer, it waits between half a second
  and ten seconds, at most 128 frames wait for a connection, and after a shutdown there is no
  socket any more.
\<close>

theorem worker_never_idle:
  assumes "qt_socket q" "(worker_step q)\<^sup>*\<^sup>* worker0 w"
  shows "(\<not> shutting_down w \<and> tw_host w \<noteq> [] \<longrightarrow>
        tw_timers w \<noteq> [] \<or> has_state q (\<lambda>st. st \<noteq> UnconnectedState) w) \<and>
     length (tw_timers w) \<le> 1 \<and> set (tw_timers w) \<subseteq> {500..10000} \<and>
     length (tw_pending w) \<le> 128 \<and> (shutting_down w \<longrightarrow> tw_sock w = None)"
proof -
  have inv: "worker_inv q w" using worker_reachable [OF assms(2,1)] by simp
  then have "worker_bounds w" by (simp add: worker_inv_def)
  note b = bounds_timers [OF this]
  have "tw_timers w \<noteq> [] \<or> has_state q (\<lambda>st. st \<noteq> UnconnectedState) w"
    if "\<not> shutting_down w" "tw_host w \<noteq> []"
    using inv that b(4) unfolding worker_inv_def by blast
  moreover have "shutting_down w \<longrightarrow> tw_sock w = None" using inv by (simp add: worker_inv_def)
  ultimately show ?thesis using b by blast
qed

text \<open>
  Property C23: what the client writes is a sequence of whole frames. In every reachable state the
  bytes written on the current connection are the encodings of frames, so the gateway, however
  TCP splits them into reads, cuts out exactly those frames. The frames kept for the next
  connection are position reports only: no request is replayed after a reconnect.
\<close>

theorem worker_stream_decodes:
  assumes "qt_socket q" "(worker_step q)\<^sup>*\<^sup>* worker0 w"
    and "tw_sock w = Some s" "sock_state q s = ConnectedState" "concat cs = sock_sent q s"
  shows "\<exists>fs. sock_sent q s = concat (map wire fs) \<and>
      feed_reads cs (\<lparr>bad = False, leftover = []\<rparr>, []) = (\<lparr>bad = False, leftover = []\<rparr>, fs) \<and>
      (\<forall>b \<in> set (tw_pending w). \<exists>f. decode b = Some (f, length b) \<and> fr_event_id f = event_id RidePositionReport)"
proof -
  have inv: "stream_inv q w" using worker_reachable [OF assms(2,1)] by simp
  then have "whole_frames (sock_sent q s)" using assms(3,4) by (simp add: stream_inv_def)
  then obtain fs where fs: "\<forall>f \<in> set fs. frame_fits f" "sock_sent q s = concat (map wire fs)"
    unfolding whole_frames_def by blast
  then have "consume_frames (concat cs) = (True, [], fs)"
    using consume_wires [OF fs(1), of "[]"] assms(5) by (simp add: consume_need_more)
  then have "feed_reads cs (\<lparr>bad = False, leftover = []\<rparr>, []) = (\<lparr>bad = False, leftover = []\<rparr>, fs)"
    by (rule feed_consumed)
  moreover have "\<exists>f. decode b = Some (f, length b) \<and> fr_event_id f = event_id RidePositionReport"
    if "b \<in> set (tw_pending w)" for b
  proof -
    have "report_wire b" using inv that by (simp add: stream_inv_def)
    then obtain f where "frame_fits f" "fr_event_id f = event_id RidePositionReport" "b = wire f"
      unfolding report_wire_def by (elim exE conjE)
    with decode_wire [of f "[]"] show ?thesis by (intro exI [of _ f]) (simp add: decode_Some)
  qed
  ultimately show ?thesis using fs(2) by (intro exI [of _ fs] conjI ballI)
qed

text \<open>A socket that connects at once and only records what is written.\<close>

definition demo_socket :: "(SocketState \<times> bytes) QTcpSocket" where
  "demo_socket = \<lparr>new_socket = (UnconnectedState, []), sock_state = fst,
     connect_to_host = (\<lambda>h p s. if fst s = UnconnectedState then ((ConnectingState, []), False) else (s, True)),
     sock_write = (\<lambda>b s. (fst s, snd s @ b)), read_all = (\<lambda>s. ([], s)),
     disconnect_from_host = (\<lambda>s. ((UnconnectedState, []), fst s = ConnectedState)),
     sock_abort = (\<lambda>s. ((UnconnectedState, []), fst s = ConnectedState)), sock_sent = snd\<rparr>"

lemma demo_socket: "qt_socket demo_socket"
  by (simp add: qt_socket_def demo_socket_def)

text \<open>The client connects and sends a request.\<close>

definition demo_worker :: "(SocketState \<times> bytes) TcpWorker" where
  "demo_worker = worker0\<lparr>tw_host := ''h'', tw_port := 8888,
     tw_sock := Some (ConnectedState, wire \<lparr>fr_event_id = 7, fr_seq = 1, fr_payload = [9]\<rparr>),
     backoff_ms := 500, emitted := [Connected]\<rparr>"

lemma demo_reached: "(worker_step demo_socket)\<^sup>*\<^sup>* worker0 demo_worker"
proof -
  let ?w1 = "connectToServer demo_socket ''h'' 8888 worker0"
  let ?w2 = "onConnected demo_socket (?w1\<lparr>tw_sock := Some (ConnectedState, [])\<rparr>)"
  let ?w3 = "sendFrame demo_socket 7 1 [9] ?w2"
  have w1: "tw_sock ?w1 = Some (ConnectingState, [])"
    by (simp add: connectToServer_def connectSocket_def ensureSocket_def worker0_def demo_socket_def has_state_def)
  have s1: "worker_step demo_socket worker0 ?w1" by (simp add: worker_step_def user_connect)
  have "net_step demo_socket ?w1 ?w2"
    by (rule sig_connected [OF w1]) (simp_all add: demo_socket_def)
  then have s2: "worker_step demo_socket ?w1 ?w2" unfolding worker_step_def by (rule disjI1)
  have s3: "worker_step demo_socket ?w2 ?w3" unfolding worker_step_def by (intro disjI2 exI) (rule refl)
  have "encode \<lparr>fr_event_id = 7, fr_seq = 1, fr_payload = [9]\<rparr>
      = Inr (wire \<lparr>fr_event_id = 7, fr_seq = 1, fr_payload = [9]\<rparr>)"
    by (simp add: encode_Inr frame_fits_def kMaxMessageLen_def)
  then have "?w3 = demo_worker"
    by (simp add: sendFrame_def onConnected_def flushPending_def connectToServer_def connectSocket_def ensureSocket_def
        worker0_def demo_worker_def demo_socket_def has_state_def emit_def kBackoffInitMs_def)
  moreover have "(worker_step demo_socket)\<^sup>*\<^sup>* worker0 ?w3"
    by (rule rtranclp.rtrancl_into_rtrancl [OF rtranclp.rtrancl_into_rtrancl [OF r_into_rtranclp [of "worker_step demo_socket", OF s1] s2] s3])
  ultimately show ?thesis by (simp only:)
qed

theorem worker_never_idle_witness: "has_state demo_socket (\<lambda>st. st \<noteq> UnconnectedState) demo_worker"
  using worker_never_idle [OF demo_socket demo_reached] by (simp add: demo_worker_def worker0_def)

theorem worker_stream_decodes_witness:
  "\<exists>fs. feed_reads [wire \<lparr>fr_event_id = 7, fr_seq = 1, fr_payload = [9]\<rparr>] (\<lparr>bad = False, leftover = []\<rparr>, []) =
     (\<lparr>bad = False, leftover = []\<rparr>, fs)"
  using worker_stream_decodes [OF demo_socket demo_reached, of "(ConnectedState, wire \<lparr>fr_event_id = 7, fr_seq = 1, fr_payload = [9]\<rparr>)"
      "[wire \<lparr>fr_event_id = 7, fr_seq = 1, fr_payload = [9]\<rparr>]"]
  by (simp add: demo_worker_def worker0_def demo_socket_def) blast

end
