(* ===== verification/Common.thy ===== *)
theory Common
  imports Protocol
begin

text \<open>
  The business rules shared by client and server (common/src/pricing.cpp, ride_no.cpp,
  validation.cpp, geo.cpp), and what the sources use of the standard library for them:
  \<open>double\<close> without rounding (a real, an infinity or NaN; signed zeros are not told
  apart), \<open>printf\<close> padding and the calendar of \<open>gmtime\<close>.
\<close>

subsection \<open>Floating point\<close>

datatype dbl = Num real | Inf bool | NaN

fun dle :: "dbl \<Rightarrow> dbl \<Rightarrow> bool" where
  "dle NaN b = False"
| "dle a NaN = False"
| "dle (Num x) (Num y) = (x \<le> y)"
| "dle (Inf p) (Inf q) = (p \<longrightarrow> q)"
| "dle (Inf p) (Num y) = (\<not> p)"
| "dle (Num x) (Inf q) = q"

fun dlt :: "dbl \<Rightarrow> dbl \<Rightarrow> bool" where
  "dlt NaN b = False"
| "dlt a NaN = False"
| "dlt a b = (\<not> dle b a)"

fun dadd :: "dbl \<Rightarrow> dbl \<Rightarrow> dbl" where
  "dadd NaN b = NaN"
| "dadd a NaN = NaN"
| "dadd (Num x) (Num y) = Num (x + y)"
| "dadd (Inf p) (Inf q) = (if p = q then Inf p else NaN)"
| "dadd (Inf p) (Num y) = Inf p"
| "dadd (Num x) (Inf q) = Inf q"

fun dneg :: "dbl \<Rightarrow> dbl" where
  "dneg NaN = NaN"
| "dneg (Num x) = Num (- x)"
| "dneg (Inf p) = Inf (\<not> p)"

definition dsub :: "dbl \<Rightarrow> dbl \<Rightarrow> dbl" where
  "dsub a b = dadd a (dneg b)"

fun dmul :: "dbl \<Rightarrow> dbl \<Rightarrow> dbl" where
  "dmul NaN b = NaN"
| "dmul a NaN = NaN"
| "dmul (Num x) (Num y) = Num (x * y)"
| "dmul (Inf p) (Inf q) = Inf (p = q)"
| "dmul (Inf p) (Num y) = (if y = 0 then NaN else Inf (p = (y > 0)))"
| "dmul (Num x) (Inf q) = (if x = 0 then NaN else Inf ((x > 0) = q))"

fun ddiv :: "dbl \<Rightarrow> dbl \<Rightarrow> dbl" where
  "ddiv NaN b = NaN"
| "ddiv a NaN = NaN"
| "ddiv (Num x) (Num y) = (if y = 0 then (if x = 0 then NaN else Inf (x > 0)) else Num (x / y))"
| "ddiv (Inf p) (Inf q) = NaN"
| "ddiv (Inf p) (Num y) = Inf (p = (y \<ge> 0))"
| "ddiv (Num x) (Inf q) = Num 0"

fun dsin :: "dbl \<Rightarrow> dbl" where
  "dsin (Num x) = Num (sin x)"
| "dsin a = NaN"

fun dcos :: "dbl \<Rightarrow> dbl" where
  "dcos (Num x) = Num (cos x)"
| "dcos a = NaN"

fun dsqrt :: "dbl \<Rightarrow> dbl" where
  "dsqrt (Num x) = (if x < 0 then NaN else Num (sqrt x))"
| "dsqrt (Inf p) = (if p then Inf True else NaN)"
| "dsqrt NaN = NaN"

definition atan2 :: "real \<Rightarrow> real \<Rightarrow> real" where
  "atan2 y x =
     (if x > 0 then arctan (y / x)
      else if x < 0 then (if y \<ge> 0 then arctan (y / x) + pi else arctan (y / x) - pi)
      else if y > 0 then pi / 2 else if y < 0 then - (pi / 2) else 0)"

fun datan2 :: "dbl \<Rightarrow> dbl \<Rightarrow> dbl" where
  "datan2 NaN b = NaN"
| "datan2 a NaN = NaN"
| "datan2 (Num y) (Num x) = Num (atan2 y x)"
| "datan2 (Inf p) (Num x) = Num (if p then pi / 2 else - (pi / 2))"
| "datan2 (Num y) (Inf q) = Num (if q then 0 else if y \<ge> 0 then pi else - pi)"
| "datan2 (Inf p) (Inf q) = Num ((if p then 1 else - 1) * (if q then pi / 4 else 3 * pi / 4))"

text \<open>The conversion to \<open>int\<close> truncates; out of range and for NaN it is undefined.\<close>

definition dbl_to_int :: "dbl \<Rightarrow> int res" where
  "dbl_to_int d =
     (case d of
        Num x \<Rightarrow> checked_i32 (if x \<ge> 0 then \<lfloor>x\<rfloor> else \<lceil>x\<rceil>)
      | _ \<Rightarrow> Inl Undefined_behaviour)"

subsection \<open>Pricing\<close>

definition compute_fee :: "int \<Rightarrow> int res" where
  "compute_fee duration_sec =
     (if duration_sec < 0 then Inl Invalid_argument
      else
        let base_sec = 15 * 60; step_sec = 15 * 60; fee = 100 in
        if duration_sec \<le> base_sec then Inr fee
        else
          let extra_sec = duration_sec - base_sec in
          case checked_i32 (extra_sec + step_sec - 1) of
            Inl e \<Rightarrow> Inl e
          | Inr s \<Rightarrow>
              let extra_chunks = c_div s step_sec in
              checked_i32 (fee + extra_chunks * 50))"

subsection \<open>Ride numbers\<close>

text \<open>\<open>printf\<close> with \<open>%0nd\<close>: the sign counts for the width.\<close>

definition pad_dec :: "nat \<Rightarrow> int \<Rightarrow> string" where
  "pad_dec w i =
     (if i < 0 then CHR ''-'' # replicate (w - 1 - length (dec_digits (nat (- i)))) CHR ''0''
                      @ dec_digits (nat (- i))
      else replicate (w - length (dec_digits (nat i))) CHR ''0'' @ dec_digits (nat i))"

text \<open>\<open>snprintf\<close> into a buffer of 16 bytes keeps 15 characters.\<close>

definition make_ride_no :: "int \<Rightarrow> int \<Rightarrow> string res" where
  "make_ride_no date_yyyymmdd daily_seq =
     (if daily_seq < 1 \<or> daily_seq > 999999 then Inl Invalid_argument
      else Inr (take 15 (CHR ''R'' # pad_dec 8 date_yyyymmdd @ pad_dec 6 daily_seq)))"

subsection \<open>Validation\<close>

definition valid_bike_no :: "string \<Rightarrow> bool" where
  "valid_bike_no s \<longleftrightarrow> s \<noteq> [] \<and> length s \<le> 32"

definition valid_lat :: "dbl \<Rightarrow> bool" where
  "valid_lat lat \<longleftrightarrow> dle (Num (- 90)) lat \<and> dle lat (Num 90)"

definition valid_lng :: "dbl \<Rightarrow> bool" where
  "valid_lng lng \<longleftrightarrow> dle (Num (- 180)) lng \<and> dle lng (Num 180)"

definition clamp_radius :: "dbl \<Rightarrow> dbl" where
  "clamp_radius r =
     (if dle r (Num 0) then Num 500
      else if dlt r (Num 50) then Num 50
      else if dlt (Num 2000) r then Num 2000
      else r)"

definition clamp_limit :: "int \<Rightarrow> int" where
  "clamp_limit n = (if n = 0 then 20 else if n < 1 then 1 else if n > 100 then 100 else n)"

subsection \<open>Geography\<close>

definition kPi :: real where "kPi = 3.14159265358979323846"
definition kEarthRadiusM :: real where "kEarthRadiusM = 6371000"

definition to_rad :: "dbl \<Rightarrow> dbl" where
  "to_rad deg = ddiv (dmul deg (Num kPi)) (Num 180)"

definition haversine_m :: "dbl \<Rightarrow> dbl \<Rightarrow> dbl \<Rightarrow> dbl \<Rightarrow> dbl" where
  "haversine_m lat1 lng1 lat2 lng2 =
     (let la1 = to_rad lat1; la2 = to_rad lat2;
          dla = to_rad (dsub lat2 lat1);
          dlo = to_rad (dsub lng2 lng1);
          a = dadd (dmul (dsin (ddiv dla (Num 2))) (dsin (ddiv dla (Num 2))))
                   (dmul (dmul (dmul (dcos la1) (dcos la2)) (dsin (ddiv dlo (Num 2))))
                         (dsin (ddiv dlo (Num 2))));
          c = dmul (Num 2) (datan2 (dsqrt a) (dsqrt (dsub (Num 1) a)))
      in dmul (Num kEarthRadiusM) c)"

definition is_in_china :: "dbl \<Rightarrow> dbl \<Rightarrow> bool" where
  "is_in_china lat lng \<longleftrightarrow>
     dle (Num 18) lat \<and> dle lat (Num 54) \<and> dle (Num 73) lng \<and> dle lng (Num 135)"

subsection \<open>Calendar\<close>

definition is_leap :: "int \<Rightarrow> bool" where
  "is_leap y \<longleftrightarrow> y mod 4 = 0 \<and> (y mod 100 \<noteq> 0 \<or> y mod 400 = 0)"

definition days_in_year :: "int \<Rightarrow> int" where
  "days_in_year y = (if is_leap y then 366 else 365)"

definition month_lengths :: "int \<Rightarrow> int list" where
  "month_lengths y = [31, if is_leap y then 29 else 28, 31, 30, 31, 30, 31, 31, 30, 31, 30, 31]"

function split_year :: "int \<Rightarrow> int \<Rightarrow> int \<times> int" where
  "split_year y n =
     (if n < 0 then split_year (y - 1) (n + days_in_year (y - 1))
      else if n < days_in_year y then (y, n)
      else split_year (y + 1) (n - days_in_year y))"
  by pat_completeness auto
termination
  by (relation "measure (\<lambda>(y, n). nat (if n < 0 then 1000 - n else n))")
    (auto simp: days_in_year_def split: if_splits)

declare split_year.simps [simp del]

fun split_month :: "int list \<Rightarrow> int \<Rightarrow> int \<Rightarrow> int \<times> int" where
  "split_month [] m n = (m, n)"
| "split_month (l # ls) m n = (if n < l then (m, n) else split_month ls (m + 1) (n - l))"

record tm =
  tm_year :: int
  tm_mon :: int
  tm_mday :: int
  tm_hour :: int
  tm_min :: int
  tm_sec :: int

text \<open>\<open>gmtime\<close>, with the full year and months counted from 1.\<close>

definition gmtime :: "int \<Rightarrow> tm" where
  "gmtime t =
     (let days = t div 86400; s = t mod 86400;
          (y, yd) = split_year 1970 days;
          (m, d) = split_month (month_lengths y) 1 yd
      in \<lparr>tm_year = y, tm_mon = m, tm_mday = d + 1,
          tm_hour = s div 3600, tm_min = s mod 3600 div 60, tm_sec = s mod 60\<rparr>)"

definition today_yyyymmdd :: "int \<Rightarrow> int" where
  "today_yyyymmdd t = (let d = gmtime t in tm_year d * 10000 + tm_mon d * 100 + tm_mday d)"

definition fmt_iso :: "int \<Rightarrow> string" where
  "fmt_iso unix_sec =
     (let d = gmtime unix_sec in
      std_to_string (tm_year d) @ ''-'' @ pad_dec 2 (tm_mon d) @ ''-'' @ pad_dec 2 (tm_mday d)
        @ '' '' @ pad_dec 2 (tm_hour d) @ '':'' @ pad_dec 2 (tm_min d) @ '':'' @ pad_dec 2 (tm_sec d))"

subsection \<open>Pricing\<close>

lemma compute_fee_eq:
  assumes "0 < d" "in_i32 d"
  shows "compute_fee d = Inr (100 + 50 * ((d - 1) div 900))"
proof (cases "d \<le> 900")
  case True
  then show ?thesis using assms by (simp add: compute_fee_def)
next
  case False
  have q: "0 \<le> (d - 1) div 900" "900 * ((d - 1) div 900) \<le> d - 1"
    using assms by (simp_all add: pos_imp_zdiv_nonneg_iff)
  then show ?thesis
    using False assms
    by (simp add: compute_fee_def Let_def checked_i32_def i32_defs c_div_nonneg)
qed

lemma compute_fee_ok:
  assumes "0 \<le> d" "in_i32 d"
  obtains f where "compute_fee d = Inr f" "100 \<le> f" "in_i32 f"
proof (cases "d = 0")
  case True
  then show thesis using that by (simp add: compute_fee_def i32_defs)
next
  case False
  have "0 \<le> (d - 1) div 900" "900 * ((d - 1) div 900) \<le> d - 1"
    using False assms by (simp_all add: pos_imp_zdiv_nonneg_iff)
  then show thesis using that compute_fee_eq [of d] False assms by (simp add: i32_defs)
qed

text \<open>
  For every duration an \<open>int\<close> can hold, the fee is computed without overflow
  and is 1.00 for the first quarter of an hour and 0.50 for every further quarter begun.
\<close>

theorem compute_fee_quarters:
  assumes "0 \<le> d" "in_i32 d"
  shows "\<exists>k. compute_fee d = Inr (100 + 50 * int k) \<and> d \<le> 900 * (int k + 1) \<and>
    (\<forall>j. d \<le> 900 * (int j + 1) \<longrightarrow> k \<le> j)"
proof (cases "d = 0")
  case True
  then show ?thesis by (intro exI [of _ 0]) (simp add: compute_fee_def)
next
  case False
  define q where "q = (d - 1) div 900"
  have q: "d - 1 = 900 * q + (d - 1) mod 900" "0 \<le> (d - 1) mod 900" "(d - 1) mod 900 < 900"
    unfolding q_def by simp_all
  have "0 \<le> q" unfolding q_def using False assms by (simp add: pos_imp_zdiv_nonneg_iff)
  then show ?thesis
    using q compute_fee_eq [of d] False assms by (intro exI [of _ "nat q"]) (auto simp: q_def [symmetric])
qed

theorem compute_fee_quarters_witness: "compute_fee 901 = Inr 150 \<and> compute_fee 1800 = Inr 150"
proof -
  have "\<exists>k. compute_fee 901 = Inr (100 + 50 * int k)" "\<exists>k. compute_fee 1800 = Inr (100 + 50 * int k)"
    using compute_fee_quarters [of 901] compute_fee_quarters [of 1800] by (auto simp: i32_defs)
  then show ?thesis by (auto simp: compute_fee_def checked_i32_def i32_defs c_div_def)
qed

subsection \<open>Decimal text\<close>

definition dec_val :: "string \<Rightarrow> nat" where
  "dec_val = foldl (\<lambda>v c. 10 * v + (of_char c - 48)) 0"

lemma digit_val [simp]: "d < 10 \<Longrightarrow> of_char (digit_char d) - 48 = d"
  by (simp add: digit_char_def)

lemma dec_val_snoc [simp]: "dec_val (s @ [c]) = 10 * dec_val s + (of_char c - 48)"
  by (simp add: dec_val_def)

lemma dec_val_digits [simp]: "dec_val (dec_digits n) = n"
proof (induction n rule: dec_digits.induct)
  case (1 n)
  show ?case
  proof (cases "n < 10")
    case True
    then have "dec_val ([] @ [digit_char n]) = n" by (simp only: dec_val_snoc) (simp add: dec_val_def)
    then show ?thesis using True by (subst dec_digits.simps) simp
  next
    case False
    then show ?thesis using 1 by (subst dec_digits.simps) simp
  qed
qed

lemma dec_val_zeros [simp]: "dec_val (replicate k CHR ''0'' @ s) = dec_val s"
proof -
  have "foldl (\<lambda>v c. 10 * v + (of_char c - 48)) 0 (replicate k CHR ''0'') = (0 :: nat)"
    by (induction k) simp_all
  then show ?thesis by (simp add: dec_val_def)
qed

lemma length_dec_digits: "0 < w \<Longrightarrow> n < 10 ^ w \<Longrightarrow> length (dec_digits n) \<le> w"
proof (induction w arbitrary: n)
  case (Suc w)
  show ?case
  proof (cases "n < 10")
    case False
    then have "w \<noteq> 0" using Suc.prems by (cases w) simp_all
    moreover have "n div 10 < 10 ^ w" using Suc.prems by (intro less_mult_imp_div_less) (simp add: mult.commute)
    ultimately have "length (dec_digits (n div 10)) \<le> w" using Suc.IH by simp
    then show ?thesis using False by (subst dec_digits.simps) simp
  qed (subst dec_digits.simps, simp)
qed simp

lemma pad_dec_ok:
  assumes "0 < w" "0 \<le> i" "i < 10 ^ w"
  shows "length (pad_dec w i) = w" "dec_val (pad_dec w i) = nat i"
proof -
  have "length (dec_digits (nat i)) \<le> w"
    using assms by (intro length_dec_digits) (simp_all add: nat_less_iff)
  then show "length (pad_dec w i) = w" using assms(2) by (simp add: pad_dec_def)
  show "dec_val (pad_dec w i) = nat i" using assms(2) by (simp add: pad_dec_def)
qed

text \<open>
  Ride numbers identify day and sequence number. Within the accepted range
  every number has 15 characters and two numbers are equal only for the same day and the
  same sequence number.
\<close>

theorem make_ride_no_inj:
  assumes "0 \<le> d" "d \<le> 99999999" "0 \<le> d'" "d' \<le> 99999999"
    and "make_ride_no d s = Inr no" "make_ride_no d' s' = Inr no'"
  shows "length no = 15 \<and> (no = no' \<longleftrightarrow> d = d' \<and> s = s')"
proof -
  have s: "1 \<le> s" "s \<le> 999999" "1 \<le> s'" "s' \<le> 999999"
    using assms(5,6) by (auto simp: make_ride_no_def split: if_splits)
  note a = pad_dec_ok [of 8 d] and b = pad_dec_ok [of 8 d']
    and c = pad_dec_ok [of 6 s] and e = pad_dec_ok [of 6 s']
  have no: "no = CHR ''R'' # pad_dec 8 d @ pad_dec 6 s" "no' = CHR ''R'' # pad_dec 8 d' @ pad_dec 6 s'"
    using assms a c b e s by (auto simp: make_ride_no_def)
  have "pad_dec 8 d = pad_dec 8 d' \<and> pad_dec 6 s = pad_dec 6 s'" if "no = no'"
    using that a b assms unfolding no by simp
  then show ?thesis using a b c e assms s no by (auto dest!: arg_cong [of _ _ dec_val])
qed

theorem make_ride_no_inj_witness:
  "make_ride_no 20260115 7 = Inr ''R20260115000007'' \<and> ''R20260115000007'' \<noteq> ''R20260115000008''"
proof -
  have "make_ride_no 20260115 7 = Inr ''R20260115000007''" "make_ride_no 20260115 8 = Inr ''R20260115000008''"
    by code_simp+
  then show ?thesis
    using make_ride_no_inj [of 20260115 20260115 7 "''R20260115000007''" 8 "''R20260115000008''"] by simp
qed

subsection \<open>Calendar\<close>

lemma split_year_bounds:
  assumes "split_year y n = (y', d)" "0 \<le> n"
  shows "0 \<le> d \<and> d < days_in_year y' \<and> y \<le> y' \<and> 365 * (y' - y) \<le> n"
  using assms
proof (induction y n rule: split_year.induct)
  case (1 y n)
  show ?case
  proof (cases "n < days_in_year y")
    case True
    then show ?thesis using "1.prems" by (subst (asm) split_year.simps) simp
  next
    case False
    have "split_year (y + 1) (n - days_in_year y) = (y', d)"
      using False "1.prems" by (subst (asm) split_year.simps) simp
    then have "0 \<le> d \<and> d < days_in_year y' \<and> y + 1 \<le> y' \<and> 365 * (y' - (y + 1)) \<le> n - days_in_year y"
      using "1.IH"(2) False "1.prems" by simp
    then show ?thesis by (simp add: days_in_year_def split: if_splits)
  qed
qed

lemma split_month_bounds:
  assumes "split_month ls m n = (m', d)" "0 \<le> n" "n < sum_list ls" "\<forall>l\<in>set ls. 0 < l \<and> l \<le> 31"
  shows "m \<le> m' \<and> m' < m + int (length ls) \<and> 0 \<le> d \<and> d < 31"
  using assms by (induction ls m n rule: split_month.induct) (auto split: if_splits)

lemma gmtime_bounds:
  assumes "0 \<le> t"
  shows "1 \<le> tm_mon (gmtime t) \<and> tm_mon (gmtime t) \<le> 12 \<and> 1 \<le> tm_mday (gmtime t) \<and>
    tm_mday (gmtime t) \<le> 31 \<and> 1970 \<le> tm_year (gmtime t) \<and>
    365 * (tm_year (gmtime t) - 1970) \<le> t div 86400"
proof -
  obtain y yd where y: "split_year 1970 (t div 86400) = (y, yd)" by fastforce
  obtain m d where m: "split_month (month_lengths y) 1 yd = (m, d)" by fastforce
  have a: "0 \<le> yd \<and> yd < days_in_year y \<and> 1970 \<le> y \<and> 365 * (y - 1970) \<le> t div 86400"
    using split_year_bounds [OF y] assms by simp
  have "1 \<le> m \<and> m < 1 + int (length (month_lengths y)) \<and> 0 \<le> d \<and> d < 31"
    by (rule split_month_bounds [OF m]) (use a in \<open>auto simp: month_lengths_def days_in_year_def\<close>)
  then show ?thesis using a y m by (simp add: gmtime_def Let_def month_lengths_def)
qed

lemma today_bounds:
  assumes "0 \<le> t" "t < 2 ^ 37"
  shows "0 \<le> today_yyyymmdd t" "today_yyyymmdd t \<le> 99999999"
proof -
  have "t div 86400 \<le> 2 ^ 37 div 86400" using assms by (intro zdiv_mono1) simp_all
  then have "tm_year (gmtime t) \<le> 9998" using gmtime_bounds [OF assms(1)] by simp
  then show "0 \<le> today_yyyymmdd t" "today_yyyymmdd t \<le> 99999999"
    using gmtime_bounds [OF assms(1)] by (simp_all add: today_yyyymmdd_def Let_def)
qed

subsection \<open>Distances\<close>

lemma atan2_quadrant:
  assumes "0 \<le> y" "0 \<le> x"
  shows "0 \<le> atan2 y x \<and> atan2 y x \<le> pi / 2"
  using assms arctan_lbound [of "y / x"] arctan_ubound [of "y / x"]
  by (auto simp: atan2_def zero_le_arctan_iff intro: less_imp_le)

lemma cos_angle_bound: "\<bar>sin a * sin b + cos a * cos b * t\<bar> \<le> 1" if "\<bar>t\<bar> \<le> 1" for a b t :: real
proof -
  have amgm: "x * y \<le> (x\<^sup>2 + y\<^sup>2) / 2" for x y :: real
    using sum_squares_bound [of x y] by simp
  have "\<bar>sin a * sin b + cos a * cos b * t\<bar> \<le> \<bar>sin a * sin b\<bar> + \<bar>cos a * cos b\<bar> * \<bar>t\<bar>"
    by (metis abs_mult abs_triangle_ineq)
  also have "\<dots> \<le> \<bar>sin a * sin b\<bar> + \<bar>cos a * cos b\<bar>"
    using that by (simp add: mult_left_le)
  also have "\<dots> \<le> ((sin a)\<^sup>2 + (sin b)\<^sup>2) / 2 + ((cos a)\<^sup>2 + (cos b)\<^sup>2) / 2"
    using amgm [of "\<bar>sin a\<bar>" "\<bar>sin b\<bar>"] amgm [of "\<bar>cos a\<bar>" "\<bar>cos b\<bar>"]
    unfolding abs_mult power2_abs by (rule add_mono)
  also have "\<dots> = 1" unfolding sin_squared_eq by (simp flip: add_divide_distrib)
  finally show ?thesis .
qed

lemma haversine_arg:
  fixes la1 la2 dlo :: real
  defines "a \<equiv> sin ((la2 - la1) / 2) * sin ((la2 - la1) / 2) + cos la1 * cos la2 * sin (dlo / 2) * sin (dlo / 2)"
  shows "0 \<le> a \<and> a \<le> 1"
proof -
  have half: "sin (x / 2) * sin (x / 2) = (1 - cos x) / 2" for x :: real
    using cos_double_sin [of "x / 2"] by (simp add: power2_eq_square)
  have "a = (1 - (sin la1 * sin la2 + cos la1 * cos la2 * cos dlo)) / 2"
    unfolding a_def mult.assoc [of "cos la1 * cos la2"] half cos_diff by (simp add: field_simps)
  then show ?thesis using cos_angle_bound [of "cos dlo" la1 la2] by (simp add: abs_le_iff)
qed

lemma to_rad_Num [simp]: "to_rad (Num x) = Num (x * kPi / 180)"
  by (simp add: to_rad_def)

lemma dsub_Num [simp]: "dsub (Num x) (Num y) = Num (x - y)"
  by (simp add: dsub_def)

lemma haversine_Num:
  "\<exists>d. haversine_m (Num x1) (Num y1) (Num x2) (Num y2) = Num d \<and> 0 \<le> d \<and> d \<le> kEarthRadiusM * pi"
proof -
  let ?la1 = "x1 * kPi / 180" and ?la2 = "x2 * kPi / 180" and ?dlo = "(y2 - y1) * kPi / 180"
  define a where "a = sin ((?la2 - ?la1) / 2) * sin ((?la2 - ?la1) / 2) +
    cos ?la1 * cos ?la2 * sin (?dlo / 2) * sin (?dlo / 2)"
  have a: "0 \<le> a \<and> a \<le> 1" unfolding a_def by (rule haversine_arg)
  have d: "(x2 - x1) * kPi / 180 = ?la2 - ?la1" by (simp add: field_simps)
  have "haversine_m (Num x1) (Num y1) (Num x2) (Num y2)
      = Num (kEarthRadiusM * (2 * atan2 (sqrt a) (sqrt (1 - a))))"
    using a by (simp add: haversine_m_def Let_def d a_def [symmetric] del: divide_divide_eq_left)
  moreover have "0 \<le> atan2 (sqrt a) (sqrt (1 - a)) \<and> atan2 (sqrt a) (sqrt (1 - a)) \<le> pi / 2"
    using a by (intro atan2_quadrant) simp_all
  ultimately show ?thesis by (simp add: kEarthRadiusM_def)
qed

lemma haversine_sym:
  "haversine_m (Num x1) (Num y1) (Num x2) (Num y2) = haversine_m (Num x2) (Num y2) (Num x1) (Num y1)"
proof -
  have neg: "(u - v) * kPi / 360 = - ((v - u) * kPi / 360)" for u v by (simp add: field_simps)
  show ?thesis
    unfolding haversine_m_def Let_def dsub_Num to_rad_Num
    by (simp add: neg [of x2 x1] neg [of y2 y1] mult.commute [of "cos (x1 * kPi / 180)"])
qed

lemma haversine_refl: "haversine_m (Num x) (Num y) (Num x) (Num y) = Num 0"
  by (simp add: haversine_m_def Let_def atan2_def)

text \<open>
  Between points with finite coordinates the distance is a number between 0 and
  half the circumference of the earth, it is symmetric, and 0 from a point to itself.
\<close>

theorem haversine_metric:
  "(\<exists>d. haversine_m (Num x1) (Num y1) (Num x2) (Num y2) = Num d \<and> 0 \<le> d \<and> d \<le> kEarthRadiusM * pi) \<and>
   haversine_m (Num x1) (Num y1) (Num x2) (Num y2) = haversine_m (Num x2) (Num y2) (Num x1) (Num y1) \<and>
   haversine_m (Num x1) (Num y1) (Num x1) (Num y1) = Num 0"
  using haversine_Num haversine_sym haversine_refl by blast

end
