(* ===== verification/RideSession.thy ===== *)
theory RideSession
  imports Common
begin

text \<open>
  The store of rides in progress (server/include/server/ride_session_store.hpp). Its lock
  makes every operation one step. The points reported during a ride are deduplicated by
  sequence number and capped; the lemmas relate them to the whole history of reports.
\<close>

record RidePoint =
  pt_seq :: int
  pt_lat :: dbl
  pt_lng :: dbl
  pt_elapsed_sec :: int

record RideSession =
  rs_ride_no :: string
  rs_user_id :: int
  rs_bike_id :: int
  rs_start_lat :: dbl
  rs_start_lng :: dbl
  rs_start_ts :: int
  rs_last_lat :: dbl
  rs_last_lng :: dbl
  rs_last_seq :: int
  rs_points :: "RidePoint list"

type_synonym RideSessionStore = "string \<rightharpoonup> RideSession"

definition session_create :: "RideSession \<Rightarrow> RideSessionStore \<Rightarrow> RideSessionStore" where
  "session_create s st = st(rs_ride_no s \<mapsto> s)"

definition session_find :: "string \<Rightarrow> RideSessionStore \<Rightarrow> RideSession option" where
  "session_find ride_no st = st ride_no"

definition kMaxPoints :: nat where "kMaxPoints = 3600"

definition update_pos ::
  "string \<Rightarrow> dbl \<Rightarrow> dbl \<Rightarrow> int \<Rightarrow> int \<Rightarrow> RideSessionStore \<Rightarrow> bool \<times> RideSessionStore" where
  "update_pos ride_no lat lng seq elapsed_sec st =
     (case st ride_no of
        None \<Rightarrow> (False, st)
      | Some s \<Rightarrow>
          if (rs_last_seq s \<noteq> 0 \<or> rs_points s \<noteq> []) \<and> seq \<le> rs_last_seq s then (True, st)
          else
            let pts = rs_points s @ [\<lparr>pt_seq = seq, pt_lat = lat, pt_lng = lng,
                                      pt_elapsed_sec = elapsed_sec\<rparr>];
                pts' = (if length pts > kMaxPoints then tl pts else pts)
            in (True, st(ride_no \<mapsto> s\<lparr>rs_last_lat := lat, rs_last_lng := lng, rs_last_seq := seq,
                                       rs_points := pts'\<rparr>)))"

definition session_remove :: "string \<Rightarrow> RideSessionStore \<Rightarrow> bool \<times> RideSessionStore" where
  "session_remove ride_no st = (st ride_no \<noteq> None, st(ride_no := None))"

subsection \<open>Deduplication and capping\<close>

text \<open>A report is a point; a ride is a sequence of reports.\<close>

definition report :: "string \<Rightarrow> RidePoint \<Rightarrow> RideSessionStore \<Rightarrow> RideSessionStore" where
  "report no p st = snd (update_pos no (pt_lat p) (pt_lng p) (pt_seq p) (pt_elapsed_sec p) st)"

text \<open>The reference: the reports whose sequence number exceeds all earlier ones.\<close>

fun records_above :: "int \<Rightarrow> RidePoint list \<Rightarrow> RidePoint list" where
  "records_above m [] = []"
| "records_above m (p # ps) =
     (if pt_seq p > m then p # records_above (pt_seq p) ps else records_above m ps)"

fun new_records :: "RidePoint list \<Rightarrow> RidePoint list" where
  "new_records [] = []"
| "new_records (p # ps) = p # records_above (pt_seq p) ps"

definition last_n :: "nat \<Rightarrow> 'a list \<Rightarrow> 'a list" where
  "last_n n xs = drop (length xs - n) xs"

lemma last_n_snoc:
  assumes "0 < n"
  shows "last_n n (xs @ [x]) =
    (if length (last_n n xs @ [x]) > n then tl (last_n n xs @ [x]) else last_n n xs @ [x])"
  using assms by (auto simp: last_n_def drop_Suc tl_append2 drop_tl Suc_diff_le not_le)

lemma records_above_snoc:
  "records_above m (ps @ [p]) = records_above m ps @
     (if pt_seq p > (if records_above m ps = [] then m else pt_seq (last (records_above m ps)))
      then [p] else [])"
  by (induction ps arbitrary: m) auto

definition dedup_state :: "RideSession \<Rightarrow> RidePoint list \<Rightarrow> bool" where
  "dedup_state s ps \<longleftrightarrow> rs_points s = last_n kMaxPoints (new_records ps) \<and>
     rs_last_seq s = (if ps = [] then 0 else pt_seq (last (new_records ps)))"

lemma new_records_snoc:
  "ps \<noteq> [] \<Longrightarrow> new_records (ps @ [p]) = new_records ps @
     (if pt_seq p > pt_seq (last (new_records ps)) then [p] else [])"
  by (cases ps) (simp_all add: records_above_snoc)

lemma new_records_nonempty [simp]: "new_records ps = [] \<longleftrightarrow> ps = []"
  by (cases ps) simp_all

lemma last_n_nonempty [simp]: "0 < n \<Longrightarrow> last_n n xs = [] \<longleftrightarrow> xs = []"
  by (cases xs) (auto simp: last_n_def)

lemma report_other: "no' \<noteq> no \<Longrightarrow> report no p st no' = st no'"
  by (auto simp: report_def update_pos_def Let_def split: option.splits)

lemma report_dedup:
  assumes "st no = Some s" "dedup_state s ps"
  shows "\<exists>s'. report no p st no = Some s' \<and> dedup_state s' (ps @ [p]) \<and>
    rs_user_id s' = rs_user_id s \<and> rs_bike_id s' = rs_bike_id s \<and> rs_ride_no s' = rs_ride_no s"
proof -
  have k: "0 < kMaxPoints" by (simp add: kMaxPoints_def)
  have pts: "rs_points s = last_n kMaxPoints (new_records ps)"
    and seq: "rs_last_seq s = (if ps = [] then 0 else pt_seq (last (new_records ps)))"
    using assms(2) by (simp_all add: dedup_state_def)
  let ?skip = "(rs_last_seq s \<noteq> 0 \<or> rs_points s \<noteq> []) \<and> pt_seq p \<le> rs_last_seq s"
  show ?thesis
  proof (cases ?skip)
    case True
    then have "ps \<noteq> []" using pts seq k by (auto simp: last_n_def)
    then have "new_records (ps @ [p]) = new_records ps"
      using True seq by (simp add: new_records_snoc)
    then show ?thesis using True assms seq \<open>ps \<noteq> []\<close>
      by (simp add: report_def update_pos_def dedup_state_def)
  next
    case False
    have nr: "new_records (ps @ [p]) = new_records ps @ [p]"
    proof (cases "ps = []")
      case ne: False
      then have "pt_seq p > pt_seq (last (new_records ps))" using False pts seq k by auto
      then show ?thesis using ne by (simp add: new_records_snoc)
    qed simp
    have eta: "\<lparr>pt_seq = pt_seq p, pt_lat = pt_lat p, pt_lng = pt_lng p, pt_elapsed_sec = pt_elapsed_sec p\<rparr> = p"
      by simp
    have "report no p st no = Some (s\<lparr>rs_last_lat := pt_lat p, rs_last_lng := pt_lng p, rs_last_seq := pt_seq p,
        rs_points := last_n kMaxPoints (new_records ps @ [p])\<rparr>)"
      using False assms(1)
      unfolding report_def update_pos_def eta Let_def last_n_snoc [OF k] pts [symmetric] by auto
    then show ?thesis by (simp add: dedup_state_def nr)
  qed
qed

text \<open>
  Property C26: whatever reports arrive for a ride, duplicated, reordered or in any number,
  the session holds the most recent 3600 of those whose sequence number was higher than
  all before, in order; the ride's user and bike never change, and no other ride is touched.
\<close>

theorem reports_deduplicated:
  assumes "st no = Some s" "rs_points s = []" "rs_last_seq s = 0"
  shows "(\<exists>s'. fold (report no) ps st no = Some s' \<and>
      rs_points s' = last_n kMaxPoints (new_records ps) \<and>
      rs_user_id s' = rs_user_id s \<and> rs_bike_id s' = rs_bike_id s) \<and>
    (\<forall>no'. no' \<noteq> no \<longrightarrow> fold (report no) ps st no' = st no')"
proof -
  have "(\<exists>s'. fold (report no) ps st no = Some s' \<and> dedup_state s' ps \<and>
      rs_user_id s' = rs_user_id s \<and> rs_bike_id s' = rs_bike_id s) \<and>
    (\<forall>no'. no' \<noteq> no \<longrightarrow> fold (report no) ps st no' = st no')"
  proof (induction ps rule: rev_induct)
    case Nil
    then show ?case using assms by (simp add: dedup_state_def last_n_def)
  next
    case (snoc p ps)
    then obtain s' where s': "fold (report no) ps st no = Some s'" "dedup_state s' ps"
      "rs_user_id s' = rs_user_id s" "rs_bike_id s' = rs_bike_id s" by blast
    from report_dedup [of "fold (report no) ps st" no s' ps p, OF s'(1,2)] show ?case
      using snoc s' by (auto simp: report_other)
  qed
  then show ?thesis by (auto simp: dedup_state_def)
qed

definition demo_session :: RideSession where
  "demo_session = \<lparr>rs_ride_no = ''R1'', rs_user_id = 7, rs_bike_id = 3, rs_start_lat = Num 0,
     rs_start_lng = Num 0, rs_start_ts = 0, rs_last_lat = Num 0, rs_last_lng = Num 0,
     rs_last_seq = 0, rs_points = []\<rparr>"

definition demo_point :: "int \<Rightarrow> RidePoint" where
  "demo_point n = \<lparr>pt_seq = n, pt_lat = Num 1, pt_lng = Num 2, pt_elapsed_sec = n\<rparr>"

theorem reports_deduplicated_witness:
  "map_option rs_points (fold (report ''R1'') (map demo_point [1, 2, 2, 1, 3]) [''R1'' \<mapsto> demo_session] ''R1'')
    = Some (map demo_point [1, 2, 3])"
  using reports_deduplicated [of "[''R1'' \<mapsto> demo_session]" "''R1''" demo_session "map demo_point [1, 2, 2, 1, 3]"]
  by (auto simp: demo_session_def demo_point_def last_n_def kMaxPoints_def)

end
