(* ===== verification/Repos.thy ===== *)
theory Repos
  imports RideSession "HOL-Library.RBT" "HOL-Library.List_Lexorder" "HOL-Library.Char_ord"
begin

text \<open>
  The data of the business logic and the interfaces through which the handlers reach it
  (server/include/server/repo/*.hpp and the context of router.hpp), with the in-memory
  implementation of in_memory.hpp. A \<open>std::map\<close> is a red-black tree of HOL-Library, whose
  entries are in the order of the keys. Operations may throw, so an operation is a function
  from the state to a result or an exception, and a new state.
\<close>

subsection \<open>Effects\<close>

type_synonym ('s, 'a) eff = "'s \<Rightarrow> 'a res \<times> 's"

definition ret :: "'a \<Rightarrow> ('s, 'a) eff" where
  "ret x = (\<lambda>s. (Inr x, s))"

definition bind_eff :: "('s, 'a) eff \<Rightarrow> ('a \<Rightarrow> ('s, 'b) eff) \<Rightarrow> ('s, 'b) eff" where
  "bind_eff m f = (\<lambda>s. case m s of (Inl e, s1) \<Rightarrow> (Inl e, s1) | (Inr x, s1) \<Rightarrow> f x s1)"

definition lift_res :: "'a res \<Rightarrow> ('s, 'a) eff" where
  "lift_res r = (\<lambda>s. (r, s))"

lemma ret_apply [simp]: "ret x s = (Inr x, s)"
  by (simp add: ret_def)

lemma lift_res_apply [simp]: "lift_res r s = (r, s)"
  by (simp add: lift_res_def)

lemma bind_eff_Inr [simp]: "m s = (Inr x, s1) \<Longrightarrow> bind_eff m f s = f x s1"
  by (simp add: bind_eff_def)

lemma bind_eff_Inl [simp]: "m s = (Inl e, s1) \<Longrightarrow> bind_eff m f s = (Inl e, s1)"
  by (simp add: bind_eff_def)

subsection \<open>Data\<close>

record User =
  u_id :: int
  u_mobile :: string

datatype RecordType = Recharge | Consume

fun record_type :: "RecordType \<Rightarrow> int" where
  "record_type Recharge = 1"
| "record_type Consume = 2"

record AccountRecord =
  ar_type :: int
  ar_amount :: int
  ar_balance_after :: int
  ar_timestamp :: int

datatype BikeStatus = Idle | Rented | Damaged

fun bike_status :: "BikeStatus \<Rightarrow> int" where
  "bike_status Idle = 0"
| "bike_status Rented = 1"
| "bike_status Damaged = 2"

record Bike =
  bk_id :: int
  bk_no :: string
  bk_lat :: dbl
  bk_lng :: dbl
  bk_status :: BikeStatus

record CreateRideInput =
  in_ride_no :: string
  in_user_id :: int
  in_bike_id :: int
  in_start_ts :: int
  in_end_ts :: int
  in_start_lat :: dbl
  in_start_lng :: dbl
  in_end_lat :: dbl
  in_end_lng :: dbl
  in_duration_sec :: int
  in_distance_m :: int
  in_amount_cent :: int
  in_points :: "RidePoint list"

record Ride =
  rd_id :: int
  rd_ride_no :: string
  rd_user_id :: int
  rd_bike_id :: int
  rd_start_ts :: int
  rd_end_ts :: int
  rd_start_lat :: dbl
  rd_start_lng :: dbl
  rd_end_lat :: dbl
  rd_end_lng :: dbl
  rd_duration_sec :: int
  rd_distance_m :: int
  rd_amount_cent :: int
  rd_status :: int

definition ride0 :: Ride where
  "ride0 = \<lparr>rd_id = 0, rd_ride_no = [], rd_user_id = 0, rd_bike_id = 0, rd_start_ts = 0, rd_end_ts = 0,
     rd_start_lat = Num 0, rd_start_lng = Num 0, rd_end_lat = Num 0, rd_end_lng = Num 0,
     rd_duration_sec = 0, rd_distance_m = 0, rd_amount_cent = 0, rd_status = 0\<rparr>"

subsection \<open>The interfaces\<close>

text \<open>The context of a handler: the operations of the repositories it is given.\<close>

record 's Ctx =
  find_by_mobile :: "string \<Rightarrow> ('s, User option) eff"
  find_or_create :: "string \<Rightarrow> ('s, User) eff"
  get_balance :: "int \<Rightarrow> ('s, int) eff"
  add_balance :: "int \<Rightarrow> RecordType \<Rightarrow> int \<Rightarrow> ('s, int) eff"
  list_records_of :: "int \<Rightarrow> int \<Rightarrow> ('s, AccountRecord list) eff"
  set_code :: "string \<Rightarrow> ('s, int) eff"
  get_code :: "string \<Rightarrow> ('s, int option) eff"
  delete_code :: "string \<Rightarrow> ('s, unit) eff"
  create_session :: "string \<Rightarrow> ('s, string) eff"
  lookup_session :: "string \<Rightarrow> ('s, string option) eff"
  destroy_session :: "string \<Rightarrow> ('s, unit) eff"
  get_for_update :: "string \<Rightarrow> ('s, Bike option) eff"
  update_status :: "int \<Rightarrow> BikeStatus \<Rightarrow> ('s, bool) eff"
  update_location :: "int \<Rightarrow> dbl \<Rightarrow> dbl \<Rightarrow> ('s, bool) eff"
  list_in_bounds :: "dbl \<Rightarrow> dbl \<Rightarrow> dbl \<Rightarrow> dbl \<Rightarrow> ('s, Bike list) eff"
  insert_bike :: "Bike \<Rightarrow> ('s, Bike option) eff"
  create_with_points :: "CreateRideInput \<Rightarrow> ('s, Ride) eff"
  find_by_no :: "string \<Rightarrow> ('s, Ride option) eff"
  list_points :: "int \<Rightarrow> ('s, RidePoint list) eff"
  list_by_user :: "int \<Rightarrow> int \<Rightarrow> ('s, Ride list) eff"
  rs_create :: "RideSession \<Rightarrow> ('s, unit) eff"
  rs_find :: "string \<Rightarrow> ('s, RideSession option) eff"
  rs_update_pos :: "string \<Rightarrow> dbl \<Rightarrow> dbl \<Rightarrow> int \<Rightarrow> int \<Rightarrow> ('s, bool) eff"
  rs_remove :: "string \<Rightarrow> ('s, bool) eff"

subsection \<open>In-memory users\<close>

record UserRepo =
  by_mobile :: "(string, User) rbt"
  next_user_id :: int

definition mem_find_by_mobile :: "string \<Rightarrow> UserRepo \<Rightarrow> User option" where
  "mem_find_by_mobile m r = RBT.lookup (by_mobile r) m"

definition mem_find_or_create :: "string \<Rightarrow> UserRepo \<Rightarrow> User \<times> UserRepo" where
  "mem_find_or_create m r =
     (case RBT.lookup (by_mobile r) m of
        Some u \<Rightarrow> (u, r)
      | None \<Rightarrow>
          let u = \<lparr>u_id = next_user_id r, u_mobile = m\<rparr> in
          (u, r\<lparr>by_mobile := RBT.insert m u (by_mobile r), next_user_id := next_user_id r + 1\<rparr>))"

subsection \<open>In-memory accounts\<close>

record AccountRepo =
  bal :: "(int, int) rbt"
  recs :: "(int, AccountRecord list) rbt"

definition mem_get_balance :: "int \<Rightarrow> AccountRepo \<Rightarrow> int" where
  "mem_get_balance uid r = (case RBT.lookup (bal r) uid of None \<Rightarrow> 0 | Some b \<Rightarrow> b)"

text \<open>The sum is of type \<open>int\<close>; its overflow is undefined. \<open>now\<close> is the time of the record.\<close>

definition mem_add_balance :: "int \<Rightarrow> int \<Rightarrow> RecordType \<Rightarrow> int \<Rightarrow> AccountRepo \<Rightarrow> int res \<times> AccountRepo" where
  "mem_add_balance now uid type amount r =
     (let cur = (case RBT.lookup (bal r) uid of None \<Rightarrow> 0 | Some b \<Rightarrow> b) in
      case checked_i32 (cur + amount) of
        Inl e \<Rightarrow> (Inl e, r)
      | Inr b \<Rightarrow>
          if amount < 0 \<and> b < 0 then (Inr (- 1), r)
          else
            let old = (case RBT.lookup (recs r) uid of None \<Rightarrow> [] | Some v \<Rightarrow> v);
                rec = \<lparr>ar_type = record_type type, ar_amount = amount, ar_balance_after = b,
                       ar_timestamp = now\<rparr>
            in (Inr b, r\<lparr>bal := RBT.insert uid b (bal r), recs := RBT.insert uid (old @ [rec]) (recs r)\<rparr>))"

definition mem_list_records :: "int \<Rightarrow> int \<Rightarrow> AccountRepo \<Rightarrow> AccountRecord list" where
  "mem_list_records uid limit r =
     (case RBT.lookup (recs r) uid of
        None \<Rightarrow> []
      | Some v \<Rightarrow> take (min (nat limit) (length v)) (rev v))"

subsection \<open>In-memory sessions\<close>

record SessionRepo =
  codes :: "(string, int \<times> int) rbt"
  tokens :: "(string, string \<times> int) rbt"

text \<open>\<open>now\<close> is the steady clock in seconds; \<open>rnd\<close> are draws of the random generator.\<close>

definition mem_set_code :: "int \<Rightarrow> nat \<Rightarrow> string \<Rightarrow> SessionRepo \<Rightarrow> int \<times> SessionRepo" where
  "mem_set_code now rnd m r =
     (let c = 100000 + int (rnd mod 900000) in
      (c, r\<lparr>codes := RBT.insert m (c, now + 300) (codes r)\<rparr>))"

definition mem_get_code :: "int \<Rightarrow> string \<Rightarrow> SessionRepo \<Rightarrow> int option \<times> SessionRepo" where
  "mem_get_code now m r =
     (case RBT.lookup (codes r) m of
        None \<Rightarrow> (None, r)
      | Some (c, expiry) \<Rightarrow>
          if now > expiry then (None, r\<lparr>codes := RBT.delete m (codes r)\<rparr>) else (Some c, r))"

definition mem_delete_code :: "string \<Rightarrow> SessionRepo \<Rightarrow> SessionRepo" where
  "mem_delete_code m r = r\<lparr>codes := RBT.delete m (codes r)\<rparr>"

fun hex_digits :: "nat \<Rightarrow> string" where
  "hex_digits n = (if n < 16 then [''0123456789abcdef'' ! n] else hex_digits (n div 16) @ [''0123456789abcdef'' ! (n mod 16)])"

declare hex_digits.simps [simp del]

definition mem_create_session :: "int \<Rightarrow> nat \<Rightarrow> nat \<Rightarrow> string \<Rightarrow> SessionRepo \<Rightarrow> string \<times> SessionRepo" where
  "mem_create_session now rnd1 rnd2 m r =
     (let token = hex_digits rnd1 @ hex_digits rnd2 in
      (token, r\<lparr>tokens := RBT.insert token (m, now + 7 * 24 * 3600) (tokens r)\<rparr>))"

definition mem_lookup_session :: "int \<Rightarrow> string \<Rightarrow> SessionRepo \<Rightarrow> string option \<times> SessionRepo" where
  "mem_lookup_session now t r =
     (case RBT.lookup (tokens r) t of
        None \<Rightarrow> (None, r)
      | Some (m, expiry) \<Rightarrow>
          if now > expiry then (None, r\<lparr>tokens := RBT.delete t (tokens r)\<rparr>) else (Some m, r))"

definition mem_destroy_session :: "string \<Rightarrow> SessionRepo \<Rightarrow> SessionRepo" where
  "mem_destroy_session t r = r\<lparr>tokens := RBT.delete t (tokens r)\<rparr>"

subsection \<open>In-memory bikes\<close>

record BikeRepo =
  bikes :: "(string, Bike) rbt"
  next_bike_id :: int

definition mem_get_for_update :: "string \<Rightarrow> BikeRepo \<Rightarrow> Bike option" where
  "mem_get_for_update no r = RBT.lookup (bikes r) no"

text \<open>The loops over the map stop at the first bike with the id.\<close>

definition mem_update_first :: "int \<Rightarrow> (Bike \<Rightarrow> Bike) \<Rightarrow> BikeRepo \<Rightarrow> bool \<times> BikeRepo" where
  "mem_update_first bid f r =
     (case List.find (\<lambda>(no, b). bk_id b = bid) (RBT.entries (bikes r)) of
        None \<Rightarrow> (False, r)
      | Some (no, b) \<Rightarrow> (True, r\<lparr>bikes := RBT.insert no (f b) (bikes r)\<rparr>))"

definition mem_update_status :: "int \<Rightarrow> BikeStatus \<Rightarrow> BikeRepo \<Rightarrow> bool \<times> BikeRepo" where
  "mem_update_status bid st r = mem_update_first bid (\<lambda>b. b\<lparr>bk_status := st\<rparr>) r"

definition mem_update_location :: "int \<Rightarrow> dbl \<Rightarrow> dbl \<Rightarrow> BikeRepo \<Rightarrow> bool \<times> BikeRepo" where
  "mem_update_location bid lat lng r = mem_update_first bid (\<lambda>b. b\<lparr>bk_lat := lat, bk_lng := lng\<rparr>) r"

definition mem_list_in_bounds :: "dbl \<Rightarrow> dbl \<Rightarrow> dbl \<Rightarrow> dbl \<Rightarrow> BikeRepo \<Rightarrow> Bike list" where
  "mem_list_in_bounds la_min la_max lo_min lo_max r =
     filter (\<lambda>b. dle la_min (bk_lat b) \<and> dle (bk_lat b) la_max \<and>
                 dle lo_min (bk_lng b) \<and> dle (bk_lng b) lo_max) (map snd (RBT.entries (bikes r)))"

definition mem_seed_bike :: "Bike \<Rightarrow> BikeRepo \<Rightarrow> BikeRepo" where
  "mem_seed_bike b r = r\<lparr>bikes := RBT.insert (bk_no b) b (bikes r)\<rparr>"

definition mem_insert_bike :: "Bike \<Rightarrow> BikeRepo \<Rightarrow> Bike option \<times> BikeRepo" where
  "mem_insert_bike b r =
     (if RBT.lookup (bikes r) (bk_no b) \<noteq> None then (None, r)
      else
        let nb = b\<lparr>bk_id := next_bike_id r\<rparr> in
        (Some nb, r\<lparr>next_bike_id := next_bike_id r + 1, bikes := RBT.insert (bk_no nb) nb (bikes r)\<rparr>))"

subsection \<open>In-memory rides\<close>

record RideRepo =
  rides :: "(int, Ride) rbt"
  points :: "(int, RidePoint list) rbt"
  by_no :: "(string, int) rbt"
  next_ride_id :: int

definition ride_of_input :: "int \<Rightarrow> CreateRideInput \<Rightarrow> Ride" where
  "ride_of_input rid i =
     \<lparr>rd_id = rid, rd_ride_no = in_ride_no i, rd_user_id = in_user_id i, rd_bike_id = in_bike_id i,
      rd_start_ts = in_start_ts i, rd_end_ts = in_end_ts i, rd_start_lat = in_start_lat i,
      rd_start_lng = in_start_lng i, rd_end_lat = in_end_lat i, rd_end_lng = in_end_lng i,
      rd_duration_sec = in_duration_sec i, rd_distance_m = in_distance_m i,
      rd_amount_cent = in_amount_cent i, rd_status = 0\<rparr>"

definition mem_create_with_points :: "CreateRideInput \<Rightarrow> RideRepo \<Rightarrow> Ride \<times> RideRepo" where
  "mem_create_with_points i r =
     (let rid = next_ride_id r; rd = ride_of_input rid i in
      (rd, r\<lparr>next_ride_id := next_ride_id r + 1, rides := RBT.insert rid rd (rides r),
             points := RBT.insert rid (in_points i) (points r),
             by_no := RBT.insert (rd_ride_no rd) rid (by_no r)\<rparr>))"

text \<open>\<open>rides_[...]\<close> creates a default ride when the id is missing.\<close>

definition mem_find_by_no :: "string \<Rightarrow> RideRepo \<Rightarrow> Ride option \<times> RideRepo" where
  "mem_find_by_no no r =
     (case RBT.lookup (by_no r) no of
        None \<Rightarrow> (None, r)
      | Some rid \<Rightarrow>
          (case RBT.lookup (rides r) rid of
             Some rd \<Rightarrow> (Some rd, r)
           | None \<Rightarrow> (Some ride0, r\<lparr>rides := RBT.insert rid ride0 (rides r)\<rparr>)))"

definition mem_list_points :: "int \<Rightarrow> RideRepo \<Rightarrow> RidePoint list" where
  "mem_list_points rid r = (case RBT.lookup (points r) rid of None \<Rightarrow> [] | Some ps \<Rightarrow> ps)"

fun collect_rides :: "int \<Rightarrow> int \<Rightarrow> Ride list \<Rightarrow> Ride list \<Rightarrow> Ride list" where
  "collect_rides uid limit out [] = out"
| "collect_rides uid limit out (r # rs) =
     (let out' = (if rd_user_id r = uid then out @ [r] else out) in
      if int (length out') \<ge> limit then out' else collect_rides uid limit out' rs)"

definition mem_list_by_user :: "int \<Rightarrow> int \<Rightarrow> RideRepo \<Rightarrow> Ride list" where
  "mem_list_by_user uid limit r = collect_rides uid limit [] (map snd (RBT.entries (rides r)))"

subsection \<open>The in-memory context\<close>

text \<open>The clocks and the random generator the repositories read are part of the state.\<close>

record World =
  w_users :: UserRepo
  w_accounts :: AccountRepo
  w_sessions :: SessionRepo
  w_bikes :: BikeRepo
  w_rides :: RideRepo
  w_ride_sessions :: RideSessionStore
  w_steady :: int
  w_time :: int
  w_rnd :: "nat list"

definition draw :: "World \<Rightarrow> nat \<times> World" where
  "draw w = (case w_rnd w of [] \<Rightarrow> (0, w) | r # rs \<Rightarrow> (r, w\<lparr>w_rnd := rs\<rparr>))"

definition mem_ctx :: "World Ctx" where
  "mem_ctx = \<lparr>
     find_by_mobile = (\<lambda>m w. (Inr (mem_find_by_mobile m (w_users w)), w)),
     find_or_create = (\<lambda>m w. case mem_find_or_create m (w_users w) of (u, r) \<Rightarrow> (Inr u, w\<lparr>w_users := r\<rparr>)),
     get_balance = (\<lambda>uid w. (Inr (mem_get_balance uid (w_accounts w)), w)),
     add_balance = (\<lambda>uid ty am w. case mem_add_balance (w_time w) uid ty am (w_accounts w) of
        (b, r) \<Rightarrow> (b, w\<lparr>w_accounts := r\<rparr>)),
     list_records_of = (\<lambda>uid l w. (Inr (mem_list_records uid l (w_accounts w)), w)),
     set_code = (\<lambda>m w. case draw w of (x, w1) \<Rightarrow>
        case mem_set_code (w_steady w1) x m (w_sessions w1) of (c, r) \<Rightarrow> (Inr c, w1\<lparr>w_sessions := r\<rparr>)),
     get_code = (\<lambda>m w. case mem_get_code (w_steady w) m (w_sessions w) of (c, r) \<Rightarrow> (Inr c, w\<lparr>w_sessions := r\<rparr>)),
     delete_code = (\<lambda>m w. (Inr (), w\<lparr>w_sessions := mem_delete_code m (w_sessions w)\<rparr>)),
     create_session = (\<lambda>m w. case draw w of (x, w1) \<Rightarrow> case draw w1 of (y, w2) \<Rightarrow>
        case mem_create_session (w_steady w2) x y m (w_sessions w2) of (t, r) \<Rightarrow> (Inr t, w2\<lparr>w_sessions := r\<rparr>)),
     lookup_session = (\<lambda>t w. case mem_lookup_session (w_steady w) t (w_sessions w) of
        (m, r) \<Rightarrow> (Inr m, w\<lparr>w_sessions := r\<rparr>)),
     destroy_session = (\<lambda>t w. (Inr (), w\<lparr>w_sessions := mem_destroy_session t (w_sessions w)\<rparr>)),
     get_for_update = (\<lambda>no w. (Inr (mem_get_for_update no (w_bikes w)), w)),
     update_status = (\<lambda>bid st w. case mem_update_status bid st (w_bikes w) of (b, r) \<Rightarrow> (Inr b, w\<lparr>w_bikes := r\<rparr>)),
     update_location = (\<lambda>bid la lo w. case mem_update_location bid la lo (w_bikes w) of (b, r) \<Rightarrow> (Inr b, w\<lparr>w_bikes := r\<rparr>)),
     list_in_bounds = (\<lambda>a b c d w. (Inr (mem_list_in_bounds a b c d (w_bikes w)), w)),
     insert_bike = (\<lambda>b w. case mem_insert_bike b (w_bikes w) of (x, r) \<Rightarrow> (Inr x, w\<lparr>w_bikes := r\<rparr>)),
     create_with_points = (\<lambda>i w. case mem_create_with_points i (w_rides w) of (x, r) \<Rightarrow> (Inr x, w\<lparr>w_rides := r\<rparr>)),
     find_by_no = (\<lambda>no w. case mem_find_by_no no (w_rides w) of (x, r) \<Rightarrow> (Inr x, w\<lparr>w_rides := r\<rparr>)),
     list_points = (\<lambda>rid w. (Inr (mem_list_points rid (w_rides w)), w)),
     list_by_user = (\<lambda>uid l w. (Inr (mem_list_by_user uid l (w_rides w)), w)),
     rs_create = (\<lambda>s w. (Inr (), w\<lparr>w_ride_sessions := session_create s (w_ride_sessions w)\<rparr>)),
     rs_find = (\<lambda>no w. (Inr (session_find no (w_ride_sessions w)), w)),
     rs_update_pos = (\<lambda>no la lo sq el w. case update_pos no la lo sq el (w_ride_sessions w) of
        (b, st) \<Rightarrow> (Inr b, w\<lparr>w_ride_sessions := st\<rparr>)),
     rs_remove = (\<lambda>no w. case session_remove no (w_ride_sessions w) of
        (b, st) \<Rightarrow> (Inr b, w\<lparr>w_ride_sessions := st\<rparr>))\<rparr>"

end
