(* ===== verification/Messages.thy ===== *)
theory Messages
  imports Repos
begin

text \<open>
  The messages of proto/bike.proto as records, in the order of the file. The classes that the
  protobuf compiler generates for them are not part of the sources: parsing a request and
  serialising a response are the fields of a record \<open>Pb\<close> that the handlers take as an argument.
\<close>

record mobile_request =
  mobile_request_mobile :: string

record mobile_response =
  mobile_response_code :: int
  mobile_response_icode :: int
  mobile_response_data :: string

record login_request =
  login_request_mobile :: string
  login_request_icode :: int

record login_response =
  login_response_code :: int
  login_response_desc :: string
  login_response_token :: string

record recharge_request =
  recharge_request_token :: string
  recharge_request_amount :: int

record recharge_response =
  recharge_response_code :: int
  recharge_response_balance :: int
  recharge_response_desc :: string

record account_balance_request =
  account_balance_request_token :: string

record account_balance_response =
  account_balance_response_code :: int
  account_balance_response_balance :: int

record list_account_records_request =
  list_records_request_token :: string

record account_record =
  account_record_type :: int
  account_record_amount :: int
  account_record_timestamp :: int

record list_account_records_response =
  list_records_response_code :: int
  list_records_response_records :: "account_record list"

record list_nearby_bikes_request =
  nearby_request_token :: string
  nearby_request_lat :: dbl
  nearby_request_lng :: dbl
  nearby_request_radius :: dbl

record bike_info =
  bike_info_no :: string
  bike_info_lat :: dbl
  bike_info_lng :: dbl
  bike_info_status :: int

record list_nearby_bikes_response =
  nearby_response_code :: int
  nearby_response_bikes :: "bike_info list"

record scan_unlock_request =
  scan_request_token :: string
  scan_request_bike_no :: string
  scan_request_lat :: dbl
  scan_request_lng :: dbl

record scan_unlock_response =
  scan_response_code :: int
  scan_response_desc :: string
  scan_response_ride_no :: string
  scan_response_start_ts :: int

record ride_position_report =
  position_ride_no :: string
  position_seq :: int
  position_lat :: dbl
  position_lng :: dbl
  position_elapsed_sec :: int

record end_ride_request =
  end_request_token :: string
  end_request_ride_no :: string
  end_request_lat :: dbl
  end_request_lng :: dbl

record end_ride_response =
  end_response_code :: int
  end_response_desc :: string
  end_response_duration :: int
  end_response_distance :: int
  end_response_amount :: int
  end_response_balance :: int

record report_damage_request =
  damage_request_token :: string
  damage_request_bike_no :: string
  damage_request_note :: string

record report_damage_response =
  damage_response_code :: int
  damage_response_desc :: string

record get_ride_detail_request =
  detail_request_token :: string
  detail_request_ride_no :: string

record ride_point =
  ride_point_lat :: dbl
  ride_point_lng :: dbl
  ride_point_elapsed :: int

record get_ride_detail_response =
  detail_response_code :: int
  detail_response_ride_no :: string
  detail_response_duration :: int
  detail_response_distance :: int
  detail_response_amount :: int
  detail_response_start_tm :: string
  detail_response_end_tm :: string
  detail_response_points :: "ride_point list"

record list_rides_request =
  list_rides_request_token :: string
  list_rides_request_limit :: int

record ride_summary =
  ride_summary_no :: string
  ride_summary_start_tm :: string
  ride_summary_duration :: int
  ride_summary_distance :: int
  ride_summary_amount :: int

record list_rides_response =
  list_rides_response_code :: int
  list_rides_response_rides :: "ride_summary list"

text \<open>\<open>ParseFromArray\<close> and \<open>SerializeAsString\<close>.\<close>

record Pb =
  parse_mobile_request :: "bytes \<Rightarrow> mobile_request option"
  parse_login_request :: "bytes \<Rightarrow> login_request option"
  parse_recharge_request :: "bytes \<Rightarrow> recharge_request option"
  parse_account_balance_request :: "bytes \<Rightarrow> account_balance_request option"
  parse_list_records_request :: "bytes \<Rightarrow> list_account_records_request option"
  parse_nearby_request :: "bytes \<Rightarrow> list_nearby_bikes_request option"
  parse_scan_request :: "bytes \<Rightarrow> scan_unlock_request option"
  parse_position_report :: "bytes \<Rightarrow> ride_position_report option"
  parse_end_request :: "bytes \<Rightarrow> end_ride_request option"
  parse_damage_request :: "bytes \<Rightarrow> report_damage_request option"
  parse_detail_request :: "bytes \<Rightarrow> get_ride_detail_request option"
  parse_list_rides_request :: "bytes \<Rightarrow> list_rides_request option"
  ser_mobile_response :: "mobile_response \<Rightarrow> bytes"
  ser_login_response :: "login_response \<Rightarrow> bytes"
  ser_recharge_response :: "recharge_response \<Rightarrow> bytes"
  ser_account_balance_response :: "account_balance_response \<Rightarrow> bytes"
  ser_list_records_response :: "list_account_records_response \<Rightarrow> bytes"
  ser_nearby_response :: "list_nearby_bikes_response \<Rightarrow> bytes"
  ser_scan_response :: "scan_unlock_response \<Rightarrow> bytes"
  ser_end_response :: "end_ride_response \<Rightarrow> bytes"
  ser_damage_response :: "report_damage_response \<Rightarrow> bytes"
  ser_detail_response :: "get_ride_detail_response \<Rightarrow> bytes"
  ser_list_rides_response :: "list_rides_response \<Rightarrow> bytes"

end
