(* ===== verification/ClientApi.thy ===== *)
theory ClientApi
  imports Messages Protocol
begin

text \<open>
  The facade of the client's user interface (client/src/net/api_bridge.cpp): twelve requests
  that return at once, their answers as signals, the session of the user. The generated
  protobuf classes, the persistent settings and the order in which a \<open>QHash\<close> is traversed are
  the fields of a record that every operation takes; \<open>QString\<close> is its UTF-8 text. Signals are
  appended to a list, among them the frames handed to the network worker.
\<close>

datatype QVariant = VInt int | VDouble dbl | VString string | VList "QVariant list" | VMap "(string \<times> QVariant) list"

datatype ApiSignal =
  SessionChanged | LinkStateChanged
| RequestSend u16 u32 bytes
| MobileCodeResult bool int string
| LoginResult bool string
| BalanceReady bool int string
| RecordsReady bool "QVariant list" string
| NearbyBikesReady bool "QVariant list" string
| UnlockResult bool string string
| RideEnded bool int int string
| DamageResult bool string
| RideDetailReady bool "(string \<times> QVariant) list" string
| RidesReady bool "QVariant list" string

record 'st ClientEnv =
  ser_mobile_request :: "mobile_request \<Rightarrow> bytes"
  ser_login_request :: "login_request \<Rightarrow> bytes"
  ser_recharge_request :: "recharge_request \<Rightarrow> bytes"
  ser_account_balance_request :: "account_balance_request \<Rightarrow> bytes"
  ser_list_records_request :: "list_account_records_request \<Rightarrow> bytes"
  ser_nearby_request :: "list_nearby_bikes_request \<Rightarrow> bytes"
  ser_scan_request :: "scan_unlock_request \<Rightarrow> bytes"
  ser_position_report :: "ride_position_report \<Rightarrow> bytes"
  ser_end_request :: "end_ride_request \<Rightarrow> bytes"
  ser_damage_request :: "report_damage_request \<Rightarrow> bytes"
  ser_detail_request :: "get_ride_detail_request \<Rightarrow> bytes"
  ser_list_rides_request :: "list_rides_request \<Rightarrow> bytes"
  parse_mobile_response :: "bytes \<Rightarrow> mobile_response option"
  parse_login_response :: "bytes \<Rightarrow> login_response option"
  parse_recharge_response :: "bytes \<Rightarrow> recharge_response option"
  parse_account_balance_response :: "bytes \<Rightarrow> account_balance_response option"
  parse_list_records_response :: "bytes \<Rightarrow> list_account_records_response option"
  parse_nearby_response :: "bytes \<Rightarrow> list_nearby_bikes_response option"
  parse_scan_response :: "bytes \<Rightarrow> scan_unlock_response option"
  parse_end_response :: "bytes \<Rightarrow> end_ride_response option"
  parse_damage_response :: "bytes \<Rightarrow> report_damage_response option"
  parse_detail_response :: "bytes \<Rightarrow> get_ride_detail_response option"
  parse_list_rides_response :: "bytes \<Rightarrow> list_rides_response option"
  settings_value :: "string \<Rightarrow> 'st \<Rightarrow> string"
  settings_set :: "string \<Rightarrow> string \<Rightarrow> 'st \<Rightarrow> 'st"
  settings_remove :: "string \<Rightarrow> 'st \<Rightarrow> 'st"
  hash_order :: "(u16 \<times> u32) list \<Rightarrow> (u16 \<times> u32) list"

text \<open>\<open>in_flight\<close> maps the id of a request to its sequence number.\<close>

record 'st ApiBridge =
  br_token :: string
  br_mobile :: string
  pending_mobile :: string
  active_ride :: string
  link_up :: bool
  seq_counter :: u32
  in_flight :: "(u16 \<times> u32) list"
  br_settings :: 'st
  signals :: "ApiSignal list"

definition bridge0 :: "'st \<Rightarrow> 'st ApiBridge" where
  "bridge0 st = \<lparr>br_token = [], br_mobile = [], pending_mobile = [], active_ride = [], link_up = False,
     seq_counter = 0, in_flight = [], br_settings = st, signals = []\<rparr>"

definition kActiveRideKey :: string where "kActiveRideKey = ''active_ride''"

text \<open>
  The messages in Chinese, as UTF-8: the previous request is still being processed, there is no
  ride in progress, the connection was restored, the connection was lost, the reply cannot be
  parsed, the account was recharged.
\<close>

definition msg_busy :: string where
  "msg_busy = [CHR 0xE4, CHR 0xB8, CHR 0x8A, CHR 0xE4, CHR 0xB8, CHR 0x80, CHR 0xE4, CHR 0xB8, CHR 0xAA,
     CHR 0xE8, CHR 0xAF, CHR 0xB7, CHR 0xE6, CHR 0xB1, CHR 0x82, CHR 0xE4, CHR 0xBB, CHR 0x8D,
     CHR 0xE5, CHR 0x9C, CHR 0xA8, CHR 0xE5, CHR 0xA4, CHR 0x84, CHR 0xE7, CHR 0x90, CHR 0x86]"

definition msg_no_ride :: string where
  "msg_no_ride = [CHR 0xE5, CHR 0xBD, CHR 0x93, CHR 0xE5, CHR 0x89, CHR 0x8D, CHR 0xE6, CHR 0xB2, CHR 0xA1,
     CHR 0xE6, CHR 0x9C, CHR 0x89, CHR 0xE8, CHR 0xBF, CHR 0x9B, CHR 0xE8, CHR 0xA1, CHR 0x8C,
     CHR 0xE4, CHR 0xB8, CHR 0xAD, CHR 0xE7, CHR 0x9A, CHR 0x84, CHR 0xE8, CHR 0xAE, CHR 0xA2,
     CHR 0xE5, CHR 0x8D, CHR 0x95]"

definition msg_relinked :: string where
  "msg_relinked = [CHR 0xE8, CHR 0xBF, CHR 0x9E, CHR 0xE6, CHR 0x8E, CHR 0xA5, CHR 0xE5, CHR 0xB7, CHR 0xB2,
     CHR 0xE9, CHR 0x87, CHR 0x8D, CHR 0xE5, CHR 0xBB, CHR 0xBA, CHR 0x2C, CHR 0x20, CHR 0xE8,
     CHR 0xAF, CHR 0xB7, CHR 0xE9, CHR 0x87, CHR 0x8D, CHR 0xE8, CHR 0xAF, CHR 0x95]"

definition msg_link_lost :: string where
  "msg_link_lost = [CHR 0xE8, CHR 0xBF, CHR 0x9E, CHR 0xE6, CHR 0x8E, CHR 0xA5, CHR 0xE4, CHR 0xB8, CHR 0xAD,
     CHR 0xE6, CHR 0x96, CHR 0xAD, CHR 0x3A, CHR 0x20]"

definition msg_bad_reply :: string where
  "msg_bad_reply = [CHR 0xE5, CHR 0x93, CHR 0x8D, CHR 0xE5, CHR 0xBA, CHR 0x94, CHR 0xE8, CHR 0xA7, CHR 0xA3,
     CHR 0xE6, CHR 0x9E, CHR 0x90, CHR 0xE5, CHR 0xA4, CHR 0xB1, CHR 0xE8, CHR 0xB4, CHR 0xA5]"

definition msg_recharged :: string where
  "msg_recharged = [CHR 0xE5, CHR 0x85, CHR 0x85, CHR 0xE5, CHR 0x80, CHR 0xBC, CHR 0xE6, CHR 0x88, CHR 0x90,
     CHR 0xE5, CHR 0x8A, CHR 0x9F]"

definition emit_api :: "ApiSignal \<Rightarrow> 'st ApiBridge \<Rightarrow> 'st ApiBridge" where
  "emit_api sg b = b\<lparr>signals := signals b @ [sg]\<rparr>"

definition loggedIn :: "'st ApiBridge \<Rightarrow> bool" where
  "loggedIn b \<longleftrightarrow> br_token b \<noteq> []"

definition isKnownResponse :: "u16 \<Rightarrow> bool" where
  "isKnownResponse rsp \<longleftrightarrow> rsp \<in> {0x02, 0x04, 0x06, 0x08, 0x10, 0x12, 0x14, 0x18, 0x1A, 0x1C, 0x1E}"

definition rspToReq :: "u16 \<Rightarrow> u16" where
  "rspToReq rsp =
     (if rsp = event_id ListAccountRecordsResponse then event_id ListAccountRecordsRequest else rsp - 1)"

definition nextSeq :: "'st ApiBridge \<Rightarrow> u32 \<times> 'st ApiBridge" where
  "nextSeq b =
     (let s = seq_counter b + 1; s' = (if s = 0 then s + 1 else s)
      in (s', b\<lparr>seq_counter := s'\<rparr>))"

definition beginRequest :: "u16 \<Rightarrow> 'st ApiBridge \<Rightarrow> bool" where
  "beginRequest req_eid b \<longleftrightarrow> map_of (in_flight b) req_eid = None"

text \<open>\<open>QHash::insert\<close> replaces the value of a key that is there already.\<close>

definition hash_insert :: "u16 \<Rightarrow> u32 \<Rightarrow> (u16 \<times> u32) list \<Rightarrow> (u16 \<times> u32) list" where
  "hash_insert k v h = (k, v) # filter (\<lambda>(k', v'). k' \<noteq> k) h"

definition hash_erase :: "u16 \<Rightarrow> (u16 \<times> u32) list \<Rightarrow> (u16 \<times> u32) list" where
  "hash_erase k h = filter (\<lambda>(k', v'). k' \<noteq> k) h"

definition sendRequest :: "u16 \<Rightarrow> bytes \<Rightarrow> 'st ApiBridge \<Rightarrow> 'st ApiBridge" where
  "sendRequest req_eid pl b =
     (let (sq, b1) = nextSeq b; b2 = b1\<lparr>in_flight := hash_insert req_eid sq (in_flight b1)\<rparr>
      in emit_api (RequestSend req_eid sq pl) b2)"

subsection \<open>Requests\<close>

definition sendMobileCode :: "'st ClientEnv \<Rightarrow> string \<Rightarrow> 'st ApiBridge \<Rightarrow> 'st ApiBridge" where
  "sendMobileCode E mobile b =
     (if \<not> beginRequest (event_id MobileRequest) b then emit_api (MobileCodeResult False 0 msg_busy) b
      else sendRequest (event_id MobileRequest)
        (ser_mobile_request E \<lparr>mobile_request_mobile = mobile\<rparr>) b)"

definition api_login :: "'st ClientEnv \<Rightarrow> string \<Rightarrow> int \<Rightarrow> 'st ApiBridge \<Rightarrow> 'st ApiBridge" where
  "api_login E mobile icode b =
     (if \<not> beginRequest (event_id LoginRequest) b then emit_api (LoginResult False msg_busy) b
      else sendRequest (event_id LoginRequest)
        (ser_login_request E \<lparr>login_request_mobile = mobile, login_request_icode = icode\<rparr>)
        (b\<lparr>pending_mobile := mobile\<rparr>))"

definition api_recharge :: "'st ClientEnv \<Rightarrow> int \<Rightarrow> 'st ApiBridge \<Rightarrow> 'st ApiBridge" where
  "api_recharge E amount_cent b =
     (if \<not> beginRequest (event_id RechargeRequest) b then emit_api (BalanceReady False 0 msg_busy) b
      else sendRequest (event_id RechargeRequest)
        (ser_recharge_request E \<lparr>recharge_request_token = br_token b, recharge_request_amount = amount_cent\<rparr>) b)"

definition refreshBalance :: "'st ClientEnv \<Rightarrow> 'st ApiBridge \<Rightarrow> 'st ApiBridge" where
  "refreshBalance E b =
     (if \<not> beginRequest (event_id AccountBalanceRequest) b then emit_api (BalanceReady False 0 msg_busy) b
      else sendRequest (event_id AccountBalanceRequest)
        (ser_account_balance_request E \<lparr>account_balance_request_token = br_token b\<rparr>) b)"

definition listRecords :: "'st ClientEnv \<Rightarrow> 'st ApiBridge \<Rightarrow> 'st ApiBridge" where
  "listRecords E b =
     (if \<not> beginRequest (event_id ListAccountRecordsRequest) b then emit_api (RecordsReady False [] msg_busy) b
      else sendRequest (event_id ListAccountRecordsRequest)
        (ser_list_records_request E \<lparr>list_records_request_token = br_token b\<rparr>) b)"

definition refreshNearbyBikes :: "'st ClientEnv \<Rightarrow> dbl \<Rightarrow> dbl \<Rightarrow> 'st ApiBridge \<Rightarrow> 'st ApiBridge" where
  "refreshNearbyBikes E lat lng b =
     (if \<not> beginRequest (event_id ListNearbyBikesRequest) b then emit_api (NearbyBikesReady False [] msg_busy) b
      else sendRequest (event_id ListNearbyBikesRequest)
        (ser_nearby_request E \<lparr>nearby_request_token = br_token b, nearby_request_lat = lat,
           nearby_request_lng = lng, nearby_request_radius = Num 1000\<rparr>) b)"

definition scanUnlock :: "'st ClientEnv \<Rightarrow> string \<Rightarrow> dbl \<Rightarrow> dbl \<Rightarrow> 'st ApiBridge \<Rightarrow> 'st ApiBridge" where
  "scanUnlock E bike_no lat lng b =
     (if \<not> beginRequest (event_id ScanUnlockRequest) b then emit_api (UnlockResult False [] msg_busy) b
      else sendRequest (event_id ScanUnlockRequest)
        (ser_scan_request E \<lparr>scan_request_token = br_token b, scan_request_bike_no = bike_no,
           scan_request_lat = lat, scan_request_lng = lng\<rparr>) b)"

text \<open>A report expects no answer and takes no slot.\<close>

definition reportPosition ::
  "'st ClientEnv \<Rightarrow> string \<Rightarrow> int \<Rightarrow> dbl \<Rightarrow> dbl \<Rightarrow> int \<Rightarrow> 'st ApiBridge \<Rightarrow> 'st ApiBridge" where
  "reportPosition E ride_no seq_i lat lng elapsed b =
     (let pl = ser_position_report E \<lparr>position_ride_no = ride_no, position_seq = seq_i,
            position_lat = lat, position_lng = lng, position_elapsed_sec = elapsed\<rparr>;
          (sq, b1) = nextSeq b
      in emit_api (RequestSend (event_id RidePositionReport) sq pl) b1)"

definition endRide :: "'st ClientEnv \<Rightarrow> dbl \<Rightarrow> dbl \<Rightarrow> 'st ApiBridge \<Rightarrow> 'st ApiBridge" where
  "endRide E lat lng b =
     (if active_ride b = [] then emit_api (RideEnded False 0 0 msg_no_ride) b
      else if \<not> beginRequest (event_id EndRideRequest) b then emit_api (RideEnded False 0 0 msg_busy) b
      else sendRequest (event_id EndRideRequest)
        (ser_end_request E \<lparr>end_request_token = br_token b, end_request_ride_no = active_ride b,
           end_request_lat = lat, end_request_lng = lng\<rparr>) b)"

definition reportDamage :: "'st ClientEnv \<Rightarrow> string \<Rightarrow> string \<Rightarrow> 'st ApiBridge \<Rightarrow> 'st ApiBridge" where
  "reportDamage E bike_no note b =
     (if \<not> beginRequest (event_id ReportDamageRequest) b then emit_api (DamageResult False msg_busy) b
      else sendRequest (event_id ReportDamageRequest)
        (ser_damage_request E \<lparr>damage_request_token = br_token b, damage_request_bike_no = bike_no,
           damage_request_note = note\<rparr>) b)"

definition rideDetail :: "'st ClientEnv \<Rightarrow> string \<Rightarrow> 'st ApiBridge \<Rightarrow> 'st ApiBridge" where
  "rideDetail E ride_no b =
     (if \<not> beginRequest (event_id GetRideDetailRequest) b then emit_api (RideDetailReady False [] msg_busy) b
      else sendRequest (event_id GetRideDetailRequest)
        (ser_detail_request E \<lparr>detail_request_token = br_token b, detail_request_ride_no = ride_no\<rparr>) b)"

definition listRides :: "'st ClientEnv \<Rightarrow> int \<Rightarrow> 'st ApiBridge \<Rightarrow> 'st ApiBridge" where
  "listRides E limit b =
     (if \<not> beginRequest (event_id ListRidesRequest) b then emit_api (RidesReady False [] msg_busy) b
      else sendRequest (event_id ListRidesRequest)
        (ser_list_rides_request E \<lparr>list_rides_request_token = br_token b, list_rides_request_limit = limit\<rparr>) b)"

definition clearActiveRide :: "'st ClientEnv \<Rightarrow> 'st ApiBridge \<Rightarrow> 'st ApiBridge" where
  "clearActiveRide E b =
     emit_api SessionChanged
       (b\<lparr>active_ride := [], br_settings := settings_remove E kActiveRideKey (br_settings b)\<rparr>)"

subsection \<open>State of the link\<close>

text \<open>The signal with which a request fails; other keys emit nothing.\<close>

definition fail_signal :: "u16 \<Rightarrow> string \<Rightarrow> ApiSignal option" where
  "fail_signal req msg =
     (if req = 0x01 then Some (MobileCodeResult False 0 msg)
      else if req = 0x03 then Some (LoginResult False msg)
      else if req = 0x05 \<or> req = 0x07 then Some (BalanceReady False 0 msg)
      else if req = 0x09 then Some (RecordsReady False [] msg)
      else if req = 0x11 then Some (NearbyBikesReady False [] msg)
      else if req = 0x13 then Some (UnlockResult False [] msg)
      else if req = 0x17 then Some (RideEnded False 0 0 msg)
      else if req = 0x19 then Some (DamageResult False msg)
      else if req = 0x1B then Some (RideDetailReady False [] msg)
      else if req = 0x1D then Some (RidesReady False [] msg)
      else None)"

definition failInFlight :: "'st ClientEnv \<Rightarrow> string \<Rightarrow> 'st ApiBridge \<Rightarrow> 'st ApiBridge" where
  "failInFlight E msg b =
     (fold (\<lambda>(k, v) c. case fail_signal k msg of None \<Rightarrow> c | Some sg \<Rightarrow> emit_api sg c)
        (hash_order E (in_flight b)) b)\<lparr>in_flight := []\<rparr>"

definition onWorkerConnected :: "'st ClientEnv \<Rightarrow> 'st ApiBridge \<Rightarrow> 'st ApiBridge" where
  "onWorkerConnected E b =
     emit_api LinkStateChanged ((failInFlight E msg_relinked (b\<lparr>seq_counter := 0\<rparr>))\<lparr>link_up := True\<rparr>)"

definition onWorkerDisconnected :: "'st ClientEnv \<Rightarrow> string \<Rightarrow> 'st ApiBridge \<Rightarrow> 'st ApiBridge" where
  "onWorkerDisconnected E reason b =
     emit_api LinkStateChanged ((failInFlight E (msg_link_lost @ reason) b)\<lparr>link_up := False\<rparr>)"

subsection \<open>Replies\<close>

definition onMobileResponse :: "'st ClientEnv \<Rightarrow> bytes \<Rightarrow> 'st ApiBridge \<Rightarrow> 'st ApiBridge" where
  "onMobileResponse E pl b =
     (case parse_mobile_response E pl of
        None \<Rightarrow> emit_api (MobileCodeResult False 0 msg_bad_reply) b
      | Some rsp \<Rightarrow> emit_api (MobileCodeResult True (mobile_response_icode rsp) (mobile_response_data rsp)) b)"

definition onLoginResponse :: "'st ClientEnv \<Rightarrow> bytes \<Rightarrow> 'st ApiBridge \<Rightarrow> 'st ApiBridge" where
  "onLoginResponse E pl b =
     (case parse_login_response E pl of
        None \<Rightarrow> emit_api (LoginResult False msg_bad_reply) b
      | Some rsp \<Rightarrow>
          let ok = (login_response_code rsp = 200 \<and> login_response_token rsp \<noteq> []);
              b1 = (if ok then emit_api SessionChanged
                      (b\<lparr>br_token := login_response_token rsp, br_mobile := pending_mobile b,
                         active_ride := settings_value E kActiveRideKey (br_settings b)\<rparr>) else b)
          in emit_api (LoginResult ok (login_response_desc rsp)) b1)"

definition onRechargeResponse :: "'st ClientEnv \<Rightarrow> bytes \<Rightarrow> 'st ApiBridge \<Rightarrow> 'st ApiBridge" where
  "onRechargeResponse E pl b =
     (case parse_recharge_response E pl of
        None \<Rightarrow> emit_api (BalanceReady False 0 msg_bad_reply) b
      | Some rsp \<Rightarrow>
          emit_api (BalanceReady (recharge_response_code rsp = 200) (recharge_response_balance rsp)
            (if recharge_response_code rsp = 200 then msg_recharged else recharge_response_desc rsp)) b)"

definition onBalanceResponse :: "'st ClientEnv \<Rightarrow> bytes \<Rightarrow> 'st ApiBridge \<Rightarrow> 'st ApiBridge" where
  "onBalanceResponse E pl b =
     (case parse_account_balance_response E pl of
        None \<Rightarrow> emit_api (BalanceReady False 0 msg_bad_reply) b
      | Some rsp \<Rightarrow>
          emit_api (BalanceReady (account_balance_response_code rsp = 200)
            (account_balance_response_balance rsp) []) b)"

definition record_row :: "account_record \<Rightarrow> QVariant" where
  "record_row r = VMap [(''type'', VInt (account_record_type r)), (''amount'', VInt (account_record_amount r)),
     (''timestamp'', VInt (account_record_timestamp r))]"

definition onRecordsResponse :: "'st ClientEnv \<Rightarrow> bytes \<Rightarrow> 'st ApiBridge \<Rightarrow> 'st ApiBridge" where
  "onRecordsResponse E pl b =
     (case parse_list_records_response E pl of
        None \<Rightarrow> emit_api (RecordsReady False [] msg_bad_reply) b
      | Some rsp \<Rightarrow>
          emit_api (RecordsReady (list_records_response_code rsp = 200)
            (map record_row (list_records_response_records rsp)) []) b)"

definition bike_row :: "bike_info \<Rightarrow> QVariant" where
  "bike_row k = VMap [(''bike_no'', VString (bike_info_no k)), (''lat'', VDouble (bike_info_lat k)),
     (''lng'', VDouble (bike_info_lng k)), (''status'', VInt (bike_info_status k))]"

definition onNearbyResponse :: "'st ClientEnv \<Rightarrow> bytes \<Rightarrow> 'st ApiBridge \<Rightarrow> 'st ApiBridge" where
  "onNearbyResponse E pl b =
     (case parse_nearby_response E pl of
        None \<Rightarrow> emit_api (NearbyBikesReady False [] msg_bad_reply) b
      | Some rsp \<Rightarrow>
          emit_api (NearbyBikesReady (nearby_response_code rsp = 200)
            (map bike_row (nearby_response_bikes rsp)) []) b)"

definition onScanResponse :: "'st ClientEnv \<Rightarrow> bytes \<Rightarrow> 'st ApiBridge \<Rightarrow> 'st ApiBridge" where
  "onScanResponse E pl b =
     (case parse_scan_response E pl of
        None \<Rightarrow> emit_api (UnlockResult False [] msg_bad_reply) b
      | Some rsp \<Rightarrow>
          let ok = (scan_response_code rsp = 200);
              ride_no = (if ok then scan_response_ride_no rsp else []);
              b1 = (if ok then emit_api SessionChanged
                      (b\<lparr>active_ride := ride_no,
                         br_settings := settings_set E kActiveRideKey ride_no (br_settings b)\<rparr>) else b)
          in emit_api (UnlockResult ok ride_no (scan_response_desc rsp)) b1)"

definition onEndResponse :: "'st ClientEnv \<Rightarrow> bytes \<Rightarrow> 'st ApiBridge \<Rightarrow> 'st ApiBridge" where
  "onEndResponse E pl b =
     (case parse_end_response E pl of
        None \<Rightarrow> emit_api (RideEnded False 0 0 msg_bad_reply) b
      | Some rsp \<Rightarrow>
          let ok = (end_response_code rsp = 200);
              b1 = (if ok then emit_api SessionChanged
                      (b\<lparr>active_ride := [], br_settings := settings_remove E kActiveRideKey (br_settings b)\<rparr>)
                    else b)
          in emit_api (RideEnded ok (end_response_amount rsp) (end_response_balance rsp) (end_response_desc rsp)) b1)"

definition onDamageResponse :: "'st ClientEnv \<Rightarrow> bytes \<Rightarrow> 'st ApiBridge \<Rightarrow> 'st ApiBridge" where
  "onDamageResponse E pl b =
     (case parse_damage_response E pl of
        None \<Rightarrow> emit_api (DamageResult False msg_bad_reply) b
      | Some rsp \<Rightarrow> emit_api (DamageResult (damage_response_code rsp = 200) (damage_response_desc rsp)) b)"

definition point_row :: "ride_point \<Rightarrow> QVariant" where
  "point_row p = VMap [(''lat'', VDouble (ride_point_lat p)), (''lng'', VDouble (ride_point_lng p)),
     (''elapsed_sec'', VInt (ride_point_elapsed p))]"

definition onDetailResponse :: "'st ClientEnv \<Rightarrow> bytes \<Rightarrow> 'st ApiBridge \<Rightarrow> 'st ApiBridge" where
  "onDetailResponse E pl b =
     (case parse_detail_response E pl of
        None \<Rightarrow> emit_api (RideDetailReady False [] msg_bad_reply) b
      | Some rsp \<Rightarrow>
          emit_api (RideDetailReady (detail_response_code rsp = 200)
            [(''ride_no'', VString (detail_response_ride_no rsp)),
             (''duration_sec'', VInt (detail_response_duration rsp)),
             (''distance_m'', VInt (detail_response_distance rsp)),
             (''amount_cent'', VInt (detail_response_amount rsp)),
             (''start_tm'', VString (detail_response_start_tm rsp)),
             (''end_tm'', VString (detail_response_end_tm rsp)),
             (''points'', VList (map point_row (detail_response_points rsp)))] []) b)"

definition ride_row :: "ride_summary \<Rightarrow> QVariant" where
  "ride_row r = VMap [(''ride_no'', VString (ride_summary_no r)), (''start_tm'', VString (ride_summary_start_tm r)),
     (''duration_sec'', VInt (ride_summary_duration r)), (''distance_m'', VInt (ride_summary_distance r)),
     (''amount_cent'', VInt (ride_summary_amount r))]"

definition onRidesResponse :: "'st ClientEnv \<Rightarrow> bytes \<Rightarrow> 'st ApiBridge \<Rightarrow> 'st ApiBridge" where
  "onRidesResponse E pl b =
     (case parse_list_rides_response E pl of
        None \<Rightarrow> emit_api (RidesReady False [] msg_bad_reply) b
      | Some rsp \<Rightarrow>
          emit_api (RidesReady (list_rides_response_code rsp = 200)
            (map ride_row (list_rides_response_rides rsp)) []) b)"

definition handleFrame :: "'st ClientEnv \<Rightarrow> u16 \<Rightarrow> bytes \<Rightarrow> 'st ApiBridge \<Rightarrow> 'st ApiBridge" where
  "handleFrame E rsp_eid pl b =
     (if rsp_eid = 0x02 then onMobileResponse E pl b
      else if rsp_eid = 0x04 then onLoginResponse E pl b
      else if rsp_eid = 0x06 then onRechargeResponse E pl b
      else if rsp_eid = 0x08 then onBalanceResponse E pl b
      else if rsp_eid = 0x10 then onRecordsResponse E pl b
      else if rsp_eid = 0x12 then onNearbyResponse E pl b
      else if rsp_eid = 0x14 then onScanResponse E pl b
      else if rsp_eid = 0x18 then onEndResponse E pl b
      else if rsp_eid = 0x1A then onDamageResponse E pl b
      else if rsp_eid = 0x1C then onDetailResponse E pl b
      else if rsp_eid = 0x1E then onRidesResponse E pl b
      else b)"

definition onFrameReady :: "'st ClientEnv \<Rightarrow> u16 \<Rightarrow> u32 \<Rightarrow> bytes \<Rightarrow> 'st ApiBridge \<Rightarrow> 'st ApiBridge" where
  "onFrameReady E rsp_eid sq pl b =
     (if \<not> isKnownResponse rsp_eid then b
      else
        case map_of (in_flight b) (rspToReq rsp_eid) of
          None \<Rightarrow> b
        | Some v \<Rightarrow>
            if v \<noteq> sq then b
            else handleFrame E rsp_eid pl (b\<lparr>in_flight := hash_erase (rspToReq rsp_eid) (in_flight b)\<rparr>))"

subsection \<open>Runs\<close>

datatype ApiCall =
  SendMobileCode string | Login string int | Recharge int | RefreshBalance | ListRecords
| RefreshNearbyBikes dbl dbl | ScanUnlock string dbl dbl | ReportPosition string int dbl dbl int
| EndRide dbl dbl | ReportDamage string string | RideDetail string | ListRides int | ClearActiveRide

fun api_call :: "'st ClientEnv \<Rightarrow> ApiCall \<Rightarrow> 'st ApiBridge \<Rightarrow> 'st ApiBridge" where
  "api_call E (SendMobileCode m) b = sendMobileCode E m b"
| "api_call E (Login m c) b = api_login E m c b"
| "api_call E (Recharge a) b = api_recharge E a b"
| "api_call E RefreshBalance b = refreshBalance E b"
| "api_call E ListRecords b = listRecords E b"
| "api_call E (RefreshNearbyBikes lat lng) b = refreshNearbyBikes E lat lng b"
| "api_call E (ScanUnlock no lat lng) b = scanUnlock E no lat lng b"
| "api_call E (ReportPosition no i lat lng t) b = reportPosition E no i lat lng t b"
| "api_call E (EndRide lat lng) b = endRide E lat lng b"
| "api_call E (ReportDamage no note) b = reportDamage E no note b"
| "api_call E (RideDetail no) b = rideDetail E no b"
| "api_call E (ListRides n) b = listRides E n b"
| "api_call E ClearActiveRide b = clearActiveRide E b"

datatype BridgeEvent = Call ApiCall | LinkUp | LinkDown string | Reply u16 u32 bytes

fun bridge_step :: "'st ClientEnv \<Rightarrow> BridgeEvent \<Rightarrow> 'st ApiBridge \<Rightarrow> 'st ApiBridge" where
  "bridge_step E (Call c) b = api_call E c b"
| "bridge_step E LinkUp b = onWorkerConnected E b"
| "bridge_step E (LinkDown reason) b = onWorkerDisconnected E reason b"
| "bridge_step E (Reply e s pl) b = onFrameReady E e s pl b"

definition bridge_run :: "'st ClientEnv \<Rightarrow> BridgeEvent list \<Rightarrow> 'st ApiBridge \<Rightarrow> 'st ApiBridge" where
  "bridge_run E evs b = fold (bridge_step E) evs b"

end
