(* ===== verification/ClientProps.thy ===== *)
theory ClientProps
  imports TcpClient ClientApi "HOL-Library.Multiset"
begin

text \<open>
  Properties of the client: every call of the user interface is answered exactly once, and the
  composition of the API with the network worker through the queues between their threads.
\<close>

subsection \<open>Kinds of answers\<close>

text \<open>The signals that answer a call; a recharge and a balance query share one.\<close>

datatype Answer = AMobile | ALogin | ABalance | ARecords | ANearby | AUnlock | AEnd | ADamage | ADetail | ARides

fun signal_answer :: "ApiSignal \<Rightarrow> Answer option" where
  "signal_answer SessionChanged = None"
| "signal_answer LinkStateChanged = None"
| "signal_answer (RequestSend e s pl) = None"
| "signal_answer (MobileCodeResult ok c d) = Some AMobile"
| "signal_answer (LoginResult ok d) = Some ALogin"
| "signal_answer (BalanceReady ok n d) = Some ABalance"
| "signal_answer (RecordsReady ok rs d) = Some ARecords"
| "signal_answer (NearbyBikesReady ok bs d) = Some ANearby"
| "signal_answer (UnlockResult ok r d) = Some AUnlock"
| "signal_answer (RideEnded ok a n d) = Some AEnd"
| "signal_answer (DamageResult ok d) = Some ADamage"
| "signal_answer (RideDetailReady ok m d) = Some ADetail"
| "signal_answer (RidesReady ok rs d) = Some ARides"

fun call_answer :: "ApiCall \<Rightarrow> Answer option" where
  "call_answer (SendMobileCode m) = Some AMobile"
| "call_answer (Login m c) = Some ALogin"
| "call_answer (Recharge a) = Some ABalance"
| "call_answer RefreshBalance = Some ABalance"
| "call_answer ListRecords = Some ARecords"
| "call_answer (RefreshNearbyBikes lat lng) = Some ANearby"
| "call_answer (ScanUnlock no lat lng) = Some AUnlock"
| "call_answer (ReportPosition no i lat lng t) = None"
| "call_answer (EndRide lat lng) = Some AEnd"
| "call_answer (ReportDamage no note) = Some ADamage"
| "call_answer (RideDetail no) = Some ADetail"
| "call_answer (ListRides n) = Some ARides"
| "call_answer ClearActiveRide = None"

fun event_answer :: "BridgeEvent \<Rightarrow> Answer option" where
  "event_answer (Call c) = call_answer c"
| "event_answer ev = None"

definition req_answer :: "u16 \<Rightarrow> Answer option" where
  "req_answer r = Option.bind (fail_signal r []) signal_answer"

definition answers :: "Answer \<Rightarrow> 'st ApiBridge \<Rightarrow> nat" where
  "answers k b = length (filter (\<lambda>sg. signal_answer sg = Some k) (signals b))"

definition waiting :: "Answer \<Rightarrow> 'st ApiBridge \<Rightarrow> nat" where
  "waiting k b = length (filter (\<lambda>(r, v). req_answer r = Some k) (in_flight b))"

definition flight_ok :: "'st ApiBridge \<Rightarrow> bool" where
  "flight_ok b \<longleftrightarrow> distinct (map fst (in_flight b))"

lemma fail_signal_answer: "Option.bind (fail_signal r msg) signal_answer = req_answer r"
  by (simp add: req_answer_def fail_signal_def)

lemma answers_emit [simp]:
  "answers k (emit_api sg b) = answers k b + of_bool (signal_answer sg = Some k)"
  "waiting k (emit_api sg b) = waiting k b" "flight_ok (emit_api sg b) = flight_ok b"
  "in_flight (emit_api sg b) = in_flight b"
  by (simp_all add: answers_def waiting_def flight_ok_def emit_api_def)

lemma answers_fields [simp]:
  "answers k (b\<lparr>in_flight := h\<rparr>) = answers k b" "answers k (b\<lparr>seq_counter := c\<rparr>) = answers k b"
  "answers k (b\<lparr>link_up := u\<rparr>) = answers k b" "answers k (b\<lparr>pending_mobile := m\<rparr>) = answers k b"
  "waiting k (b\<lparr>seq_counter := c\<rparr>) = waiting k b" "waiting k (b\<lparr>link_up := u\<rparr>) = waiting k b"
  "waiting k (b\<lparr>pending_mobile := m\<rparr>) = waiting k b" "waiting k (b\<lparr>in_flight := []\<rparr>) = 0"
  by (simp_all add: answers_def waiting_def)

lemma erase_absent: "map_of h r = None \<Longrightarrow> filter (\<lambda>(k, v). k \<noteq> r) h = h"
  by (induction h) (auto split: if_splits)

lemma send_request [simp]:
  assumes "beginRequest r b"
  shows "answers k (sendRequest r pl b) = answers k b"
    and "waiting k (sendRequest r pl b) = waiting k b + of_bool (req_answer r = Some k)"
    and "flight_ok b \<Longrightarrow> flight_ok (sendRequest r pl b)"
  using assms
  by (simp_all add: sendRequest_def nextSeq_def Let_def beginRequest_def hash_insert_def erase_absent)
    (simp_all add: waiting_def flight_ok_def map_of_eq_None_iff)

lemma begin_mobile [simp]: "beginRequest r (b\<lparr>pending_mobile := m\<rparr>) = beginRequest r b"
  by (simp add: beginRequest_def)

lemmas call_defs = sendMobileCode_def api_login_def api_recharge_def refreshBalance_def listRecords_def
  refreshNearbyBikes_def scanUnlock_def endRide_def reportDamage_def rideDetail_def listRides_def

lemma req_answers [simp]:
  "req_answer 1 = Some AMobile" "req_answer 3 = Some ALogin" "req_answer 5 = Some ABalance"
  "req_answer 7 = Some ABalance" "req_answer 9 = Some ARecords" "req_answer 0x11 = Some ANearby"
  "req_answer 0x13 = Some AUnlock" "req_answer 0x17 = Some AEnd" "req_answer 0x19 = Some ADamage"
  "req_answer 0x1B = Some ADetail" "req_answer 0x1D = Some ARides"
  by (simp_all add: req_answer_def fail_signal_def)

lemma call_counts:
  "answers k (api_call E c b) + waiting k (api_call E c b) =
     answers k b + waiting k b + of_bool (call_answer c = Some k)"
proof (cases c)
  case (ReportPosition no i lat lng t)
  then show ?thesis by (simp add: reportPosition_def nextSeq_def Let_def)
next
  case ClearActiveRide
  then show ?thesis by (simp add: clearActiveRide_def) (simp add: answers_def waiting_def)
qed (simp_all add: call_defs)

lemma call_flight: "flight_ok b \<Longrightarrow> flight_ok (api_call E c b)"
proof (cases c)
  case (ReportPosition no i lat lng t)
  assume "flight_ok b"
  then show ?thesis using ReportPosition by (simp add: reportPosition_def nextSeq_def Let_def flight_ok_def)
next
  case ClearActiveRide
  assume "flight_ok b"
  then show ?thesis using ClearActiveRide by (simp add: clearActiveRide_def flight_ok_def)
next
  case (Login m i)
  assume "flight_ok b"
  then have "flight_ok (b\<lparr>pending_mobile := m\<rparr>)" by (simp add: flight_ok_def)
  then show ?thesis using Login \<open>flight_ok b\<close> by (simp add: api_login_def)
qed (simp_all add: call_defs)

text \<open>A failure of the link answers each request in flight once.\<close>

lemma fold_fail:
  fixes b :: "'st ApiBridge"
  shows "answers k (fold (\<lambda>(r, v) c. case fail_signal r msg of None \<Rightarrow> c | Some sg \<Rightarrow> emit_api sg c) h b) =
    answers k b + length (filter (\<lambda>(r, v). req_answer r = Some k) h)"
proof (induction h arbitrary: b)
  case (Cons x h)
  obtain r v where x: "x = (r, v)" by fastforce
  have "req_answer r = (case fail_signal r msg of None \<Rightarrow> None | Some sg \<Rightarrow> signal_answer sg)"
    using fail_signal_answer [of r msg] by (cases "fail_signal r msg") simp_all
  with Cons.IH x show ?case by (simp split: option.split)
qed simp

lemma perm_filter_length: "mset xs = mset ys \<Longrightarrow> length (filter P xs) = length (filter P ys)"
  by (metis mset_filter size_mset)

definition order_ok :: "'st ClientEnv \<Rightarrow> bool" where
  "order_ok E \<longleftrightarrow> (\<forall>h. mset (hash_order E h) = mset h)"

lemma fail_counts:
  assumes "order_ok E"
  shows "answers k (failInFlight E msg b) + waiting k (failInFlight E msg b) = answers k b + waiting k b"
    and "flight_ok (failInFlight E msg b)"
  using assms perm_filter_length [of "hash_order E (in_flight b)" "in_flight b" "\<lambda>(r, v). req_answer r = Some k"]
  by (simp_all add: failInFlight_def fold_fail flight_ok_def order_ok_def) (simp add: waiting_def)

lemma link_counts:
  assumes "order_ok E"
  shows "answers k (onWorkerConnected E b) + waiting k (onWorkerConnected E b) = answers k b + waiting k b"
    and "answers k (onWorkerDisconnected E why b) + waiting k (onWorkerDisconnected E why b) = answers k b + waiting k b"
    and "flight_ok (onWorkerConnected E b)" "flight_ok (onWorkerDisconnected E why b)"
  using fail_counts [OF assms]
  by (simp_all add: onWorkerConnected_def onWorkerDisconnected_def) (simp_all add: flight_ok_def)

text \<open>A reply that is handled answers one request of its kind.\<close>

lemmas reply_defs = onMobileResponse_def onLoginResponse_def onRechargeResponse_def onBalanceResponse_def
  onRecordsResponse_def onNearbyResponse_def onScanResponse_def onEndResponse_def onDamageResponse_def
  onDetailResponse_def onRidesResponse_def

lemma answers_session [simp]:
  "answers k (b\<lparr>br_token := t, br_mobile := m, active_ride := a\<rparr>) = answers k b"
  "answers k (b\<lparr>active_ride := a, br_settings := st\<rparr>) = answers k b"
  by (simp_all add: answers_def)

lemma reply_answers:
  "answers k (onMobileResponse E pl b) = answers k b + of_bool (AMobile = k)"
  "answers k (onLoginResponse E pl b) = answers k b + of_bool (ALogin = k)"
  "answers k (onRechargeResponse E pl b) = answers k b + of_bool (ABalance = k)"
  "answers k (onBalanceResponse E pl b) = answers k b + of_bool (ABalance = k)"
  "answers k (onRecordsResponse E pl b) = answers k b + of_bool (ARecords = k)"
  "answers k (onNearbyResponse E pl b) = answers k b + of_bool (ANearby = k)"
  "answers k (onScanResponse E pl b) = answers k b + of_bool (AUnlock = k)"
  "answers k (onEndResponse E pl b) = answers k b + of_bool (AEnd = k)"
  "answers k (onDamageResponse E pl b) = answers k b + of_bool (ADamage = k)"
  "answers k (onDetailResponse E pl b) = answers k b + of_bool (ADetail = k)"
  "answers k (onRidesResponse E pl b) = answers k b + of_bool (ARides = k)"
  by (simp_all add: reply_defs Let_def split: option.split)

lemma reply_flight: "in_flight (handleFrame E e pl b) = in_flight b"
  by (simp add: handleFrame_def reply_defs Let_def split: option.split)

lemma handle_answers:
  assumes "isKnownResponse e"
  shows "answers k (handleFrame E e pl b) = answers k b + of_bool (req_answer (rspToReq e) = Some k)"
  using assms unfolding isKnownResponse_def
  by (elim insertE emptyE) (simp_all add: handleFrame_def reply_answers rspToReq_def)

lemma erase_counts:
  assumes "distinct (map fst h)" "map_of h r = Some v"
  shows "length (filter P h) = length (filter P (hash_erase r h)) + of_bool (P (r, v))"
  using assms
proof (induction h)
  case (Cons x h)
  then show ?case
    by (cases "fst x = r") (auto simp: hash_erase_def erase_absent map_of_eq_None_iff split: if_splits)
qed simp

lemma frame_counts:
  assumes "flight_ok b"
  shows "answers k (onFrameReady E e s pl b) + waiting k (onFrameReady E e s pl b) = answers k b + waiting k b"
    and "flight_ok (onFrameReady E e s pl b)"
proof -
  let ?r = "rspToReq e"
  let ?b = "b\<lparr>in_flight := hash_erase ?r (in_flight b)\<rparr>"
  have "distinct (map fst (hash_erase ?r (in_flight b)))"
    using assms by (simp add: flight_ok_def hash_erase_def distinct_map_filter)
  then have f: "flight_ok (handleFrame E e pl ?b)" by (simp add: flight_ok_def reply_flight)
  have "waiting k b = waiting k (handleFrame E e pl ?b) + of_bool (req_answer ?r = Some k)"
    if "map_of (in_flight b) ?r = Some v" for v
    using erase_counts [OF _ that, of "\<lambda>(r, v). req_answer r = Some k"] assms
    by (simp add: waiting_def reply_flight flight_ok_def)
  with f assms show "answers k (onFrameReady E e s pl b) + waiting k (onFrameReady E e s pl b) = answers k b + waiting k b"
    and "flight_ok (onFrameReady E e s pl b)"
    by (simp_all add: onFrameReady_def handle_answers split: option.split)
qed

lemma run_counts:
  assumes "order_ok E" "flight_ok b"
  shows "answers k (bridge_run E evs b) + waiting k (bridge_run E evs b) =
      answers k b + waiting k b + length (filter (\<lambda>ev. event_answer ev = Some k) evs) \<and>
    flight_ok (bridge_run E evs b)"
  using assms(2)
proof (induction evs arbitrary: b)
  case (Cons ev evs)
  have "answers k (bridge_step E ev b) + waiting k (bridge_step E ev b) =
      answers k b + waiting k b + of_bool (event_answer ev = Some k) \<and> flight_ok (bridge_step E ev b)"
    using Cons.prems assms(1) by (cases ev) (simp_all add: call_counts call_flight link_counts frame_counts)
  with Cons.IH [of "bridge_step E ev b"] show ?case by (simp add: bridge_run_def)
qed (simp add: bridge_run_def)

text \<open>
  Property C20: every call is answered exactly once. Whatever the user asks, whenever the
  connection goes up and down and whatever frames come in, the number of answers of each kind
  is the number of calls that expect one, less the requests still in flight; no request id is
  in flight twice.
\<close>

theorem calls_answered_once:
  assumes "order_ok E" "b = bridge_run E evs (bridge0 st)"
  shows "length (filter (\<lambda>ev. event_answer ev = Some k) evs) = answers k b + waiting k b \<and>
    distinct (map fst (in_flight b))"
  using run_counts [OF assms(1), of "bridge0 st" k evs] assms(2)
  by (simp add: bridge0_def flight_ok_def answers_def waiting_def)

subsection \<open>The two threads of the client\<close>

text \<open>
  The constructor of \<open>ApiBridge\<close> connects the signals of the two objects through queues: the
  frames the bridge has requested and the signals the worker has emitted are handled in order,
  each at some later time. \<open>cl_sent\<close> and \<open>cl_seen\<close> count those handled so far.
\<close>

record ('s, 'st) Client =
  cl_worker :: "'s TcpWorker"
  cl_bridge :: "'st ApiBridge"
  cl_sent :: nat
  cl_seen :: nat

definition client0 :: "'st \<Rightarrow> ('s, 'st) Client" where
  "client0 st = \<lparr>cl_worker = worker0, cl_bridge = bridge0 st, cl_sent = 0, cl_seen = 0\<rparr>"

definition sends :: "'st ApiBridge \<Rightarrow> (u16 \<times> u32 \<times> bytes) list" where
  "sends b = concat (map (\<lambda>sg. case sg of RequestSend e s pl \<Rightarrow> [(e, s, pl)] | _ \<Rightarrow> []) (signals b))"

fun worker_signal :: "'st ClientEnv \<Rightarrow> WorkerSignal \<Rightarrow> 'st ApiBridge \<Rightarrow> 'st ApiBridge" where
  "worker_signal E Connected b = onWorkerConnected E b"
| "worker_signal E Disconnected b = onWorkerDisconnected E ''connection closed'' b"
| "worker_signal E (FrameReady f) b = onFrameReady E (fr_event_id f) (fr_seq f) (fr_payload f) b"
| "worker_signal E ErrorOccurred b = b"

inductive client_step :: "'s QTcpSocket \<Rightarrow> 'st ClientEnv \<Rightarrow> ('s, 'st) Client \<Rightarrow> ('s, 'st) Client \<Rightarrow> bool" for q E where
  ui_call: "client_step q E c (c\<lparr>cl_bridge := api_call E call (cl_bridge c)\<rparr>)"
| net: "net_step q (cl_worker c) w \<Longrightarrow> client_step q E c (c\<lparr>cl_worker := w\<rparr>)"
| to_worker: "cl_sent c < length (sends (cl_bridge c)) \<Longrightarrow> sends (cl_bridge c) ! cl_sent c = (e, s, pl) \<Longrightarrow>
    client_step q E c (c\<lparr>cl_worker := sendFrame q e s pl (cl_worker c), cl_sent := Suc (cl_sent c)\<rparr>)"
| to_bridge: "cl_seen c < length (emitted (cl_worker c)) \<Longrightarrow>
    client_step q E c (c\<lparr>cl_bridge := worker_signal E (emitted (cl_worker c) ! cl_seen c) (cl_bridge c),
      cl_seen := Suc (cl_seen c)\<rparr>)"

text \<open>Each object makes only steps of its own, so the results about them alone hold here.\<close>

lemma worker_signal_run: "\<exists>evs. worker_signal E sg b = bridge_run E evs b"
proof (cases sg)
  case Connected
  then show ?thesis by (intro exI [of _ "[LinkUp]"]) (simp add: bridge_run_def)
next
  case Disconnected
  then show ?thesis by (intro exI [of _ "[LinkDown ''connection closed'']"]) (simp add: bridge_run_def)
next
  case (FrameReady f)
  then show ?thesis
    by (intro exI [of _ "[Reply (fr_event_id f) (fr_seq f) (fr_payload f)]"]) (simp add: bridge_run_def)
next
  case ErrorOccurred
  then show ?thesis by (intro exI [of _ "[]"]) (simp add: bridge_run_def)
qed

lemma bridge_run_trans: "bridge_run E evs' (bridge_run E evs b) = bridge_run E (evs @ evs') b"
  by (simp add: bridge_run_def)

lemma client_parts:
  assumes "(client_step q E)\<^sup>*\<^sup>* (client0 st) c"
  shows "(worker_step q)\<^sup>*\<^sup>* worker0 (cl_worker c) \<and> (\<exists>evs. cl_bridge c = bridge_run E evs (bridge0 st))"
  using assms
proof induction
  case base
  show ?case by (auto simp: client0_def bridge_run_def intro: exI [of _ "[]"])
next
  case (step y z)
  then obtain evs where evs: "cl_bridge y = bridge_run E evs (bridge0 st)" by blast
  from step.hyps(2) show ?case
  proof cases
    case (ui_call call)
    have "cl_bridge z = bridge_run E (evs @ [Call call]) (bridge0 st)"
      using ui_call evs by (simp add: bridge_run_def)
    with step.IH ui_call show ?thesis by auto
  next
    case (net w)
    then have "worker_step q (cl_worker y) (cl_worker z)" by (simp add: worker_step_def)
    with step.IH net show ?thesis by (auto intro: rtranclp.rtrancl_into_rtrancl)
  next
    case (to_worker e s pl)
    then have "worker_step q (cl_worker y) (cl_worker z)" by (auto simp: worker_step_def)
    with step.IH to_worker show ?thesis by (auto intro: rtranclp.rtrancl_into_rtrancl)
  next
    case to_bridge
    obtain evs' where "cl_bridge z = bridge_run E evs' (cl_bridge y)"
      using worker_signal_run [of E "emitted (cl_worker y) ! cl_seen y" "cl_bridge y"] to_bridge by auto
    with evs have "cl_bridge z = bridge_run E (evs @ evs') (bridge0 st)" by (simp add: bridge_run_trans)
    with step.IH to_bridge show ?thesis by auto
  qed
qed

subsection \<open>Sequence numbers start again\<close>

definition demo_up :: "(SocketState \<times> bytes) TcpWorker" where
  "demo_up = worker0\<lparr>tw_host := ''h'', tw_port := 8888, tw_sock := Some (ConnectedState, []), emitted := [Connected]\<rparr>"

lemma demo_connects:
  "connectToServer demo_socket ''h'' 8888 worker0 =
     worker0\<lparr>tw_host := ''h'', tw_port := 8888, connecting := True, tw_sock := Some (ConnectingState, [])\<rparr>"
  "onConnected demo_socket (worker0\<lparr>tw_host := ''h'', tw_port := 8888, connecting := True,
     tw_sock := Some (ConnectedState, [])\<rparr>) = demo_up"
  by (simp_all add: onConnected_def flushPending_def connectToServer_def connectSocket_def ensureSocket_def
      worker0_def demo_up_def demo_socket_def has_state_def emit_def kBackoffInitMs_def)

lemma demo_send:
  assumes "frame_fits \<lparr>fr_event_id = e, fr_seq = s, fr_payload = pl\<rparr>" "tw_sock w = Some (ConnectedState, out)"
  shows "sendFrame demo_socket e s pl w =
    w\<lparr>tw_sock := Some (ConnectedState, out @ wire \<lparr>fr_event_id = e, fr_seq = s, fr_payload = pl\<rparr>)\<rparr>"
proof -
  have "encode \<lparr>fr_event_id = e, fr_seq = s, fr_payload = pl\<rparr> = Inr (wire \<lparr>fr_event_id = e, fr_seq = s, fr_payload = pl\<rparr>)"
    using assms(1) by (simp add: encode_Inr)
  with assms(2) show ?thesis by (simp add: sendFrame_def has_state_def demo_socket_def)
qed

definition login_payload :: "'st ClientEnv \<Rightarrow> string \<Rightarrow> int \<Rightarrow> bytes" where
  "login_payload E m i = ser_login_request E \<lparr>login_request_mobile = m, login_request_icode = i\<rparr>"

abbreviation login_frame :: "'st ClientEnv \<Rightarrow> string \<Rightarrow> int \<Rightarrow> Frame" where
  "login_frame E m i \<equiv> \<lparr>fr_event_id = 3, fr_seq = 1, fr_payload = login_payload E m i\<rparr>"

lemma login_sends:
  assumes "in_flight b = []" "seq_counter b = 0"
  shows "api_login E m i b = b\<lparr>pending_mobile := m, seq_counter := 1, in_flight := [(3, 1)],
    signals := signals b @ [RequestSend 3 1 (login_payload E m i)]\<rparr>"
  using assms by (simp add: api_login_def beginRequest_def sendRequest_def nextSeq_def hash_insert_def emit_api_def
      login_payload_def Let_def)

lemma link_up_fails_login:
  assumes "order_ok E" "in_flight b = [(3, 1)]"
  shows "onWorkerConnected E b = b\<lparr>seq_counter := 0, in_flight := [], link_up := True,
    signals := signals b @ [LoginResult False msg_relinked, LinkStateChanged]\<rparr>"
proof -
  have "mset (hash_order E [(3, 1)]) = mset [(3, 1)]" using assms(1) unfolding order_ok_def by (rule spec)
  then have "hash_order E [(3, 1)] = [(3, 1)]" by (simp add: mset_single_iff)
  with assms(2) show ?thesis
    by (simp add: onWorkerConnected_def failInFlight_def fail_signal_def emit_api_def)
qed

text \<open>The states on the way: the bridge after the first attempt, after it heard of the
  connection and after the second attempt, and the worker with a stream of bytes written.\<close>

definition mix1 :: "'st ClientEnv \<Rightarrow> 'st \<Rightarrow> string \<Rightarrow> int \<Rightarrow> 'st ApiBridge" where
  "mix1 E st m i = (bridge0 st)\<lparr>pending_mobile := m, seq_counter := 1, in_flight := [(3, 1)],
     signals := [RequestSend 3 1 (login_payload E m i)]\<rparr>"

definition mix2 :: "'st ClientEnv \<Rightarrow> 'st \<Rightarrow> string \<Rightarrow> int \<Rightarrow> 'st ApiBridge" where
  "mix2 E st m i = (mix1 E st m i)\<lparr>seq_counter := 0, in_flight := [], link_up := True,
     signals := [RequestSend 3 1 (login_payload E m i), LoginResult False msg_relinked, LinkStateChanged]\<rparr>"

definition mix3 :: "'st ClientEnv \<Rightarrow> 'st \<Rightarrow> string \<Rightarrow> int \<Rightarrow> string \<Rightarrow> int \<Rightarrow> 'st ApiBridge" where
  "mix3 E st m i m' i' = (mix2 E st m i)\<lparr>pending_mobile := m', seq_counter := 1, in_flight := [(3, 1)],
     signals := signals (mix2 E st m i) @ [RequestSend 3 1 (login_payload E m' i')]\<rparr>"

definition demo_wrote :: "bytes \<Rightarrow> (SocketState \<times> bytes) TcpWorker" where
  "demo_wrote out = demo_up\<lparr>tw_sock := Some (ConnectedState, out)\<rparr>"

abbreviation mk_client :: "'s TcpWorker \<Rightarrow> 'st ApiBridge \<Rightarrow> nat \<Rightarrow> nat \<Rightarrow> ('s, 'st) Client" where
  "mk_client w b i j \<equiv> \<lparr>cl_worker = w, cl_bridge = b, cl_sent = i, cl_seen = j\<rparr>"

lemma mix_bridge:
  "api_login E m i (bridge0 st) = mix1 E st m i" "api_login E m' i' (mix2 E st m i) = mix3 E st m i m' i'"
  "order_ok E \<Longrightarrow> onWorkerConnected E (mix1 E st m i) = mix2 E st m i"
  using login_sends [of "bridge0 st" E m i] login_sends [of "mix2 E st m i" E m' i']
    link_up_fails_login [of E "mix1 E st m i"]
  by (simp_all add: mix1_def mix2_def mix3_def bridge0_def)

lemma mix_connected:
  "(client_step demo_socket E)\<^sup>*\<^sup>* (client0 st) (mk_client (demo_wrote []) (bridge0 st) 0 0)"
proof -
  let ?w = "worker0\<lparr>tw_host := ''h'', tw_port := 8888, connecting := True, tw_sock := Some (ConnectingState, [])\<rparr>
    :: (SocketState \<times> bytes) TcpWorker"
  have "sock_state demo_socket = fst" "sock_sent demo_socket = snd" "demo_up = demo_wrote []"
    by (simp_all add: demo_socket_def demo_wrote_def demo_up_def)
  then have n: "net_step demo_socket worker0 ?w" "net_step demo_socket ?w (demo_wrote [])"
    using user_connect [of demo_socket worker0 "''h''" 8888] demo_connects
      sig_connected [of ?w "(ConnectingState, [])" demo_socket "(ConnectedState, [])"]
    by simp_all
  have "client_step demo_socket E (client0 st) (mk_client ?w (bridge0 st) 0 0)"
    "client_step demo_socket E (mk_client ?w (bridge0 st) 0 0) (mk_client (demo_wrote []) (bridge0 st) 0 0)"
    using net [of demo_socket "client0 st" ?w E] net [of demo_socket "mk_client ?w (bridge0 st) 0 0" "demo_wrote []" E] n
    by (simp_all add: client0_def)
  then show ?thesis by (rule converse_rtranclp_into_rtranclp [OF _ r_into_rtranclp])
qed

lemma mix_send:
  assumes "frame_fits \<lparr>fr_event_id = e, fr_seq = s, fr_payload = pl\<rparr>" "i < length (sends b)" "sends b ! i = (e, s, pl)"
  shows "client_step demo_socket E (mk_client (demo_wrote out) b i j)
    (mk_client (demo_wrote (out @ wire \<lparr>fr_event_id = e, fr_seq = s, fr_payload = pl\<rparr>)) b (Suc i) j)"
  using to_worker [of "mk_client (demo_wrote out) b i j" e s pl demo_socket E] assms(2,3)
    demo_send [OF assms(1), of "demo_wrote out" out]
  by (simp add: demo_wrote_def)

lemma mix_reached:
  assumes "order_ok E" "frame_fits (login_frame E m i)" "frame_fits (login_frame E m' i')"
  shows "(client_step demo_socket E)\<^sup>*\<^sup>* (client0 st)
    (mk_client (demo_wrote (wire (login_frame E m i) @ wire (login_frame E m' i'))) (mix3 E st m i m' i') 2 1)"
proof -
  let ?S = "client_step demo_socket E" and ?f = "wire (login_frame E m i)"
  have s1: "?S (mk_client (demo_wrote []) (bridge0 st) 0 0) (mk_client (demo_wrote []) (mix1 E st m i) 0 0)"
    using ui_call [of demo_socket E "mk_client (demo_wrote []) (bridge0 st) 0 0" "Login m i"] by (simp add: mix_bridge)
  have s2: "?S (mk_client (demo_wrote []) (mix1 E st m i) 0 0) (mk_client (demo_wrote ?f) (mix1 E st m i) 1 0)"
    using mix_send [OF assms(2), of 0 "mix1 E st m i" E "[]" 0] by (simp add: sends_def mix1_def)
  have s3: "?S (mk_client (demo_wrote ?f) (mix1 E st m i) 1 0) (mk_client (demo_wrote ?f) (mix2 E st m i) 1 1)"
    using to_bridge [of "mk_client (demo_wrote ?f) (mix1 E st m i) 1 0" demo_socket E] mix_bridge(3) [OF assms(1)]
    by (simp add: demo_wrote_def demo_up_def)
  have s4: "?S (mk_client (demo_wrote ?f) (mix2 E st m i) 1 1) (mk_client (demo_wrote ?f) (mix3 E st m i m' i') 1 1)"
    using ui_call [of demo_socket E "mk_client (demo_wrote ?f) (mix2 E st m i) 1 1" "Login m' i'"] by (simp add: mix_bridge)
  have s5: "?S (mk_client (demo_wrote ?f) (mix3 E st m i m' i') 1 1)
    (mk_client (demo_wrote (?f @ wire (login_frame E m' i'))) (mix3 E st m i m' i') 2 1)"
    using mix_send [OF assms(3), of 1 "mix3 E st m i m' i'" E ?f 1]
    by (simp add: sends_def mix3_def mix2_def numeral_2_eq_2)
  note r = rtranclp.rtrancl_into_rtrancl
  show ?thesis by (rule r [OF r [OF r [OF r [OF r [OF mix_connected s1] s2] s3] s4] s5])
qed

text \<open>
  Property C21: replies can be mixed up after a connection is made. The sequence numbers start
  again when the user interface hears of the connection, but a request made just before is
  already on that connection. It is reported as failed; when the user tries again, both
  requests carry the same id and the same number, and the reply to the first is taken for the
  reply to the second: the client holds the session of the first mobile number and shows the
  second.
\<close>

theorem login_mixup:
  assumes "order_ok E" "frame_fits (login_frame E m1 i1)" "frame_fits (login_frame E m2 i2)"
    and "parse_login_response E pl = Some rsp" "login_response_code rsp = 200" "login_response_token rsp \<noteq> []"
  shows "\<exists>c. (client_step demo_socket E)\<^sup>*\<^sup>* (client0 st) c \<and>
    tw_sock (cl_worker c) = Some (ConnectedState, wire (login_frame E m1 i1) @ wire (login_frame E m2 i2)) \<and>
    br_token (onFrameReady E 4 1 pl (cl_bridge c)) = login_response_token rsp \<and>
    br_mobile (onFrameReady E 4 1 pl (cl_bridge c)) = m2"
proof -
  let ?b = "mix3 E st m1 i1 m2 i2"
  have "onFrameReady E 4 1 pl ?b = onLoginResponse E pl (?b\<lparr>in_flight := []\<rparr>)"
    by (simp add: onFrameReady_def isKnownResponse_def rspToReq_def handleFrame_def hash_erase_def mix3_def)
  with mix_reached [OF assms(1-3), of st] assms(4-6) show ?thesis
    by (intro exI [of _ "mk_client (demo_wrote (wire (login_frame E m1 i1) @ wire (login_frame E m2 i2))) ?b 2 1"])
      (simp add: demo_wrote_def onLoginResponse_def emit_api_def mix3_def)
qed

text \<open>An environment in which every reply is a successful login.\<close>

definition demo_client_env :: "unit ClientEnv" where
  "demo_client_env = \<lparr>ser_mobile_request = (\<lambda>m. []), ser_login_request = (\<lambda>m. []), ser_recharge_request = (\<lambda>m. []),
     ser_account_balance_request = (\<lambda>m. []), ser_list_records_request = (\<lambda>m. []), ser_nearby_request = (\<lambda>m. []),
     ser_scan_request = (\<lambda>m. []), ser_position_report = (\<lambda>m. []), ser_end_request = (\<lambda>m. []),
     ser_damage_request = (\<lambda>m. []), ser_detail_request = (\<lambda>m. []), ser_list_rides_request = (\<lambda>m. []),
     parse_mobile_response = (\<lambda>b. None),
     parse_login_response = (\<lambda>b. Some \<lparr>login_response_code = 200, login_response_desc = [], login_response_token = ''t''\<rparr>),
     parse_recharge_response = (\<lambda>b. None), parse_account_balance_response = (\<lambda>b. None),
     parse_list_records_response = (\<lambda>b. None), parse_nearby_response = (\<lambda>b. None),
     parse_scan_response = (\<lambda>b. None), parse_end_response = (\<lambda>b. None), parse_damage_response = (\<lambda>b. None),
     parse_detail_response = (\<lambda>b. None), parse_list_rides_response = (\<lambda>b. None),
     settings_value = (\<lambda>k s. []), settings_set = (\<lambda>k v s. s), settings_remove = (\<lambda>k s. s), hash_order = rev\<rparr>"

lemma demo_order: "order_ok demo_client_env"
  by (simp add: order_ok_def demo_client_env_def)

theorem calls_answered_once_witness:
  "length (filter (\<lambda>ev. event_answer ev = Some ALogin) [Call (Login ''1'' 2), Call (Login ''1'' 3), LinkUp]) =
     answers ALogin (bridge_run demo_client_env [Call (Login ''1'' 2), Call (Login ''1'' 3), LinkUp] (bridge0 ())) +
     waiting ALogin (bridge_run demo_client_env [Call (Login ''1'' 2), Call (Login ''1'' 3), LinkUp] (bridge0 ()))"
  using calls_answered_once [OF demo_order refl, of ALogin "[Call (Login ''1'' 2), Call (Login ''1'' 3), LinkUp]" "()"]
  by blast

theorem login_mixup_witness:
  "\<exists>c. (client_step demo_socket demo_client_env)\<^sup>*\<^sup>* (client0 ()) c \<and>
    br_token (onFrameReady demo_client_env 4 1 [] (cl_bridge c)) = ''t'' \<and>
    br_mobile (onFrameReady demo_client_env 4 1 [] (cl_bridge c)) = ''2''"
proof -
  have f: "frame_fits (login_frame demo_client_env m i)" for m i
    by (simp add: frame_fits_def login_payload_def demo_client_env_def kMaxMessageLen_def)
  have p: "parse_login_response demo_client_env [] =
      Some \<lparr>login_response_code = 200, login_response_desc = [], login_response_token = ''t''\<rparr>"
    by (simp add: demo_client_env_def)
  from login_mixup [OF demo_order f [of "''1''" 1] f [of "''2''" 2] p, of "()"] show ?thesis by auto
qed

end
