(* ===== verification/ClientRide.thy ===== *)
theory ClientRide
  imports Common
begin

text \<open>
  The client's simulated ride (client/src/trajectory_sim.cpp, trajectory_model.cpp) and its
  source of positions (client/src/location_provider.cpp). The random numbers are a parameter:
  the first two draws, from two intervals, of a generator with a given seed. The positioning
  service of Qt is what its signals report.
\<close>

subsection \<open>More of the standard library\<close>

fun dasin :: "dbl \<Rightarrow> dbl" where
  "dasin (Num x) = (if \<bar>x\<bar> \<le> 1 then Num (arcsin x) else NaN)"
| "dasin a = NaN"

text \<open>\<open>std::fmod\<close>: the quotient is truncated towards zero.\<close>

fun dfmod :: "dbl \<Rightarrow> dbl \<Rightarrow> dbl" where
  "dfmod (Num x) (Num y) =
     (if y = 0 then NaN else Num (x - y * of_int (if 0 \<le> x / y then \<lfloor>x / y\<rfloor> else \<lceil>x / y\<rceil>)))"
| "dfmod (Num x) (Inf q) = Num x"
| "dfmod a b = NaN"

subsection \<open>Simulated trajectory\<close>

definition kMinSpeedKmh :: real where "kMinSpeedKmh = 8"
definition kMaxSpeedKmh :: real where "kMaxSpeedKmh = 15"
definition kBearingJitterDeg :: real where "kBearingJitterDeg = 15"

definition advance :: "dbl \<Rightarrow> dbl \<Rightarrow> dbl \<Rightarrow> dbl \<Rightarrow> dbl \<times> dbl" where
  "advance lat_deg lng_deg bearing_deg dist_m =
     (let lat1 = ddiv (dmul lat_deg (Num kPi)) (Num 180);
          lng1 = ddiv (dmul lng_deg (Num kPi)) (Num 180);
          brg = ddiv (dmul bearing_deg (Num kPi)) (Num 180);
          dr = ddiv dist_m (Num kEarthRadiusM);
          lat2 = dasin (dadd (dmul (dsin lat1) (dcos dr)) (dmul (dmul (dcos lat1) (dsin dr)) (dcos brg)));
          lng2 = dadd lng1 (datan2 (dmul (dmul (dsin brg) (dsin dr)) (dcos lat1))
                                   (dsub (dcos dr) (dmul (dsin lat1) (dsin lat2))))
      in (ddiv (dmul lat2 (Num 180)) (Num kPi), ddiv (dmul lng2 (Num 180)) (Num kPi)))"

record TrajectorySim =
  ts_seed :: u32
  speed_mps :: dbl
  bearing_deg :: dbl
  ts_current :: "dbl \<times> dbl"
  distance_m :: dbl
  ts_seq :: int
  ts_started :: bool

text \<open>\<open>draw s lo hi lo' hi'\<close>: the numbers drawn from the intervals \<open>lo..hi\<close> and \<open>lo'..hi'\<close>, in this
  order, with a generator of seed \<open>s\<close>. Speed and bearing have no value before \<open>start\<close>.\<close>

type_synonym draw2 = "u32 \<Rightarrow> real \<Rightarrow> real \<Rightarrow> real \<Rightarrow> real \<Rightarrow> real \<times> real"

definition mk_sim :: "dbl \<Rightarrow> dbl \<Rightarrow> u32 \<Rightarrow> TrajectorySim" where
  "mk_sim garbage1 garbage2 seed = \<lparr>ts_seed = seed, speed_mps = garbage1, bearing_deg = garbage2,
     ts_current = (Num 0, Num 0), distance_m = Num 0, ts_seq = 0, ts_started = False\<rparr>"

definition sim_start :: "draw2 \<Rightarrow> dbl \<Rightarrow> dbl \<Rightarrow> TrajectorySim \<Rightarrow> TrajectorySim" where
  "sim_start draw lat0 lng0 t =
     (let (spd, brg) = draw (ts_seed t) kMinSpeedKmh kMaxSpeedKmh 0 360
      in t\<lparr>speed_mps := ddiv (dmul (Num spd) (Num 1000)) (Num 3600), bearing_deg := Num brg,
           ts_current := (lat0, lng0), distance_m := Num 0, ts_seq := 0, ts_started := True\<rparr>)"

definition sim_step :: "draw2 \<Rightarrow> TrajectorySim \<Rightarrow> (dbl \<times> dbl) \<times> TrajectorySim" where
  "sim_step draw t =
     (if \<not> ts_started t then (ts_current t, t)
      else
        let (jit, spd) = draw (ts_seed t + word_of_int (ts_seq t) + 1)
              (- kBearingJitterDeg) kBearingJitterDeg kMinSpeedKmh kMaxSpeedKmh;
            brg = dfmod (dadd (dadd (bearing_deg t) (Num jit)) (Num 360)) (Num 360);
            v = ddiv (dmul (Num spd) (Num 1000)) (Num 3600);
            next = advance (fst (ts_current t)) (snd (ts_current t)) brg v;
            seg = haversine_m (fst (ts_current t)) (snd (ts_current t)) (fst next) (snd next);
            t' = t\<lparr>bearing_deg := brg, speed_mps := v, distance_m := dadd (distance_m t) seg,
                   ts_current := next, ts_seq := ts_seq t + 1\<rparr>
        in (ts_current t', t'))"

datatype RideSignal = StateChanged | Tick dbl dbl int int dbl

record TrajectoryModel =
  tm_timer :: bool
  tm_sim :: TrajectorySim
  tm_ride_no :: string
  tm_elapsed :: int
  tm_active :: bool
  tm_signals :: "RideSignal list"

definition mk_model :: "dbl \<Rightarrow> dbl \<Rightarrow> TrajectoryModel" where
  "mk_model g1 g2 = \<lparr>tm_timer = False, tm_sim = mk_sim g1 g2 0, tm_ride_no = [], tm_elapsed = 0, tm_active = False,
     tm_signals = []\<rparr>"

definition model_start ::
  "draw2 \<Rightarrow> dbl \<Rightarrow> dbl \<Rightarrow> string \<Rightarrow> dbl \<Rightarrow> dbl \<Rightarrow> u32 \<Rightarrow> TrajectoryModel \<Rightarrow> TrajectoryModel" where
  "model_start draw g1 g2 ride_no lat lng seed m =
     m\<lparr>tm_active := True, tm_ride_no := ride_no, tm_elapsed := 0,
       tm_sim := sim_start draw lat lng (mk_sim g1 g2 seed),
       tm_signals := tm_signals m @ [StateChanged], tm_timer := True\<rparr>"

definition model_stop :: "TrajectoryModel \<Rightarrow> TrajectoryModel" where
  "model_stop m =
     (if \<not> tm_active m then m
      else m\<lparr>tm_timer := False, tm_active := False, tm_signals := tm_signals m @ [StateChanged]\<rparr>)"

definition onTick :: "draw2 \<Rightarrow> TrajectoryModel \<Rightarrow> TrajectoryModel" where
  "onTick draw m =
     (if \<not> tm_active m then m
      else
        let el = tm_elapsed m + 1; (p, sim) = sim_step draw (tm_sim m)
        in m\<lparr>tm_elapsed := el, tm_sim := sim,
             tm_signals := tm_signals m @ [Tick (fst p) (snd p) (ts_seq sim) el (distance_m sim)]\<rparr>)"

subsection \<open>Moving and measuring\<close>

text \<open>\<open>atan2\<close> gives the angle of a vector.\<close>

lemma atan2_polar:
  assumes "x\<^sup>2 + y\<^sup>2 = r\<^sup>2" "0 \<le> r"
  shows "r * cos (atan2 y x) = x \<and> r * sin (atan2 y x) = y"
proof (cases "x = 0")
  case True
  then have "\<bar>y\<bar> = r" using assms by (auto simp: power2_eq_iff)
  with True show ?thesis by (auto simp: atan2_def)
next
  case False
  have "1 + (y / x)\<^sup>2 = (r / \<bar>x\<bar>)\<^sup>2" using assms(1) False by (simp add: field_simps)
  then have s: "sqrt (1 + (y / x)\<^sup>2) = r / \<bar>x\<bar>" using assms(2) by (simp add: real_sqrt_unique)
  have "0 < x\<^sup>2 + y\<^sup>2" using False by (simp add: sum_power2_gt_zero_iff)
  then have r: "0 < r" using assms by (simp add: zero_less_power2 less_le)
  show ?thesis
  proof (cases "0 < x")
    case True
    with s r show ?thesis by (simp add: atan2_def cos_arctan sin_arctan)
  next
    case x: False
    have "r * cos (arctan (y / x)) = - x" "r * sin (arctan (y / x)) = - y"
      using s r x False by (simp_all add: cos_arctan sin_arctan)
    with x False show ?thesis by (simp add: atan2_def sin_diff cos_diff)
  qed
qed

text \<open>The destination of a move on the sphere, in radians: its longitude differs by the angle
  of a vector whose length is the product of the cosines of the latitudes.\<close>

lemma move_norm:
  fixes f d k :: real
  defines "s2 \<equiv> sin f * cos d + cos f * sin d * cos k"
  shows "(cos d - sin f * s2)\<^sup>2 + (sin k * sin d * cos f)\<^sup>2 = (cos f)\<^sup>2 * (1 - s2\<^sup>2)" "\<bar>s2\<bar> \<le> 1"
proof -
  have k: "(sin k)\<^sup>2 = 1 - (cos k)\<^sup>2" "(sin f)\<^sup>2 = 1 - (cos f)\<^sup>2" "(sin d)\<^sup>2 = 1 - (cos d)\<^sup>2"
    by (simp_all add: sin_squared_eq)
  show "(cos d - sin f * s2)\<^sup>2 + (sin k * sin d * cos f)\<^sup>2 = (cos f)\<^sup>2 * (1 - s2\<^sup>2)"
    unfolding s2_def using k by algebra
  show "\<bar>s2\<bar> \<le> 1"
    using cos_angle_bound [of "cos k" f "pi / 2 - d"] by (simp add: s2_def sin_diff cos_diff)
qed

lemma move_distance:
  fixes f d k :: real
  defines "f2 \<equiv> arcsin (sin f * cos d + cos f * sin d * cos k)"
  defines "dl \<equiv> atan2 (sin k * sin d * cos f) (cos d - sin f * sin f2)"
  assumes "0 \<le> cos f"
  shows "sin ((f2 - f) / 2) * sin ((f2 - f) / 2) + cos f * cos f2 * sin (dl / 2) * sin (dl / 2) = (sin (d / 2))\<^sup>2"
proof -
  let ?s2 = "sin f * cos d + cos f * sin d * cos k"
  have s2: "sin f2 = ?s2" "cos f2 = sqrt (1 - ?s2\<^sup>2)"
    using move_norm(2) [of f d k] by (simp_all add: f2_def abs_le_iff cos_arcsin)
  have nn: "0 \<le> 1 - ?s2\<^sup>2" using move_norm(2) [of f d k] by (simp add: abs_square_le_1)
  have half: "sin (x / 2) * sin (x / 2) = (1 - cos x) / 2" for x :: real
    using cos_double_sin [of "x / 2"] by (simp add: power2_eq_square)
  have "cos f * cos f2 * cos dl = cos d - sin f * sin f2"
  proof -
    have "(cos d - sin f * sin f2)\<^sup>2 + (sin k * sin d * cos f)\<^sup>2 = (cos f * cos f2)\<^sup>2"
      using move_norm(1) [of d f k] s2 nn by (simp add: power_mult_distrib)
    moreover have "0 \<le> cos f * cos f2" using assms(3) nn s2(2) by simp
    ultimately show ?thesis unfolding dl_def using atan2_polar by blast
  qed
  then have "sin ((f2 - f) / 2) * sin ((f2 - f) / 2) + cos f * cos f2 * (sin (dl / 2) * sin (dl / 2)) = (1 - cos d) / 2"
    unfolding half cos_diff by (simp add: field_simps)
  then show ?thesis using half [of d] by (simp add: power2_eq_square mult.assoc)
qed

lemma atan2_half:
  assumes "0 \<le> d" "d \<le> pi"
  shows "2 * atan2 (sqrt ((sin (d / 2))\<^sup>2)) (sqrt (1 - (sin (d / 2))\<^sup>2)) = d"
proof -
  have s: "0 \<le> sin (d / 2)" "0 \<le> cos (d / 2)" using assms by (simp_all add: sin_ge_zero cos_ge_zero)
  have e: "sqrt ((sin (d / 2))\<^sup>2) = sin (d / 2)" "sqrt (1 - (sin (d / 2))\<^sup>2) = cos (d / 2)"
    using s by (simp_all add: cos_squared_eq [symmetric])
  show ?thesis
  proof (cases "d = pi")
    case True
    then show ?thesis unfolding e by (simp add: atan2_def)
  next
    case False
    then have "0 < cos (d / 2)" "arctan (tan (d / 2)) = d / 2"
      using assms by (simp_all add: cos_gt_zero_pi arctan_tan)
    then show ?thesis unfolding e by (simp add: atan2_def tan_def)
  qed
qed

lemma kPi_pos [simp]: "kPi \<noteq> 0" by (simp add: kPi_def)

lemma advance_haversine:
  assumes "0 \<le> v" "v \<le> kEarthRadiusM * pi" "0 \<le> cos (lat * kPi / 180)"
  shows "\<exists>lat2 lng2. advance (Num lat) (Num lng) (Num brg) (Num v) = (Num lat2, Num lng2) \<and>
    haversine_m (Num lat) (Num lng) (Num lat2) (Num lng2) = Num v \<and> 0 \<le> cos (lat2 * kPi / 180)"
proof -
  define f d k where "f = lat * kPi / 180" and "d = v / kEarthRadiusM" and "k = brg * kPi / 180"
  define f2 where "f2 = arcsin (sin f * cos d + cos f * sin d * cos k)"
  define dl where "dl = atan2 (sin k * sin d * cos f) (cos d - sin f * sin f2)"
  let ?lat2 = "f2 * 180 / kPi" and ?lng2 = "(lng * kPi / 180 + dl) * 180 / kPi"
  have R: "0 < kEarthRadiusM" by (simp add: kEarthRadiusM_def)
  have d: "0 \<le> d" "d \<le> pi" "kEarthRadiusM * d = v" using assms(1,2) R by (simp_all add: d_def field_simps)
  have b: "\<bar>sin f * cos d + cos f * sin d * cos k\<bar> \<le> 1" by (rule move_norm(2))
  have adv: "advance (Num lat) (Num lng) (Num brg) (Num v) = (Num ?lat2, Num ?lng2)"
    using b R by (simp add: advance_def Let_def f2_def dl_def f_def d_def k_def)
  let ?a = "sin ((f2 - f) / 2) * sin ((f2 - f) / 2) + cos f * cos f2 * sin (dl / 2) * sin (dl / 2)"
  have a: "?a = (sin (d / 2))\<^sup>2"
    using move_distance [of f d k] assms(3) by (simp add: f2_def dl_def f_def)
  have rad: "(?lat2 - lat) * kPi / 180 = f2 - f" "(?lng2 - lng) * kPi / 180 = dl" "?lat2 * kPi / 180 = f2"
    by (simp_all add: f_def field_simps)
  have sq: "(sin (d / 2))\<^sup>2 \<le> 1" by (simp add: abs_square_le_1)
  have "haversine_m (Num lat) (Num lng) (Num ?lat2) (Num ?lng2) =
      Num (kEarthRadiusM * (2 * atan2 (sqrt ((sin (d / 2))\<^sup>2)) (sqrt (1 - (sin (d / 2))\<^sup>2))))"
    unfolding haversine_m_def Let_def dsub_Num to_rad_Num rad f_def [symmetric]
    using a sq by (simp add: not_less del: real_sqrt_abs)
  then have "haversine_m (Num lat) (Num lng) (Num ?lat2) (Num ?lng2) = Num v"
    using atan2_half [OF d(1,2)] d(3) by simp
  moreover have "0 \<le> cos (?lat2 * kPi / 180)"
    unfolding rad f2_def using b by (simp add: cos_arcsin abs_le_iff abs_square_le_1)
  ultimately show ?thesis using adv by blast
qed

subsection \<open>A simulated ride\<close>

definition draw_ok :: "draw2 \<Rightarrow> bool" where
  "draw_ok draw \<longleftrightarrow> (\<forall>s lo hi lo' hi'. lo < hi \<and> lo' < hi' \<longrightarrow>
     lo \<le> fst (draw s lo hi lo' hi') \<and> fst (draw s lo hi lo' hi') < hi \<and>
     lo' \<le> snd (draw s lo hi lo' hi') \<and> snd (draw s lo hi lo' hi') < hi')"

definition sim_ok :: "TrajectorySim \<Rightarrow> bool" where
  "sim_ok t \<longleftrightarrow> ts_started t \<and> (\<exists>b. bearing_deg t = Num b \<and> 0 \<le> b \<and> b < 360) \<and>
     (\<exists>lat lng. ts_current t = (Num lat, Num lng) \<and> 0 \<le> cos (lat * kPi / 180)) \<and>
     (\<exists>D. distance_m t = Num D)"

lemma fmod_360: "0 \<le> x \<Longrightarrow> \<exists>b. dfmod (Num x) (Num 360) = Num b \<and> 0 \<le> b \<and> b < 360"
  using floor_divide_lower [of 360 x] floor_divide_upper [of 360 x]
  by (intro exI [of _ "x - 360 * of_int \<lfloor>x / 360\<rfloor>"]) (simp add: algebra_simps)

lemma speed_range:
  assumes "kMinSpeedKmh \<le> s" "s < kMaxSpeedKmh"
  shows "20 / 9 \<le> s * 1000 / 3600" "s * 1000 / 3600 \<le> 25 / 6" "s * 1000 / 3600 \<le> kEarthRadiusM * pi"
proof -
  show "20 / 9 \<le> s * 1000 / 3600" "s * 1000 / 3600 \<le> 25 / 6"
    using assms by (simp_all add: kMinSpeedKmh_def kMaxSpeedKmh_def)
  then show "s * 1000 / 3600 \<le> kEarthRadiusM * pi"
    using pi_ge_two unfolding kEarthRadiusM_def by linarith
qed

lemma sim_step_ok:
  assumes "draw_ok draw" "sim_ok t"
  shows "\<exists>v D. sim_ok (snd (sim_step draw t)) \<and> distance_m t = Num D \<and>
    distance_m (snd (sim_step draw t)) = Num (D + v) \<and> speed_mps (snd (sim_step draw t)) = Num v \<and>
    20 / 9 \<le> v \<and> v \<le> 25 / 6 \<and> ts_seq (snd (sim_step draw t)) = ts_seq t + 1"
proof -
  obtain b lat lng D where t: "ts_started t" "bearing_deg t = Num b" "0 \<le> b" "b < 360"
      "ts_current t = (Num lat, Num lng)" "0 \<le> cos (lat * kPi / 180)" "distance_m t = Num D"
    using assms(2) unfolding sim_ok_def by blast
  let ?s = "ts_seed t + word_of_int (ts_seq t) + 1"
  obtain jit spd where dr: "draw ?s (- kBearingJitterDeg) kBearingJitterDeg kMinSpeedKmh kMaxSpeedKmh = (jit, spd)"
    by fastforce
  have "- kBearingJitterDeg < kBearingJitterDeg" "kMinSpeedKmh < kMaxSpeedKmh"
    by (simp_all add: kBearingJitterDeg_def kMinSpeedKmh_def kMaxSpeedKmh_def)
  then have r: "- 15 \<le> jit" "kMinSpeedKmh \<le> spd" "spd < kMaxSpeedKmh"
    using assms(1) dr unfolding draw_ok_def kBearingJitterDeg_def [symmetric] by (metis fst_conv snd_conv)+
  note v = speed_range [OF r(2,3)]
  obtain b' where b': "dfmod (Num (b + jit + 360)) (Num 360) = Num b'" "0 \<le> b'" "b' < 360"
    using fmod_360 [of "b + jit + 360"] t(3) r(1) by auto
  obtain lat2 lng2 where m: "advance (Num lat) (Num lng) (Num b') (Num (spd * 1000 / 3600)) = (Num lat2, Num lng2)"
      "haversine_m (Num lat) (Num lng) (Num lat2) (Num lng2) = Num (spd * 1000 / 3600)" "0 \<le> cos (lat2 * kPi / 180)"
    using advance_haversine [of "spd * 1000 / 3600" lat lng b'] v t(6) by auto
  have "snd (sim_step draw t) = t\<lparr>bearing_deg := Num b', speed_mps := Num (spd * 1000 / 3600),
      distance_m := Num (D + spd * 1000 / 3600), ts_current := (Num lat2, Num lng2), ts_seq := ts_seq t + 1\<rparr>"
    using t dr b'(1) m(1,2) by (simp add: sim_step_def Let_def del: dfmod.simps)
  then show ?thesis
    using t(1,7) b'(2,3) m(3) v(1,2) by (intro exI [of _ "spd * 1000 / 3600"] exI [of _ D]) (simp add: sim_ok_def)
qed

lemma tick_ok:
  assumes "draw_ok draw" "sim_ok (tm_sim m)" "tm_active m" "tm_elapsed m = ts_seq (tm_sim m)"
  shows "\<exists>v D. sim_ok (tm_sim (onTick draw m)) \<and> tm_active (onTick draw m) \<and>
    tm_elapsed (onTick draw m) = tm_elapsed m + 1 \<and> ts_seq (tm_sim (onTick draw m)) = ts_seq (tm_sim m) + 1 \<and>
    distance_m (tm_sim m) = Num D \<and> distance_m (tm_sim (onTick draw m)) = Num (D + v) \<and>
    speed_mps (tm_sim (onTick draw m)) = Num v \<and> 20 / 9 \<le> v \<and> v \<le> 25 / 6"
  using sim_step_ok [OF assms(1,2)] assms(3,4)
  by (cases "sim_step draw (tm_sim m)") (auto simp: onTick_def Let_def)

lemma china_latitude:
  assumes "is_in_china (Num lat) lng"
  shows "0 \<le> cos (lat * kPi / 180)"
proof -
  have "18 \<le> lat" "lat \<le> 54" using assms by (simp_all add: is_in_china_def)
  then have "0 \<le> lat * kPi / 180" "lat * kPi / 180 \<le> 1" by (simp_all add: kPi_def)
  then show ?thesis using pi_ge_two by (intro cos_ge_zero) linarith+
qed

lemma start_ok:
  assumes "draw_ok draw" "is_in_china (Num lat) (Num lng)"
  shows "sim_ok (sim_start draw (Num lat) (Num lng) t)"
proof -
  obtain spd brg where d: "draw (ts_seed t) kMinSpeedKmh kMaxSpeedKmh 0 360 = (spd, brg)" by fastforce
  have "kMinSpeedKmh < kMaxSpeedKmh" by (simp add: kMinSpeedKmh_def kMaxSpeedKmh_def)
  then have "0 \<le> brg" "brg < 360"
    using assms(1) d unfolding draw_ok_def by (metis snd_conv zero_less_numeral)+
  with d china_latitude [OF assms(2)] show ?thesis by (simp add: sim_ok_def sim_start_def)
qed



subsection \<open>Positions\<close>

text \<open>
  The state of the provider: whether a positioning source exists and reports periodically, the
  timer of the first fix, and the one-shot requests with their connection and timer. \<open>pf_id\<close>
  names the callback of a request; \<open>called\<close> lists the callbacks made.
\<close>

record PendingFix =
  pf_id :: nat
  pf_done :: bool
  pf_conn :: bool
  pf_timer :: bool

datatype LocSignal = PositionReady dbl dbl | LocationError string | StatusChanged

record LocationProvider =
  lp_src :: bool
  lp_updating :: bool
  lp_fix_timer :: bool
  lp_status :: string
  last_lat :: dbl
  last_lng :: dbl
  has_fix :: bool
  lp_pending :: "PendingFix list"
  lp_requests :: nat
  called :: "(nat \<times> dbl \<times> dbl) list"
  lp_signals :: "LocSignal list"

definition default_lat :: dbl where "default_lat = Num 39.9821"
definition default_lng :: dbl where "default_lng = Num 116.3145"

text \<open>The texts of the provider, as UTF-8: starting up; no positioning; no service, default
  coordinates are used; timed out; first fix timed out, still trying; position found; refused;
  no permission; positioning failed; locating.\<close>

definition loc_init :: string where
  "loc_init = [CHR 0xE5, CHR 0x88, CHR 0x9D, CHR 0xE5, CHR 0xA7, CHR 0x8B, CHR 0xE5, CHR 0x8C, CHR 0x96]"

definition loc_unavailable :: string where
  "loc_unavailable = [CHR 0xE5, CHR 0xAE, CHR 0x9A, CHR 0xE4, CHR 0xBD, CHR 0x8D, CHR 0xE4, CHR 0xB8, CHR 0x8D,
     CHR 0xE5, CHR 0x8F, CHR 0xAF, CHR 0xE7, CHR 0x94, CHR 0xA8]"

definition loc_no_service :: string where
  "loc_no_service = [CHR 0xE5, CHR 0xAE, CHR 0x9A, CHR 0xE4, CHR 0xBD, CHR 0x8D, CHR 0xE6, CHR 0x9C, CHR 0x8D,
     CHR 0xE5, CHR 0x8A, CHR 0xA1, CHR 0xE4, CHR 0xB8, CHR 0x8D, CHR 0xE5, CHR 0x8F, CHR 0xAF,
     CHR 0xE7, CHR 0x94, CHR 0xA8, CHR 0x2C, CHR 0x20, CHR 0xE4, CHR 0xBD, CHR 0xBF, CHR 0xE7,
     CHR 0x94, CHR 0xA8, CHR 0xE9, CHR 0xBB, CHR 0x98, CHR 0xE8, CHR 0xAE, CHR 0xA4, CHR 0xE5,
     CHR 0x9D, CHR 0x90, CHR 0xE6, CHR 0xA0, CHR 0x87]"

definition loc_timeout :: string where
  "loc_timeout = [CHR 0xE5, CHR 0xAE, CHR 0x9A, CHR 0xE4, CHR 0xBD, CHR 0x8D, CHR 0xE8, CHR 0xB6, CHR 0x85,
     CHR 0xE6, CHR 0x97, CHR 0xB6]"

definition loc_first_timeout :: string where
  "loc_first_timeout = [CHR 0xE9, CHR 0xA6, CHR 0x96, CHR 0xE6, CHR 0xAC, CHR 0xA1, CHR 0xE5, CHR 0xAE, CHR 0x9A,
     CHR 0xE4, CHR 0xBD, CHR 0x8D, CHR 0xE8, CHR 0xB6, CHR 0x85, CHR 0xE6, CHR 0x97, CHR 0xB6,
     CHR 0x2C, CHR 0x20, CHR 0xE4, CHR 0xBB, CHR 0x8D, CHR 0xE5, CHR 0x9C, CHR 0xA8, CHR 0xE6,
     CHR 0x8C, CHR 0x81, CHR 0xE7, CHR 0xBB, CHR 0xAD, CHR 0xE5, CHR 0xB0, CHR 0x9D, CHR 0xE8,
     CHR 0xAF, CHR 0x95]"

definition loc_fixed :: string where
  "loc_fixed = [CHR 0xE5, CHR 0xB7, CHR 0xB2, CHR 0xE5, CHR 0xAE, CHR 0x9A, CHR 0xE4, CHR 0xBD, CHR 0x8D]"

definition loc_denied :: string where
  "loc_denied = [CHR 0xE5, CHR 0xAE, CHR 0x9A, CHR 0xE4, CHR 0xBD, CHR 0x8D, CHR 0xE8, CHR 0xA2, CHR 0xAB,
     CHR 0xE6, CHR 0x8B, CHR 0x92, CHR 0xE7, CHR 0xBB, CHR 0x9D]"

definition loc_no_permission :: string where
  "loc_no_permission = [CHR 0xE5, CHR 0xAE, CHR 0x9A, CHR 0xE4, CHR 0xBD, CHR 0x8D, CHR 0xE6, CHR 0x9D, CHR 0x83,
     CHR 0xE9, CHR 0x99, CHR 0x90, CHR 0xE8, CHR 0xA2, CHR 0xAB, CHR 0xE6, CHR 0x8B, CHR 0x92,
     CHR 0xE7, CHR 0xBB, CHR 0x9D]"

definition loc_failure :: string where
  "loc_failure = [CHR 0xE5, CHR 0xAE, CHR 0x9A, CHR 0xE4, CHR 0xBD, CHR 0x8D, CHR 0xE5, CHR 0xBC, CHR 0x82,
     CHR 0xE5, CHR 0xB8, CHR 0xB8]"

definition loc_locating :: string where
  "loc_locating = [CHR 0xE5, CHR 0xAE, CHR 0x9A, CHR 0xE4, CHR 0xBD, CHR 0x8D, CHR 0xE4, CHR 0xB8, CHR 0xAD]"

definition emit_loc :: "LocSignal \<Rightarrow> LocationProvider \<Rightarrow> LocationProvider" where
  "emit_loc sg p = p\<lparr>lp_signals := lp_signals p @ [sg]\<rparr>"

definition set_status :: "string \<Rightarrow> LocationProvider \<Rightarrow> LocationProvider" where
  "set_status s p = (if lp_status p = s then p else emit_loc StatusChanged (p\<lparr>lp_status := s\<rparr>))"

definition mk_provider :: "bool \<Rightarrow> LocationProvider" where
  "mk_provider available =
     (let p = \<lparr>lp_src = available, lp_updating = False, lp_fix_timer = False, lp_status = loc_init,
                last_lat = default_lat, last_lng = default_lng, has_fix = False, lp_pending = [],
                lp_requests = 0, called = [], lp_signals = []\<rparr>
      in if \<not> available then emit_loc (LocationError loc_no_service) (set_status loc_unavailable p)
         else (set_status loc_locating (p\<lparr>lp_updating := True\<rparr>))\<lparr>lp_fix_timer := True\<rparr>)"

text \<open>The slots of the constructor: first fix timed out, position updated, error. The callbacks of
  the one-shot requests run after the slot of the provider, in the order they were connected.\<close>

definition onFirstFixTimeout :: "LocationProvider \<Rightarrow> LocationProvider" where
  "onFirstFixTimeout p =
     (let p1 = p\<lparr>lp_fix_timer := False\<rparr> in
      if has_fix p1 then p1
      else emit_loc (LocationError loc_first_timeout) (set_status loc_timeout p1))"

definition onPositionUpdated :: "bool \<Rightarrow> dbl \<Rightarrow> dbl \<Rightarrow> LocationProvider \<Rightarrow> LocationProvider" where
  "onPositionUpdated valid lat lng p =
     (if \<not> valid then p
      else emit_loc (PositionReady lat lng) (set_status loc_fixed
        (p\<lparr>last_lat := lat, last_lng := lng, has_fix := True, lp_fix_timer := False\<rparr>)))"

datatype PositionError = AccessError | UpdateTimeoutError | OtherError

definition onPositionError :: "PositionError \<Rightarrow> LocationProvider \<Rightarrow> LocationProvider" where
  "onPositionError e p =
     (case e of
        AccessError \<Rightarrow> emit_loc (LocationError loc_no_permission) (set_status loc_denied (p\<lparr>lp_updating := False\<rparr>))
      | UpdateTimeoutError \<Rightarrow> (if \<not> has_fix p then set_status loc_timeout p else p)
      | OtherError \<Rightarrow> emit_loc (LocationError loc_failure) p)"

definition requestOnce :: "LocationProvider \<Rightarrow> LocationProvider" where
  "requestOnce p =
     (let p1 = (if has_fix p then emit_loc (PositionReady (last_lat p) (last_lng p)) p else p)
      in if lp_src p1 then p1\<lparr>lp_requests := lp_requests p1 + 1\<rparr> else p1)"

definition request_once :: "nat \<Rightarrow> LocationProvider \<Rightarrow> LocationProvider" where
  "request_once cb p =
     (if has_fix p then p\<lparr>called := called p @ [(cb, last_lat p, last_lng p)]\<rparr>
      else if \<not> lp_src p then p\<lparr>called := called p @ [(cb, default_lat, default_lng)]\<rparr>
      else p\<lparr>lp_pending := lp_pending p @ [\<lparr>pf_id = cb, pf_done = False, pf_conn = True, pf_timer = True\<rparr>],
             lp_requests := lp_requests p + 1\<rparr>)"

text \<open>\<open>finish\<close> on the request at position \<open>i\<close>.\<close>

definition finish_fix :: "dbl \<Rightarrow> dbl \<Rightarrow> nat \<Rightarrow> LocationProvider \<Rightarrow> LocationProvider" where
  "finish_fix lat lng i p =
     (let f = lp_pending p ! i in
      if pf_done f then p
      else p\<lparr>lp_pending := (lp_pending p)[i := f\<lparr>pf_done := True, pf_conn := False\<rparr>],
             called := called p @ [(pf_id f, lat, lng)]\<rparr>)"

definition onFixTimeout :: "nat \<Rightarrow> LocationProvider \<Rightarrow> LocationProvider" where
  "onFixTimeout i p =
     (let p1 = finish_fix default_lat default_lng i p
      in p1\<lparr>lp_pending := (lp_pending p1)[i := (lp_pending p1 ! i)\<lparr>pf_timer := False\<rparr>]\<rparr>)"

definition onFixPosition :: "bool \<Rightarrow> dbl \<Rightarrow> dbl \<Rightarrow> nat \<Rightarrow> LocationProvider \<Rightarrow> LocationProvider" where
  "onFixPosition valid lat lng i p =
     (if pf_conn (lp_pending p ! i) \<and> valid then finish_fix lat lng i p else p)"

definition position_updated :: "bool \<Rightarrow> dbl \<Rightarrow> dbl \<Rightarrow> LocationProvider \<Rightarrow> LocationProvider" where
  "position_updated valid lat lng p =
     fold (onFixPosition valid lat lng) [0..<length (lp_pending p)] (onPositionUpdated valid lat lng p)"

datatype LocEvent = FirstFixTimeout | Position bool dbl dbl | PositionFailed PositionError | AskPosition | AskFix nat | FixTimeout nat

text \<open>Timers fire only while they run.\<close>

fun loc_step :: "LocEvent \<Rightarrow> LocationProvider \<Rightarrow> LocationProvider" where
  "loc_step FirstFixTimeout p = (if lp_fix_timer p then onFirstFixTimeout p else p)"
| "loc_step (Position valid lat lng) p = position_updated valid lat lng p"
| "loc_step (PositionFailed e) p = onPositionError e p"
| "loc_step AskPosition p = requestOnce p"
| "loc_step (AskFix cb) p = request_once cb p"
| "loc_step (FixTimeout i) p =
     (if i < length (lp_pending p) \<and> pf_timer (lp_pending p ! i) then onFixTimeout i p else p)"

definition calls_of :: "nat \<Rightarrow> LocationProvider \<Rightarrow> nat" where
  "calls_of cb p = length (filter (\<lambda>c. fst c = cb) (called p))"

definition open_of :: "nat \<Rightarrow> LocationProvider \<Rightarrow> nat" where
  "open_of cb p = length (filter (\<lambda>f. pf_id f = cb \<and> \<not> pf_done f) (lp_pending p))"

definition fixes_ok :: "LocationProvider \<Rightarrow> bool" where
  "fixes_ok p \<longleftrightarrow> (\<forall>f \<in> set (lp_pending p). pf_done f \<or> pf_timer f)"

lemma update_filter_length:
  assumes "i < length xs"
  shows "length (filter P (xs[i := y])) + of_bool (P (xs ! i)) = length (filter P xs) + of_bool (P y)"
proof -
  have "length (filter P xs) = length (filter P (take i xs @ xs ! i # drop (Suc i) xs))"
    using id_take_nth_drop [OF assms] by simp
  with upd_conv_take_nth_drop [OF assms, of y] show ?thesis by simp
qed

lemma loc_frame [simp]:
  "calls_of cb (emit_loc sg p) = calls_of cb p" "open_of cb (emit_loc sg p) = open_of cb p"
  "fixes_ok (emit_loc sg p) = fixes_ok p" "calls_of cb (set_status s p) = calls_of cb p"
  "open_of cb (set_status s p) = open_of cb p" "fixes_ok (set_status s p) = fixes_ok p"
  "lp_pending (emit_loc sg p) = lp_pending p" "lp_pending (set_status s p) = lp_pending p"
  by (simp_all add: calls_of_def open_of_def fixes_ok_def emit_loc_def set_status_def)

lemma finish_counts:
  assumes "i < length (lp_pending p)"
  shows "calls_of cb (finish_fix lat lng i p) + open_of cb (finish_fix lat lng i p) = calls_of cb p + open_of cb p"
    and "fixes_ok p \<Longrightarrow> fixes_ok (finish_fix lat lng i p)" "length (lp_pending (finish_fix lat lng i p)) = length (lp_pending p)"
    and "pf_done (lp_pending (finish_fix lat lng i p) ! i)"
proof -
  let ?f = "lp_pending p ! i" let ?g = "?f\<lparr>pf_done := True, pf_conn := False\<rparr>"
  show "calls_of cb (finish_fix lat lng i p) + open_of cb (finish_fix lat lng i p) = calls_of cb p + open_of cb p"
    using update_filter_length [OF assms, of "\<lambda>f. pf_id f = cb \<and> \<not> pf_done f" ?g]
    by (cases "pf_done ?f"; cases "pf_id ?f = cb") (simp_all add: finish_fix_def Let_def calls_of_def open_of_def)
  show "fixes_ok p \<Longrightarrow> fixes_ok (finish_fix lat lng i p)"
    using set_update_subset_insert [of "lp_pending p" i ?g] by (auto simp: finish_fix_def Let_def fixes_ok_def)
  show "length (lp_pending (finish_fix lat lng i p)) = length (lp_pending p)"
    by (simp add: finish_fix_def Let_def)
  show "pf_done (lp_pending (finish_fix lat lng i p) ! i)" using assms by (simp add: finish_fix_def Let_def)
qed

lemma fix_timeout_counts:
  assumes "i < length (lp_pending p)"
  shows "calls_of cb (onFixTimeout i p) + open_of cb (onFixTimeout i p) = calls_of cb p + open_of cb p"
    and "fixes_ok p \<Longrightarrow> fixes_ok (onFixTimeout i p)"
proof -
  let ?p = "finish_fix default_lat default_lng i p"
  note f = finish_counts [OF assms, where lat = default_lat and lng = default_lng]
  let ?g = "(lp_pending ?p ! i)\<lparr>pf_timer := False\<rparr>"
  show "calls_of cb (onFixTimeout i p) + open_of cb (onFixTimeout i p) = calls_of cb p + open_of cb p"
    using update_filter_length [of i "lp_pending ?p" "\<lambda>f. pf_id f = cb \<and> \<not> pf_done f" ?g] f(1) [of cb] f(3) assms
    by (simp add: onFixTimeout_def Let_def calls_of_def open_of_def)
  show "fixes_ok p \<Longrightarrow> fixes_ok (onFixTimeout i p)"
    using set_update_subset_insert [of "lp_pending ?p" i ?g] f(2,4) by (auto simp: onFixTimeout_def Let_def fixes_ok_def)
qed

lemma position_counts:
  "calls_of cb (position_updated v lat lng p) + open_of cb (position_updated v lat lng p) = calls_of cb p + open_of cb p \<and>
   (fixes_ok p \<longrightarrow> fixes_ok (position_updated v lat lng p))"
proof -
  have step: "calls_of cb (fold (onFixPosition v lat lng) is q) + open_of cb (fold (onFixPosition v lat lng) is q)
      = calls_of cb q + open_of cb q \<and> (fixes_ok q \<longrightarrow> fixes_ok (fold (onFixPosition v lat lng) is q))"
    if "\<forall>i \<in> set is. i < length (lp_pending q)" for "is" q
    using that
  proof (induction "is" arbitrary: q)
    case (Cons i js)
    let ?q = "onFixPosition v lat lng i q"
    have "calls_of cb ?q + open_of cb ?q = calls_of cb q + open_of cb q" "fixes_ok q \<longrightarrow> fixes_ok ?q"
      "length (lp_pending ?q) = length (lp_pending q)"
      using finish_counts [of i q, where lat = lat and lng = lng] Cons.prems by (auto simp: onFixPosition_def)
    with Cons.IH [of ?q] Cons.prems show ?case by simp
  qed simp
  let ?q = "onPositionUpdated v lat lng p"
  have "calls_of cb ?q = calls_of cb p" "open_of cb ?q = open_of cb p" "fixes_ok ?q = fixes_ok p"
    "length (lp_pending ?q) = length (lp_pending p)"
    by (simp_all add: onPositionUpdated_def) (simp_all add: calls_of_def open_of_def fixes_ok_def)
  with step [of "[0..<length (lp_pending p)]" ?q] show ?thesis by (simp add: position_updated_def)
qed

lemma loc_step_counts:
  assumes "fixes_ok p"
  shows "calls_of cb (loc_step ev p) + open_of cb (loc_step ev p) = calls_of cb p + open_of cb p + of_bool (ev = AskFix cb) \<and>
    fixes_ok (loc_step ev p)"
proof (cases ev)
  case FirstFixTimeout
  with assms show ?thesis by (simp add: onFirstFixTimeout_def Let_def) (simp add: calls_of_def open_of_def fixes_ok_def)
next
  case (Position v lat lng)
  with assms position_counts [of cb v lat lng p] show ?thesis by simp
next
  case (PositionFailed e)
  with assms show ?thesis
    by (cases e) (simp_all add: onPositionError_def, simp_all add: calls_of_def open_of_def fixes_ok_def)
next
  case AskPosition
  with assms show ?thesis by (simp add: requestOnce_def Let_def emit_loc_def calls_of_def open_of_def fixes_ok_def)
next
  case (AskFix n)
  with assms show ?thesis by (simp add: request_once_def) (simp add: calls_of_def open_of_def fixes_ok_def)
next
  case (FixTimeout i)
  with assms fix_timeout_counts [of i p] show ?thesis by simp
qed

text \<open>
  Property C25: a request for a position calls back exactly once. However fixes, errors and
  timers interleave, the callbacks made for a request are the requests made less those still
  open, and an open request has its timer running: it is answered within eight seconds, with
  the default coordinates if nothing better came.
\<close>

theorem location_once:
  assumes "p = fold loc_step evs (mk_provider available)"
  shows "length (filter (\<lambda>ev. ev = AskFix cb) evs) = calls_of cb p + open_of cb p \<and>
    (\<forall>f \<in> set (lp_pending p). pf_done f \<or> pf_timer f)"
proof -
  have "calls_of cb (fold loc_step evs q) + open_of cb (fold loc_step evs q) =
      calls_of cb q + open_of cb q + length (filter (\<lambda>ev. ev = AskFix cb) evs) \<and> fixes_ok (fold loc_step evs q)"
    if "fixes_ok q" for q
    using that
  proof (induction evs arbitrary: q)
    case (Cons ev evs)
    with Cons.IH [of "loc_step ev q"] loc_step_counts [OF Cons.prems, of cb ev] show ?case by simp
  qed simp
  from this [of "mk_provider available"] show ?thesis
    using assms by (simp add: mk_provider_def Let_def fixes_ok_def calls_of_def open_of_def emit_loc_def set_status_def)
qed

theorem location_once_witness:
  "length (filter (\<lambda>ev. ev = AskFix 3) [AskFix 3, Position True (Num 1) (Num 2), FixTimeout 0]) =
     calls_of 3 (fold loc_step [AskFix 3, Position True (Num 1) (Num 2), FixTimeout 0] (mk_provider True)) +
     open_of 3 (fold loc_step [AskFix 3, Position True (Num 1) (Num 2), FixTimeout 0] (mk_provider True))"
  using location_once [OF refl, where evs = "[AskFix 3, Position True (Num 1) (Num 2), FixTimeout 0]" and available = True and cb = 3]
  by (rule conjunct1)

end
