(* ===== verification/ConnContext.thy ===== *)
theory ConnContext
  imports FrameCut
begin

text \<open>
  The per-connection context of the gateway (server/include/server/gateway/conn_context.hpp):
  the receive storage with its valid length, the queue of blocks to send, and the
  bookkeeping of operations in flight. The pointers to the operations in flight are the
  flags \<open>recv_op\<close> and \<open>send_op\<close>: whether there is one.
\<close>

datatype ConnState = Active | Parsing | Closing

record Connection =
  c_fd :: int
  c_id :: u64
  rx_store :: bytes
  rx_len :: nat
  send_q :: "bytes list"
  send_bytes :: nat
  send_active :: bool
  c_state :: ConnState
  pending_ops :: int
  recv_op :: bool
  send_op :: bool
  last_active :: int

definition mk_Connection :: "int \<Rightarrow> u64 \<Rightarrow> nat \<Rightarrow> int \<Rightarrow> Connection" where
  "mk_Connection fd cid rx_buf_bytes now =
     \<lparr>c_fd = fd, c_id = cid, rx_store = replicate rx_buf_bytes 0, rx_len = 0, send_q = [],
      send_bytes = 0, send_active = False, c_state = Active, pending_ops = 0, recv_op = False,
      send_op = False, last_active = now\<rparr>"

text \<open>\<open>std::vector::resize\<close>: cut off, or extend with zeroes.\<close>

definition vec_resize :: "nat \<Rightarrow> bytes \<Rightarrow> bytes" where
  "vec_resize n v = take n v @ replicate (n - length v) 0"

subsection \<open>Receive storage\<close>

definition rx_prepare :: "nat \<Rightarrow> Connection \<Rightarrow> Connection" where
  "rx_prepare spare c =
     (if length (rx_store c) < rx_len c + spare
      then c\<lparr>rx_store := vec_resize (rx_len c + spare) (rx_store c)\<rparr> else c)"

definition rx_writable :: "Connection \<Rightarrow> nat" where
  "rx_writable c = length (rx_store c) - rx_len c"

text \<open>The kernel completes a receive by writing into the writable part of the storage.\<close>

definition rx_kernel_write :: "bytes \<Rightarrow> Connection \<Rightarrow> Connection" where
  "rx_kernel_write d c =
     c\<lparr>rx_store := take (rx_len c) (rx_store c) @ d @ drop (rx_len c + length d) (rx_store c)\<rparr>"

definition rx_commit :: "nat \<Rightarrow> Connection \<Rightarrow> Connection" where
  "rx_commit n c = c\<lparr>rx_len := rx_len c + n\<rparr>"

definition rx_take :: "nat \<Rightarrow> Connection \<Rightarrow> bytes \<times> Connection" where
  "rx_take reserve_cap c =
     (let out = vec_resize (rx_len c) (rx_store c);
          c1 = c\<lparr>rx_store := [], rx_len := 0\<rparr> in
      (out, if length (rx_store c1) < reserve_cap
            then c1\<lparr>rx_store := vec_resize reserve_cap (rx_store c1)\<rparr> else c1))"

definition rx_feed :: "bytes \<Rightarrow> Connection \<Rightarrow> Connection" where
  "rx_feed left c =
     (let c1 = (if rx_len c + length left > length (rx_store c)
                then c\<lparr>rx_store := vec_resize (rx_len c + length left) (rx_store c)\<rparr> else c) in
      c1\<lparr>rx_store := take (rx_len c1) (rx_store c1) @ left
           @ drop (rx_len c1 + length left) (rx_store c1),
         rx_len := rx_len c1 + length left\<rparr>)"

subsection \<open>Send queue\<close>

definition send_push :: "bytes \<Rightarrow> Connection \<Rightarrow> Connection" where
  "send_push b c = c\<lparr>send_bytes := send_bytes c + length b, send_q := send_q c @ [b]\<rparr>"

definition send_pending :: "Connection \<Rightarrow> bool" where
  "send_pending c \<longleftrightarrow> send_q c \<noteq> []"

definition send_front :: "Connection \<Rightarrow> bytes" where
  "send_front c = hd (send_q c)"

text \<open>The loop of \<open>send_pop\<close> on the queue and the byte count.\<close>

fun send_pop_loop :: "nat \<Rightarrow> bytes list \<Rightarrow> nat \<Rightarrow> bytes list \<times> nat" where
  "send_pop_loop n [] bytes = ([], bytes)"
| "send_pop_loop n (h # q) bytes =
     (if n > 0 then
        if n < length h then (drop n h # q, bytes - n)
        else send_pop_loop (n - length h) q (bytes - length h)
      else (h # q, bytes))"

definition send_pop :: "nat \<Rightarrow> Connection \<Rightarrow> Connection" where
  "send_pop n c =
     (case send_pop_loop n (send_q c) (send_bytes c) of (q, b) \<Rightarrow> c\<lparr>send_q := q, send_bytes := b\<rparr>)"

subsection \<open>Refinement to byte streams\<close>

text \<open>The valid received bytes, and the bytes still to be sent.\<close>

definition rx_bytes :: "Connection \<Rightarrow> bytes" where
  "rx_bytes c = take (rx_len c) (rx_store c)"

definition tx_bytes :: "Connection \<Rightarrow> bytes" where
  "tx_bytes c = concat (send_q c)"

definition buffers_ok :: "Connection \<Rightarrow> bool" where
  "buffers_ok c \<longleftrightarrow> rx_len c \<le> length (rx_store c) \<and> send_bytes c = length (tx_bytes c)"

lemma length_vec_resize [simp]: "length (vec_resize n v) = n"
  by (simp add: vec_resize_def)

lemma take_vec_resize: "m \<le> n \<Longrightarrow> m \<le> length v \<Longrightarrow> take m (vec_resize n v) = take m v"
  by (simp add: vec_resize_def min_absorb1)

lemma length_rx_bytes: "buffers_ok c \<Longrightarrow> length (rx_bytes c) = rx_len c"
  by (simp add: buffers_ok_def rx_bytes_def)

lemma mk_Connection_buffers [simp]:
  "buffers_ok (mk_Connection fd cid n now)" "rx_bytes (mk_Connection fd cid n now) = []"
  "tx_bytes (mk_Connection fd cid n now) = []"
  by (simp_all add: mk_Connection_def buffers_ok_def rx_bytes_def tx_bytes_def)

lemma rx_prepare_ok:
  assumes "buffers_ok c"
  shows "buffers_ok (rx_prepare spare c)" "rx_bytes (rx_prepare spare c) = rx_bytes c"
    "spare \<le> rx_writable (rx_prepare spare c)" "tx_bytes (rx_prepare spare c) = tx_bytes c"
    "rx_len (rx_prepare spare c) = rx_len c"
  using assms
  by (auto simp: rx_prepare_def buffers_ok_def rx_bytes_def rx_writable_def tx_bytes_def take_vec_resize)

lemma rx_recv_ok:
  assumes "buffers_ok c" "length d \<le> rx_writable c"
  shows "buffers_ok (rx_commit (length d) (rx_kernel_write d c))"
    "rx_bytes (rx_commit (length d) (rx_kernel_write d c)) = rx_bytes c @ d"
    "tx_bytes (rx_commit (length d) (rx_kernel_write d c)) = tx_bytes c"
  using assms
  by (auto simp: rx_commit_def rx_kernel_write_def buffers_ok_def rx_bytes_def rx_writable_def
      tx_bytes_def)

lemma rx_take_ok:
  assumes "buffers_ok c" "rx_take cap c = (out, c')"
  shows "out = rx_bytes c" "buffers_ok c'" "rx_bytes c' = []" "tx_bytes c' = tx_bytes c"
    "length (rx_store c') = cap"
  using assms
  by (auto simp: rx_take_def Let_def buffers_ok_def rx_bytes_def tx_bytes_def vec_resize_def
      split: if_splits)

lemma rx_feed_ok:
  assumes "buffers_ok c"
  shows "buffers_ok (rx_feed l c)" "rx_bytes (rx_feed l c) = rx_bytes c @ l"
    "tx_bytes (rx_feed l c) = tx_bytes c" "rx_len (rx_feed l c) = rx_len c + length l"
    "length (rx_store (rx_feed l c)) = max (length (rx_store c)) (rx_len c + length l)"
  using assms
  by (auto simp: rx_feed_def Let_def buffers_ok_def rx_bytes_def tx_bytes_def take_vec_resize)

lemma send_push_ok:
  assumes "buffers_ok c"
  shows "buffers_ok (send_push b c)" "tx_bytes (send_push b c) = tx_bytes c @ b"
    "rx_bytes (send_push b c) = rx_bytes c"
  using assms by (simp_all add: send_push_def buffers_ok_def tx_bytes_def rx_bytes_def)

lemma send_pop_loop_ok:
  "bytes = length (concat q) \<Longrightarrow> send_pop_loop n q bytes = (q', b') \<Longrightarrow>
     concat q' = drop n (concat q) \<and> b' = length (concat q')"
  by (induction n q bytes rule: send_pop_loop.induct) (auto split: if_splits)

lemma send_pop_ok:
  assumes "buffers_ok c"
  shows "buffers_ok (send_pop n c)" "tx_bytes (send_pop n c) = drop n (tx_bytes c)"
    "rx_bytes (send_pop n c) = rx_bytes c"
proof -
  obtain q b where l: "send_pop_loop n (send_q c) (send_bytes c) = (q, b)" by fastforce
  have eq: "send_pop n c = c\<lparr>send_q := q, send_bytes := b\<rparr>" by (simp add: send_pop_def l)
  have "concat q = drop n (concat (send_q c)) \<and> b = length (concat q)"
    using assms by (intro send_pop_loop_ok [OF _ l]) (simp add: buffers_ok_def tx_bytes_def)
  then show "buffers_ok (send_pop n c)" "tx_bytes (send_pop n c) = drop n (tx_bytes c)"
    "rx_bytes (send_pop n c) = rx_bytes c"
    using assms by (simp_all add: eq buffers_ok_def tx_bytes_def rx_bytes_def)
qed

subsection \<open>The connection as a pair of byte streams\<close>

text \<open>
  What happens to a connection: a receive completes with bytes from the client, the received
  bytes are handed to a worker, a worker gives back the tail of an unfinished frame, a
  response is queued, and a send of a part of the front block completes. The first component
  of the result is what the workers were given, the second what went out to the client.
\<close>

datatype conn_event = Received bytes | Handed | Fed bytes | Queued bytes | Sent nat

fun conn_step :: "nat \<Rightarrow> conn_event \<Rightarrow> bytes \<times> bytes \<times> Connection \<Rightarrow> bytes \<times> bytes \<times> Connection" where
  "conn_step cap (Received d) (w, out, c) =
     (let c1 = rx_prepare cap c; d1 = take (rx_writable c1) d in
      (w, out, rx_commit (length d1) (rx_kernel_write d1 c1)))"
| "conn_step cap Handed (w, out, c) = (case rx_take cap c of (raw, c') \<Rightarrow> (w @ raw, out, c'))"
| "conn_step cap (Fed l) (w, out, c) = (w, out, rx_feed l c)"
| "conn_step cap (Queued b) (w, out, c) = (w, out, send_push b c)"
| "conn_step cap (Sent n) (w, out, c) =
     (if send_pending c then (w, out @ take n (send_front c), send_pop (min n (length (send_front c))) c)
      else (w, out, c))"

fun event_in :: "nat \<Rightarrow> Connection \<Rightarrow> conn_event \<Rightarrow> bytes" where
  "event_in cap c (Received d) = take (rx_writable (rx_prepare cap c)) d"
| "event_in cap c (Fed l) = l"
| "event_in cap c ev = []"

fun event_out :: "conn_event \<Rightarrow> bytes" where
  "event_out (Queued b) = b"
| "event_out ev = []"

fun conn_run :: "nat \<Rightarrow> conn_event list \<Rightarrow> bytes \<times> bytes \<times> Connection \<Rightarrow> bytes \<times> bytes \<times> Connection" where
  "conn_run cap [] x = x"
| "conn_run cap (ev # evs) x = conn_run cap evs (conn_step cap ev x)"

fun run_in :: "nat \<Rightarrow> conn_event list \<Rightarrow> bytes \<times> bytes \<times> Connection \<Rightarrow> bytes" where
  "run_in cap [] x = []"
| "run_in cap (ev # evs) x = event_in cap (snd (snd x)) ev @ run_in cap evs (conn_step cap ev x)"

lemma tx_front:
  "send_pending c \<Longrightarrow>
     take n (send_front c) @ drop (min n (length (send_front c))) (tx_bytes c) = tx_bytes c"
  by (cases "send_q c") (auto simp: send_pending_def send_front_def tx_bytes_def min_def)

lemma conn_step_ok:
  assumes ok: "buffers_ok c" and step: "conn_step cap ev (w, out, c) = (w', out', c')"
  shows "buffers_ok c' \<and> w' @ rx_bytes c' = w @ rx_bytes c @ event_in cap c ev \<and>
    out' @ tx_bytes c' = out @ tx_bytes c @ event_out ev"
proof (cases ev)
  case (Received d)
  note p = rx_prepare_ok [OF ok, of cap]
  show ?thesis
    using step Received rx_recv_ok [OF p(1), of "take (rx_writable (rx_prepare cap c)) d"] p(2,4)
    by (auto simp: Let_def)
next
  case Handed
  obtain raw c1 where "rx_take cap c = (raw, c1)" by fastforce
  with rx_take_ok [OF ok this] show ?thesis using step Handed by auto
next
  case (Fed l)
  then show ?thesis using step rx_feed_ok [OF ok, of l] by auto
next
  case (Queued b)
  then show ?thesis using step send_push_ok [OF ok, of b] by auto
next
  case (Sent n)
  show ?thesis
  proof (cases "send_pending c")
    case True
    note s = send_pop_ok [OF ok, of "min n (length (send_front c))"]
    from True Sent step have "w' = w" "out' = out @ take n (send_front c)"
      "c' = send_pop (min n (length (send_front c))) c" by simp_all
    then show ?thesis using s tx_front [OF True, of n] Sent by simp
  qed (use step Sent ok in simp)
qed

text \<open>
  Property C19: a connection is a pair of byte streams, for every sequence of completions,
  hand-overs and responses, whatever the sizes of the buffers. What the workers were given
  and what is still stored is exactly what came in, in order; what the client was sent and
  what is still queued is exactly what was queued, in order, even when sends are partial.
\<close>

theorem conn_streams:
  assumes "buffers_ok c" "conn_run cap evs (w, out, c) = (w', out', c')"
  shows "w' @ rx_bytes c' = w @ rx_bytes c @ run_in cap evs (w, out, c) \<and>
    out' @ tx_bytes c' = out @ tx_bytes c @ concat (map event_out evs)"
  using assms
proof (induction evs arbitrary: w out c)
  case (Cons ev evs)
  obtain w1 out1 c1 where e: "conn_step cap ev (w, out, c) = (w1, out1, c1)"
    by (cases "conn_step cap ev (w, out, c)") auto
  note ok = conn_step_ok [OF Cons.prems(1) e]
  show ?case using Cons.IH [of c1 w1 out1] Cons.prems(2) e ok
    by (simp flip: append_assoc)
qed simp

theorem conn_streams_witness:
  "(case conn_run 4 [Received [1, 2, 3], Handed, Queued [9, 8, 7], Sent 2]
     ([], [], mk_Connection 5 1 4 0) of
    (w', out', c') \<Rightarrow> w' @ rx_bytes c' = [1, 2, 3] \<and> out' = [9, 8] \<and> tx_bytes c' = [7])"
proof -
  let ?evs = "[Received [1, 2, 3], Handed, Queued [9, 8, 7], Sent 2]"
  let ?x = "([], [], mk_Connection 5 1 4 0)"
  note defs = mk_Connection_def rx_prepare_def rx_writable_def rx_commit_def rx_kernel_write_def
    rx_take_def vec_resize_def send_push_def send_pending_def send_front_def send_pop_def Let_def
  obtain w' out' c' where r: "conn_run 4 ?evs ?x = (w', out', c')"
    by (rule prod_cases3)
  have "run_in 4 ?evs ?x = [1, 2, 3]" "fst (snd (conn_run 4 ?evs ?x)) = [9, 8]"
    by (simp_all add: defs)
  then show ?thesis
    using conn_streams [OF mk_Connection_buffers(1) r] unfolding r by simp
qed

end
