(* ===== verification/QueueSpec.thy ===== *)
theory QueueSpec
  imports Prelude
begin

text \<open>
  Contracts of the two kinds of queues the system is built from: the bounded FIFO that a
  shared-memory ring promises to its two ends, and the mailbox into which several threads
  post and which one thread empties. The clients' lemmas are proved here once, from the
  contracts.
\<close>

subsection \<open>Bounded FIFO\<close>

text \<open>Offer a list of messages one by one, keeping the ones that were refused.\<close>

primrec enq_all :: "('m \<Rightarrow> 's \<Rightarrow> (bool \<times> 's) res) \<Rightarrow> 'm list \<Rightarrow> 's \<Rightarrow> ('m list \<times> 's) res" where
  "enq_all enq [] s = Inr ([], s)"
| "enq_all enq (m # ms) s =
     (case enq m s of Inl e \<Rightarrow> Inl e
      | Inr (ok, s') \<Rightarrow>
          (case enq_all enq ms s' of Inl e \<Rightarrow> Inl e
           | Inr (rest, s'') \<Rightarrow> Inr (if ok then rest else m # rest, s'')))"

text \<open>Take batches of at most \<open>n\<close> until one is empty; the fuel bounds the number of rounds.\<close>

primrec deq_rounds :: "nat \<Rightarrow> (nat \<Rightarrow> 's \<Rightarrow> 'm list \<times> 's) \<Rightarrow> nat \<Rightarrow> 's \<Rightarrow> 'm list \<times> 's" where
  "deq_rounds 0 deq n s = ([], s)"
| "deq_rounds (Suc fuel) deq n s =
     (case deq n s of (b, s') \<Rightarrow>
        if b = [] then ([], s')
        else (case deq_rounds fuel deq n s' of (bs, s'') \<Rightarrow> (b @ bs, s'')))"

locale bounded_fifo =
  fixes inv :: "'s \<Rightarrow> bool" and items :: "'s \<Rightarrow> 'm list" and capacity :: nat
    and accepts :: "'m \<Rightarrow> bool"
    and enq :: "'m \<Rightarrow> 's \<Rightarrow> (bool \<times> 's) res" and deq :: "nat \<Rightarrow> 's \<Rightarrow> 'm list \<times> 's"
  assumes enq_room: "inv s \<Longrightarrow> accepts m \<Longrightarrow> length (items s) < capacity \<Longrightarrow>
      \<exists>s'. enq m s = Inr (True, s') \<and> inv s' \<and> items s' = items s @ [m]"
    and enq_full: "inv s \<Longrightarrow> accepts m \<Longrightarrow> \<not> length (items s) < capacity \<Longrightarrow>
      \<exists>s'. enq m s = Inr (False, s') \<and> inv s' \<and> items s' = items s"
    and within: "inv s \<Longrightarrow> length (items s) \<le> capacity"
    and deq_take: "inv s \<Longrightarrow> deq n s = (b, s') \<Longrightarrow> inv s' \<and> items s = b @ items s'"
    and deq_progress: "inv s \<Longrightarrow> 0 < n \<Longrightarrow> items s \<noteq> [] \<Longrightarrow> fst (deq n s) \<noteq> []"
begin

lemma enq_all_room:
  assumes "inv s" "\<forall>m\<in>set ms. accepts m" "length (items s) + length ms \<le> capacity"
  shows "\<exists>s'. enq_all enq ms s = Inr ([], s') \<and> inv s' \<and> items s' = items s @ ms"
  using assms
proof (induction ms arbitrary: s)
  case (Cons m ms)
  then obtain s1 where "enq m s = Inr (True, s1)" "inv s1" "items s1 = items s @ [m]"
    using enq_room [of s m] by auto
  with Cons show ?case by fastforce
qed simp

text \<open>However many are offered, those accepted are the first ones that fit, in order.\<close>

lemma enq_all_overflow:
  assumes "inv s" "\<forall>m\<in>set ms. accepts m"
  shows "\<exists>s'. enq_all enq ms s = Inr (drop (capacity - length (items s)) ms, s') \<and> inv s' \<and>
    items s' = items s @ take (capacity - length (items s)) ms"
  using assms
proof (induction ms arbitrary: s)
  case (Cons m ms)
  show ?case
  proof (cases "length (items s) < capacity")
    case True
    then obtain s1 where s1: "enq m s = Inr (True, s1)" "inv s1" "items s1 = items s @ [m]"
      using enq_room [of s m] Cons.prems by auto
    have "capacity - length (items s) = Suc (capacity - length (items s1))"
      using True s1(3) by simp
    with Cons.IH [OF s1(2)] Cons.prems s1 show ?thesis by auto
  next
    case False
    then obtain s1 where "enq m s = Inr (False, s1)" "inv s1" "items s1 = items s"
      using enq_full [of s m] Cons.prems by auto
    with Cons.IH [of s1] Cons.prems False show ?thesis by auto
  qed
qed simp

lemma deq_rounds_all:
  assumes "inv s" "0 < n" "length (items s) < fuel"
  shows "\<exists>s'. deq_rounds fuel deq n s = (items s, s') \<and> inv s' \<and> items s' = []"
  using assms
proof (induction fuel arbitrary: s)
  case (Suc fuel)
  obtain b s1 where d: "deq n s = (b, s1)" by fastforce
  with deq_take [OF Suc.prems(1)] have 1: "inv s1" "items s = b @ items s1" by blast+
  show ?case
  proof (cases "b = []")
    case True
    with deq_progress [OF Suc.prems(1,2)] d have "items s = []" by auto
    with True d 1 show ?thesis by simp
  next
    case False
    then have "length (items s1) < fuel" using 1(2) Suc.prems(3) by (cases b) auto
    from Suc.IH [OF 1(1) Suc.prems(2) this] False d 1 show ?thesis by auto
  qed
qed simp

text \<open>What is offered to a queue with room and taken out by the other end is what was there
  before, then the new messages, each once and in order.\<close>

lemma through:
  assumes "inv s" "\<forall>m\<in>set ms. accepts m" "length (items s) + length ms \<le> capacity" "0 < n"
    "capacity < fuel"
  obtains s' s'' where "enq_all enq ms s = Inr ([], s')"
    "deq_rounds fuel deq n s' = (items s @ ms, s'')" "items s'' = []"
proof -
  obtain s' where s': "enq_all enq ms s = Inr ([], s')" "inv s'" "items s' = items s @ ms"
    using enq_all_room [OF assms(1-3)] by auto
  then have "length (items s') < fuel" using assms(5) within [of s'] by simp
  from deq_rounds_all [OF s'(2) assms(4) this] s' that show thesis by auto
qed

end

subsection \<open>Mailboxes\<close>

text \<open>A mailbox is posted to by many threads and emptied by one; \<open>empty\<close> returns what it
  holds.\<close>

locale mailbox =
  fixes held :: "'s \<Rightarrow> 'm list" and post :: "'m \<Rightarrow> 's \<Rightarrow> 's" and empty_box :: "'s \<Rightarrow> 'm list \<times> 's"
  assumes post_held: "held (post m s) = held s @ [m]"
    and empty_held: "empty_box s = (out, s') \<Longrightarrow> out = held s \<and> held s' = []"
begin

lemma fold_post: "held (fold post ms s) = held s @ ms"
  by (induction ms arbitrary: s) (simp_all add: post_held)

text \<open>However posts and collections interleave, every message is collected once and in the
  order of the posts.\<close>

lemma collect_in_order:
  assumes "empty_box (fold post ms s) = (out, s')" "empty_box (fold post ns s') = (out', s'')"
  shows "out @ out' = held s @ ms @ ns" "held s'' = []"
  using empty_held [OF assms(1)] empty_held [OF assms(2)] by (simp_all add: fold_post)

end

end
