(* ===== verification/SpscRing.thy ===== *)
theory SpscRing
  imports Protocol QueueSpec
begin

text \<open>
  The lock-free single-producer single-consumer ring of server/include/bike/ipc:
  \<open>IpcPacket\<close> (ipc_packet.hpp), the ring header, slots and file layout (shm_layout.hpp),
  and the producer and consumer views (spsc_ring.hpp). Head and tail are free-running
  32-bit counters and stay words here; the template parameters \<open>SlotSize\<close> and
  \<open>SlotCountBits\<close> are the arguments \<open>ss\<close> and \<open>k\<close>.
\<close>

subsection \<open>Packets, headers, slots\<close>

record IpcPacket =
  conn_id :: u64
  pkt_event_id :: u16
  flags :: u16
  pkt_seq :: u32
  payload_len :: u32
  reserved0 :: u32
  reserved1 :: u32

definition kFlagOneWay :: u16 where "kFlagOneWay = 1"

definition sizeof_IpcPacket :: nat where "sizeof_IpcPacket = 32"

definition packet0 :: IpcPacket where
  "packet0 = \<lparr>conn_id = 0, pkt_event_id = 0, flags = 0, pkt_seq = 0, payload_len = 0,
              reserved0 = 0, reserved1 = 0\<rparr>"

record RingHeader =
  head :: u32
  producer_pid :: u32
  producer_heartbeat_ns :: u64
  tail :: u32
  consumer_pid :: u32
  consumer_heartbeat_ns :: u64

record Slot =
  pkt :: IpcPacket
  payload :: bytes

text \<open>The memory a ring occupies: its header and its slot array.\<close>

record Ring =
  hdr :: RingHeader
  slots :: "Slot list"

definition kCacheLine :: nat where "kCacheLine = 64"
definition kPageAlign :: nat where "kPageAlign = 4096"
definition kShmMagic :: u32 where "kShmMagic = 0x454B4942"
definition kShmVersion :: u32 where "kShmVersion = 1"
definition kReqSlotSize :: nat where "kReqSlotSize = 4096"
definition kRspSlotSize :: nat where "kRspSlotSize = 401408"
definition kReqPayloadMax :: nat where "kReqPayloadMax = kReqSlotSize - sizeof_IpcPacket"
definition kRspPayloadMax :: nat where "kRspPayloadMax = kRspSlotSize - sizeof_IpcPacket"

definition kSlotCount :: "nat \<Rightarrow> u32" where "kSlotCount k = push_bit k 1"
definition kMask :: "nat \<Rightarrow> u32" where "kMask k = kSlotCount k - 1"
definition kPayloadMax :: "nat \<Rightarrow> nat" where "kPayloadMax ss = ss - sizeof_IpcPacket"
definition kRegionBytes :: "nat \<Rightarrow> nat \<Rightarrow> nat" where "kRegionBytes ss k = ss * unat (kSlotCount k)"

definition kReqBits :: nat where "kReqBits = 9"
definition kRspBits :: nat where "kRspBits = 8"

subsection \<open>File layout\<close>

definition sizeof_ShmFileHeader :: nat where "sizeof_ShmFileHeader = 128"
definition sizeof_RingHeader :: nat where "sizeof_RingHeader = 128"

definition align_up :: "nat \<Rightarrow> nat \<Rightarrow> nat" where
  "align_up v align = (v + align - 1) div align * align"

record RingFileLayout =
  headers_offset :: nat
  slots_offset :: nat
  ring_stride :: nat
  layout_total_bytes :: nat

definition compute_file_layout :: "nat \<Rightarrow> nat \<Rightarrow> RingFileLayout" where
  "compute_file_layout ring_count bytes_per_ring =
     (let so = align_up (sizeof_ShmFileHeader + ring_count * sizeof_RingHeader) kPageAlign in
      \<lparr>headers_offset = sizeof_ShmFileHeader, slots_offset = so,
       ring_stride = bytes_per_ring,
       layout_total_bytes = so + ring_count * bytes_per_ring\<rparr>)"

subsection \<open>Producer view\<close>

record Producer =
  head_local :: u32
  head_published :: u32
  unpublished :: u32

definition mk_Producer :: "Ring \<Rightarrow> Producer" where
  "mk_Producer r = \<lparr>head_local = head (hdr r), head_published = head (hdr r), unpublished = 0\<rparr>"

text \<open>
  \<open>begin_write\<close> loads the shared tail once. The load may return an older value than the
  one in memory, so the body is a function of the value \<open>tail_snap\<close> that was loaded; the
  result is the index of the reserved slot, or None when the ring is full.
\<close>

definition begin_write_at :: "nat \<Rightarrow> u32 \<Rightarrow> Producer \<Rightarrow> nat option \<times> Producer" where
  "begin_write_at k tail_snap p =
     (if head_local p - tail_snap = kSlotCount k then (None, p)
      else (Some (unat (head_local p AND kMask k)),
            p\<lparr>unpublished := unpublished p + 1, head_local := head_local p + 1\<rparr>))"

definition begin_write :: "nat \<Rightarrow> Ring \<Rightarrow> Producer \<Rightarrow> nat option \<times> Producer" where
  "begin_write k r p = begin_write_at k (tail (hdr r)) p"

text \<open>\<open>memcpy\<close> past the end of the slot's payload array or of the source is undefined.\<close>

definition fill :: "Slot \<Rightarrow> IpcPacket \<Rightarrow> bytes \<Rightarrow> Slot res" where
  "fill slot pk pl =
     (let n = unat (payload_len pk) in
      if n > 0 then
        if n > length (payload slot) \<or> n > length pl then Inl Undefined_behaviour
        else Inr \<lparr>pkt = pk, payload = take n pl @ drop n (payload slot)\<rparr>
      else Inr (slot\<lparr>pkt := pk\<rparr>))"

definition fill_at :: "nat \<Rightarrow> IpcPacket \<Rightarrow> bytes \<Rightarrow> Ring \<Rightarrow> Ring res" where
  "fill_at i pk pl r =
     (case fill (slots r ! i) pk pl of Inl e \<Rightarrow> Inl e
      | Inr s \<Rightarrow> Inr (r\<lparr>slots := (slots r)[i := s]\<rparr>))"

definition publish :: "u32 \<Rightarrow> Ring \<Rightarrow> Producer \<Rightarrow> (Ring \<times> Producer) res" where
  "publish n r p =
     (if n \<noteq> unpublished p then Inl Assertion_failed
      else let p' = p\<lparr>unpublished := unpublished p - n, head_published := head_published p + n\<rparr>
           in Inr (r\<lparr>hdr := (hdr r)\<lparr>head := head_published p'\<rparr>\<rparr>, p'))"

definition push :: "nat \<Rightarrow> IpcPacket \<Rightarrow> bytes \<Rightarrow> Ring \<Rightarrow> Producer \<Rightarrow> (bool \<times> Ring \<times> Producer) res" where
  "push k pk pl r p =
     (case begin_write k r p of
        (None, p') \<Rightarrow> Inr (False, r, p')
      | (Some i, p') \<Rightarrow>
          (case fill_at i pk pl r of Inl e \<Rightarrow> Inl e
           | Inr r' \<Rightarrow> (case publish 1 r' p' of Inl e \<Rightarrow> Inl e
                       | Inr (r'', p'') \<Rightarrow> Inr (True, r'', p''))))"

definition producer_full :: "nat \<Rightarrow> Ring \<Rightarrow> Producer \<Rightarrow> bool" where
  "producer_full k r p \<longleftrightarrow> head_local p - tail (hdr r) = kSlotCount k"

definition producer_size :: "Ring \<Rightarrow> Producer \<Rightarrow> u32" where
  "producer_size r p = head_local p - tail (hdr r)"

definition producer_empty :: "Ring \<Rightarrow> Producer \<Rightarrow> bool" where
  "producer_empty r p \<longleftrightarrow> producer_size r p = 0"

definition producer_register_pid :: "u32 \<Rightarrow> Ring \<Rightarrow> Ring" where
  "producer_register_pid pid r = r\<lparr>hdr := (hdr r)\<lparr>producer_pid := pid\<rparr>\<rparr>"

definition producer_heartbeat :: "u64 \<Rightarrow> Ring \<Rightarrow> Ring" where
  "producer_heartbeat now_ns r = r\<lparr>hdr := (hdr r)\<lparr>producer_heartbeat_ns := now_ns\<rparr>\<rparr>"

subsection \<open>Consumer view\<close>

record Consumer =
  tail_local :: u32

definition mk_Consumer :: "Ring \<Rightarrow> Consumer" where
  "mk_Consumer r = \<lparr>tail_local = tail (hdr r)\<rparr>"

text \<open>As for the producer, the loaded head is an argument. The result is the number of
  readable slots and, when it is not zero, the index of the first.\<close>

definition pop_batch_at :: "nat \<Rightarrow> u32 \<Rightarrow> Consumer \<Rightarrow> u32 \<Rightarrow> u32 \<times> nat option" where
  "pop_batch_at k head_snap c max_n =
     (let n = min max_n (head_snap - tail_local c);
          to_end = kSlotCount k - (tail_local c AND kMask k);
          n = min n to_end in
      if n = 0 then (0, None) else (n, Some (unat (tail_local c AND kMask k))))"

definition pop_batch :: "nat \<Rightarrow> Ring \<Rightarrow> Consumer \<Rightarrow> u32 \<Rightarrow> u32 \<times> nat option" where
  "pop_batch k r c max_n = pop_batch_at k (head (hdr r)) c max_n"

definition release :: "u32 \<Rightarrow> Ring \<Rightarrow> Consumer \<Rightarrow> Ring \<times> Consumer" where
  "release n r c =
     (let c' = c\<lparr>tail_local := tail_local c + n\<rparr>
      in (r\<lparr>hdr := (hdr r)\<lparr>tail := tail_local c'\<rparr>\<rparr>, c'))"

definition consumer_empty :: "Ring \<Rightarrow> Consumer \<Rightarrow> bool" where
  "consumer_empty r c \<longleftrightarrow> head (hdr r) = tail_local c"

definition consumer_register_pid :: "u32 \<Rightarrow> Ring \<Rightarrow> Ring" where
  "consumer_register_pid pid r = r\<lparr>hdr := (hdr r)\<lparr>consumer_pid := pid\<rparr>\<rparr>"

definition consumer_heartbeat :: "u64 \<Rightarrow> Ring \<Rightarrow> Ring" where
  "consumer_heartbeat now_ns r = r\<lparr>hdr := (hdr r)\<lparr>consumer_heartbeat_ns := now_ns\<rparr>\<rparr>"

subsection \<open>Counters and slot indices\<close>

definition bits_ok :: "nat \<Rightarrow> bool" where
  "bits_ok k \<longleftrightarrow> 1 \<le> k \<and> k \<le> 16"

definition slot_ix :: "nat \<Rightarrow> u32 \<Rightarrow> nat" where
  "slot_ix k w = unat (w AND kMask k)"

lemma bits_ok_pow: "bits_ok k \<Longrightarrow> (2::nat) ^ k \<le> 65536"
  using power_increasing [of k 16 "2::nat"] by (simp add: bits_ok_def)

lemma kSlotCount_pow: "kSlotCount k = 2 ^ k"
  by (simp add: kSlotCount_def push_bit_eq_mult)

lemma unat_kSlotCount [simp]: "bits_ok k \<Longrightarrow> unat (kSlotCount k) = 2 ^ k"
proof -
  assume "bits_ok k"
  then have "unat (word_of_nat (2 ^ k) :: u32) = 2 ^ k"
    by (simp only: unsigned_of_nat) (simp add: take_bit_nat_eq_self bits_ok_def)
  then show ?thesis by (simp add: kSlotCount_pow)
qed

lemma kMask_mask: "kMask k = mask k"
  by (simp add: kMask_def kSlotCount_pow mask_eq_exp_minus_1)

lemma slot_ix_mod: "bits_ok k \<Longrightarrow> slot_ix k w = unat w mod 2 ^ k"
  unfolding slot_ix_def kMask_mask take_bit_eq_mask [symmetric] unsigned_take_bit_eq
  by (rule take_bit_eq_mod)

lemma slot_ix_less [simp]: "bits_ok k \<Longrightarrow> slot_ix k w < 2 ^ k"
  by (simp add: slot_ix_mod)

lemma unat_add_nat:
  "unat (w :: u32) + n < 2 ^ 32 \<Longrightarrow> unat (w + word_of_nat n) = unat w + n"
  by (simp add: unat_word_ariths unat_of_nat take_bit_eq_mod)

lemma unat_mod_add:
  assumes "bits_ok k"
  shows "unat ((w :: u32) + word_of_nat n) mod 2 ^ k = (unat w + n) mod 2 ^ k"
proof -
  have "(2::nat) ^ k dvd 2 ^ 32" using assms by (intro le_imp_power_dvd) (simp add: bits_ok_def)
  moreover have "unat (w + word_of_nat n) = (unat w + n) mod 2 ^ 32"
    by (simp add: unat_word_ariths unat_of_nat take_bit_eq_mod mod_simps)
  ultimately show ?thesis by (simp add: mod_mod_cancel)
qed

lemma slot_ix_add: "bits_ok k \<Longrightarrow> slot_ix k (w + word_of_nat n) = (unat w + n) mod 2 ^ k"
  by (simp add: slot_ix_mod unat_mod_add)

lemma slot_ix_contig:
  assumes "bits_ok k" "slot_ix k w + m < 2 ^ k"
  shows "slot_ix k (w + word_of_nat m) = slot_ix k w + m"
  using assms mod_add_left_eq [of "unat w" "2 ^ k" m] by (simp add: slot_ix_mod unat_mod_add)

lemma slot_ix_inj:
  assumes "bits_ok k" "slot_ix k (w + word_of_nat i) = slot_ix k (w + word_of_nat j)"
    "i < 2 ^ k" "j < 2 ^ k"
  shows "i = j"
proof -
  have eq: "(unat w + i) mod 2 ^ k = (unat w + j) mod 2 ^ k"
    using assms by (simp add: slot_ix_add)
  then have "i mod 2 ^ k = j mod 2 ^ k"
    by (simp add: nat_mod_eq_iff)
  then show ?thesis using assms(3,4) by simp
qed

subsection \<open>The ring as a list\<close>

text \<open>
  What a consumer reads from a slot: the packet and the first \<open>payload_len\<close> bytes. A segment
  of the ring is the list of these messages from a counter value on; the published contents
  and the reserved but unpublished part are segments.
\<close>

type_synonym msg = "IpcPacket \<times> bytes"

definition slot_msg :: "Slot \<Rightarrow> msg" where
  "slot_msg s = (pkt s, take (unat (payload_len (pkt s))) (payload s))"

definition seg :: "nat \<Rightarrow> Slot list \<Rightarrow> u32 \<Rightarrow> nat \<Rightarrow> msg list" where
  "seg k sl w n = map (\<lambda>j. slot_msg (sl ! slot_ix k (w + word_of_nat j))) [0..<n]"

definition contents :: "nat \<Rightarrow> Ring \<Rightarrow> msg list" where
  "contents k r = seg k (slots r) (tail (hdr r)) (unat (head (hdr r) - tail (hdr r)))"

definition staged :: "nat \<Rightarrow> Ring \<Rightarrow> Producer \<Rightarrow> msg list" where
  "staged k r p = seg k (slots r) (head (hdr r)) (unat (head_local p - head (hdr r)))"

text \<open>Slots in use from the producer's point of view: reserved or published, not released.\<close>

definition used :: "Ring \<Rightarrow> Producer \<Rightarrow> nat" where
  "used r p = unat (head (hdr r) - tail (hdr r)) + unat (head_local p - head (hdr r))"

definition slots_ok :: "nat \<Rightarrow> nat \<Rightarrow> Ring \<Rightarrow> bool" where
  "slots_ok k ss r \<longleftrightarrow> bits_ok k \<and> length (slots r) = 2 ^ k \<and>
     (\<forall>s\<in>set (slots r). length (payload s) = kPayloadMax ss)"

definition producer_ok :: "nat \<Rightarrow> nat \<Rightarrow> Ring \<Rightarrow> Producer \<Rightarrow> bool" where
  "producer_ok k ss r p \<longleftrightarrow> slots_ok k ss r \<and> head_published p = head (hdr r) \<and>
     unpublished p = head_local p - head_published p \<and> used r p \<le> 2 ^ k"

definition consumer_ok :: "nat \<Rightarrow> nat \<Rightarrow> Ring \<Rightarrow> Consumer \<Rightarrow> bool" where
  "consumer_ok k ss r c \<longleftrightarrow> slots_ok k ss r \<and> tail_local c = tail (hdr r) \<and>
     unat (head (hdr r) - tail (hdr r)) \<le> 2 ^ k"

definition msg_fits :: "nat \<Rightarrow> IpcPacket \<Rightarrow> bytes \<Rightarrow> bool" where
  "msg_fits ss pk pl \<longleftrightarrow> length pl = unat (payload_len pk) \<and> length pl \<le> kPayloadMax ss"

lemma length_seg [simp]: "length (seg k sl w n) = n"
  by (simp add: seg_def)

lemma seg_0 [simp]: "seg k sl w 0 = []"
  by (simp add: seg_def)

lemma seg_append: "seg k sl w (m + n) = seg k sl w m @ seg k sl (w + word_of_nat m) n"
  by (rule nth_equalityI)
    (auto simp: seg_def nth_append add.assoc simp flip: of_nat_add)

lemma take_seg: "m \<le> n \<Longrightarrow> take m (seg k sl w n) = seg k sl w m"
  using seg_append [of k sl w m "n - m"] by simp

lemma drop_seg: "m \<le> n \<Longrightarrow> drop m (seg k sl w n) = seg k sl (w + word_of_nat m) (n - m)"
  using seg_append [of k sl w m "n - m"] by simp

lemma seg_update:
  assumes "bits_ok k" "length sl = 2 ^ k" "j < 2 ^ k" "n \<le> 2 ^ k"
  shows "seg k (sl[slot_ix k (w + word_of_nat j) := s]) w n = (seg k sl w n)[j := slot_msg s]"
proof (rule nth_equalityI)
  fix i
  assume "i < length (seg k (sl[slot_ix k (w + word_of_nat j) := s]) w n)"
  then show "seg k (sl[slot_ix k (w + word_of_nat j) := s]) w n ! i
      = (seg k sl w n)[j := slot_msg s] ! i"
    using assms slot_ix_inj [of k w i j]
    by (cases "i = j") (auto simp: seg_def nth_list_update)
qed simp

lemma unat_diff_add:
  "unat (a - b :: u32) + n < 2 ^ 32 \<Longrightarrow> unat (a + word_of_nat n - b) = unat (a - b) + n"
  using unat_add_nat [of "a - b" n] by (simp add: algebra_simps)

lemma unat_diff_trans:
  "unat (a - b :: u32) + unat (b - c) < 2 ^ 32 \<Longrightarrow> unat (a - c) = unat (a - b) + unat (b - c)"
  using unat_add_nat [of "a - b" "unat (b - c)"] by simp

lemma used_small: "producer_ok k ss r p \<Longrightarrow> used r p \<le> 65536"
  using bits_ok_pow [of k] by (auto simp: producer_ok_def slots_ok_def)

lemma used_diff: "producer_ok k ss r p \<Longrightarrow> unat (head_local p - tail (hdr r)) = used r p"
  using used_small [of k ss r p] unat_diff_trans [of "head_local p" "head (hdr r)" "tail (hdr r)"]
  by (simp add: used_def)

lemma contents_staged:
  "contents k r @ staged k r p = seg k (slots r) (tail (hdr r)) (used r p)"
  using seg_append [of k "slots r" "tail (hdr r)" "unat (head (hdr r) - tail (hdr r))"
      "unat (head_local p - head (hdr r))"]
  by (simp add: contents_def staged_def used_def)

lemma length_contents: "length (contents k r) = unat (head (hdr r) - tail (hdr r))"
  by (simp add: contents_def)

lemma length_staged: "length (staged k r p) = unat (head_local p - head (hdr r))"
  by (simp add: staged_def)

lemma used_lengths: "used r p = length (contents k r) + length (staged k r p)"
  by (simp add: used_def length_contents length_staged)

lemma producer_full_used:
  assumes "producer_ok k ss r p" "used r p + lag \<le> 2 ^ k"
  shows "head_local p - (tail (hdr r) - word_of_nat lag) = kSlotCount k \<longleftrightarrow> used r p + lag = 2 ^ k"
proof -
  have k: "bits_ok k" using assms(1) by (simp add: producer_ok_def slots_ok_def)
  have "unat (head_local p + word_of_nat lag - tail (hdr r)) = used r p + lag"
    using unat_diff_add [of "head_local p" "tail (hdr r)" lag] used_diff [OF assms(1)]
      assms(2) bits_ok_pow [OF k] by simp
  moreover have "head_local p + word_of_nat lag - tail (hdr r)
      = head_local p - (tail (hdr r) - word_of_nat lag)" by simp
  ultimately show ?thesis
    using k by (metis unat_kSlotCount word_unat_eq_iff)
qed

lemma begin_write_at_used:
  assumes "producer_ok k ss r p" "used r p + lag \<le> 2 ^ k"
  shows "begin_write_at k (tail (hdr r) - word_of_nat lag) p =
    (if used r p + lag = 2 ^ k then (None, p)
     else (Some (slot_ix k (tail (hdr r) + word_of_nat (used r p))),
           p\<lparr>unpublished := unpublished p + 1, head_local := head_local p + 1\<rparr>))"
proof -
  have "tail (hdr r) + word_of_nat (used r p) = head_local p"
    by (simp flip: used_diff [OF assms(1)])
  then show ?thesis
    using producer_full_used [OF assms] by (simp add: begin_write_at_def slot_ix_def)
qed

lemma reserve_ok:
  assumes "producer_ok k ss r p" "used r p < 2 ^ k"
    "p' = p\<lparr>unpublished := unpublished p + 1, head_local := head_local p + 1\<rparr>"
  shows "producer_ok k ss r p'" "used r p' = used r p + 1"
    "length (staged k r p') = length (staged k r p) + 1"
proof -
  have "unat (head_local p - head (hdr r)) \<le> used r p" by (simp add: used_def)
  then have "unat (head_local p' - head (hdr r)) = unat (head_local p - head (hdr r)) + 1"
    using unat_diff_add [of "head_local p" "head (hdr r)" 1] used_small [OF assms(1)] assms(3)
    by simp
  then show "producer_ok k ss r p'" "used r p' = used r p + 1"
    "length (staged k r p') = length (staged k r p) + 1"
    using assms by (auto simp: producer_ok_def used_def length_staged)
qed

lemma fill_ok:
  assumes "msg_fits ss pk pl" "length (payload s) = kPayloadMax ss"
  shows "\<exists>s'. fill s pk pl = Inr s' \<and> slot_msg s' = (pk, pl) \<and> length (payload s') = kPayloadMax ss"
  using assms by (auto simp: fill_def msg_fits_def slot_msg_def Let_def)

lemma fill_at_ok:
  assumes ok: "producer_ok k ss r p" and fits: "msg_fits ss pk pl" and u: "0 < used r p"
    and i: "i = slot_ix k (tail (hdr r) + word_of_nat (used r p - 1))"
  obtains r' where "fill_at i pk pl r = Inr r'" "hdr r' = hdr r" "producer_ok k ss r' p"
    "contents k r' @ staged k r' p = (contents k r @ staged k r p)[used r p - 1 := (pk, pl)]"
proof -
  have k: "bits_ok k" and len: "length (slots r) = 2 ^ k" and le: "used r p \<le> 2 ^ k"
    using ok by (auto simp: producer_ok_def slots_ok_def)
  have "i < length (slots r)" using i k len by simp
  then have "slots r ! i \<in> set (slots r)" by simp
  then have "length (payload (slots r ! i)) = kPayloadMax ss"
    using ok by (auto simp: producer_ok_def slots_ok_def)
  from fill_ok [OF fits this] obtain s where
    s: "fill (slots r ! i) pk pl = Inr s" "slot_msg s = (pk, pl)"
      "length (payload s) = kPayloadMax ss" by auto
  let ?r = "r\<lparr>slots := (slots r)[i := s]\<rparr>"
  have "slots_ok k ss ?r"
    using ok s(3) by (auto simp: producer_ok_def slots_ok_def dest!: set_update_subset_insert [THEN subsetD])
  then have 1: "producer_ok k ss ?r p"
    using ok by (simp add: producer_ok_def used_def)
  have "used r p - 1 < 2 ^ k" using le u by simp
  from seg_update [OF k len this le]
  have 2: "contents k ?r @ staged k ?r p = (contents k r @ staged k r p)[used r p - 1 := (pk, pl)]"
    using s(2) i by (simp add: contents_staged used_def)
  show thesis by (rule that [of ?r]) (use 1 2 s in \<open>simp_all add: fill_at_def\<close>)
qed

lemma publish_ok:
  assumes ok: "producer_ok k ss r p"
  obtains r' p' where "publish (unpublished p) r p = Inr (r', p')" "producer_ok k ss r' p'"
    "contents k r' = contents k r @ staged k r p" "staged k r' p' = []"
    "slots r' = slots r" "tail (hdr r') = tail (hdr r)" "unpublished p' = 0"
    "head (hdr r') = head_local p" "head_local p' = head_local p"
proof -
  let ?p = "p\<lparr>unpublished := 0, head_published := head_local p\<rparr>"
  let ?r = "r\<lparr>hdr := (hdr r)\<lparr>head := head_local p\<rparr>\<rparr>"
  have eq: "publish (unpublished p) r p = Inr (?r, ?p)"
    using ok by (simp add: publish_def producer_ok_def)
  have 1: "contents k ?r = contents k r @ staged k r p"
    unfolding contents_staged by (simp add: contents_def used_diff [OF ok])
  have 2: "producer_ok k ss ?r ?p"
    using ok used_diff [OF ok] by (simp add: producer_ok_def slots_ok_def used_def)
  show thesis by (rule that [OF eq 2 1]) (simp_all add: staged_def)
qed

subsection \<open>Consumer lemmas\<close>

text \<open>The messages of a batch of \<open>n\<close> physically adjacent slots, from index \<open>i\<close>.\<close>

definition batch_msgs :: "Ring \<Rightarrow> nat \<Rightarrow> nat \<Rightarrow> msg list" where
  "batch_msgs r i n = map slot_msg (take n (drop i (slots r)))"

lemma unat_min: "unat (min a b) = min (unat a) (unat b)" for a b :: u32
  by (simp add: min_def word_le_nat_alt)

lemma unat_to_end:
  assumes "bits_ok k"
  shows "unat (kSlotCount k - (w AND kMask k)) = 2 ^ k - slot_ix k w"
proof -
  have "unat (w AND kMask k) \<le> unat (kSlotCount k)"
    using slot_ix_less [OF assms, of w] assms by (simp add: slot_ix_def)
  then show ?thesis using assms by (simp add: unat_sub word_le_nat_alt slot_ix_def)
qed

lemma unat_diff_back:
  "lag \<le> unat (a - b :: u32) \<Longrightarrow> unat (a - word_of_nat lag - b) = unat (a - b) - lag"
proof -
  assume le: "lag \<le> unat (a - b)"
  then have "lag < 4294967296" by (rule le_less_trans) simp
  then have u: "unat (word_of_nat lag :: u32) = lag"
    by (simp add: unsigned_of_nat take_bit_nat_eq_self)
  have "a - word_of_nat lag - b = (a - b) - word_of_nat lag" by simp
  also have "unat \<dots> = unat (a - b) - lag"
    using le u by (simp add: unat_sub word_le_nat_alt)
  finally show ?thesis .
qed

lemma batch_contents:
  assumes "slots_ok k ss r" "n \<le> length (contents k r)" "slot_ix k (tail (hdr r)) + n \<le> 2 ^ k"
  shows "batch_msgs r (slot_ix k (tail (hdr r))) n = take n (contents k r)"
proof (rule nth_equalityI)
  show "length (batch_msgs r (slot_ix k (tail (hdr r))) n) = length (take n (contents k r))"
    using assms by (simp add: batch_msgs_def slots_ok_def)
next
  fix j
  assume "j < length (batch_msgs r (slot_ix k (tail (hdr r))) n)"
  then have j: "j < n" using assms by (simp add: batch_msgs_def slots_ok_def)
  have k: "bits_ok k" using assms(1) by (simp add: slots_ok_def)
  have "slot_ix k (tail (hdr r) + word_of_nat j) = slot_ix k (tail (hdr r)) + j"
    using assms(3) j by (intro slot_ix_contig [OF k]) simp
  then show "batch_msgs r (slot_ix k (tail (hdr r))) n ! j = take n (contents k r) ! j"
    using assms j k by (simp add: batch_msgs_def contents_def seg_def slots_ok_def)
qed

text \<open>\<open>pop_batch\<close> with a possibly stale head, \<open>lag\<close> messages behind the published one.\<close>

lemma pop_batch_at_ok:
  assumes ok: "consumer_ok k ss r c" and lag: "lag \<le> length (contents k r)"
    and pop: "pop_batch_at k (head (hdr r) - word_of_nat lag) c max_n = (n, out)"
  shows "unat n = min (unat max_n) (min (length (contents k r) - lag) (2 ^ k - slot_ix k (tail (hdr r))))"
    and "out = (if n = 0 then None else Some (slot_ix k (tail (hdr r))))"
    and "batch_msgs r (slot_ix k (tail (hdr r))) (unat n) = take (unat n) (contents k r)"
proof -
  have k: "bits_ok k" and tl: "tail_local c = tail (hdr r)" and so: "slots_ok k ss r"
    using ok by (auto simp: consumer_ok_def slots_ok_def)
  have avail: "unat (head (hdr r) - word_of_nat lag - tail (hdr r)) = length (contents k r) - lag"
    using unat_diff_back [of lag "head (hdr r)" "tail (hdr r)"] lag by (simp add: length_contents)
  have neq: "n = min (min max_n (head (hdr r) - word_of_nat lag - tail (hdr r)))
      (kSlotCount k - (tail (hdr r) AND kMask k))"
    using pop tl by (auto simp: pop_batch_at_def Let_def split: if_splits)
  show n: "unat n = min (unat max_n) (min (length (contents k r) - lag) (2 ^ k - slot_ix k (tail (hdr r))))"
    using avail unat_to_end [OF k, of "tail (hdr r)"]
    by (simp add: neq unat_min min.assoc)
  show "out = (if n = 0 then None else Some (slot_ix k (tail (hdr r))))"
    using pop tl by (auto simp: pop_batch_at_def Let_def slot_ix_def split: if_splits)
  show "batch_msgs r (slot_ix k (tail (hdr r))) (unat n) = take (unat n) (contents k r)"
    using batch_contents [OF so, of "unat n"] n slot_ix_less [OF k, of "tail (hdr r)"] by simp
qed

lemma release_ok:
  assumes ok: "consumer_ok k ss r c" and n: "unat n \<le> length (contents k r)"
    and rel: "release n r c = (r', c')"
  shows "consumer_ok k ss r' c'" "contents k r' = drop (unat n) (contents k r)"
    "slots r' = slots r" "head (hdr r') = head (hdr r)" "staged k r' p = staged k r p"
    "producer_ok k ss r p \<Longrightarrow> producer_ok k ss r' p \<and> used r' p = used r p - unat n"
proof -
  have r': "r' = r\<lparr>hdr := (hdr r)\<lparr>tail := tail (hdr r) + n\<rparr>\<rparr>"
    and c': "c' = c\<lparr>tail_local := tail (hdr r) + n\<rparr>"
    using rel ok by (auto simp: release_def consumer_ok_def Let_def)
  have "head (hdr r) - (tail (hdr r) + n) = head (hdr r) - word_of_nat (unat n) - tail (hdr r)"
    by simp
  then have diff: "unat (head (hdr r) - (tail (hdr r) + n)) = unat (head (hdr r) - tail (hdr r)) - unat n"
    using unat_diff_back [of "unat n" "head (hdr r)" "tail (hdr r)"] n
    by (simp only: length_contents)
  show "consumer_ok k ss r' c'"
    using ok diff by (auto simp: consumer_ok_def slots_ok_def r' c')
  show "contents k r' = drop (unat n) (contents k r)"
    unfolding contents_def using n
    by (subst drop_seg) (simp_all add: length_contents r' diff)
  show "slots r' = slots r" "head (hdr r') = head (hdr r)" "staged k r' p = staged k r p"
    by (simp_all add: r' staged_def)
  show "producer_ok k ss r p \<Longrightarrow> producer_ok k ss r' p \<and> used r' p = used r p - unat n"
    using n diff by (auto simp: producer_ok_def slots_ok_def used_def r' length_contents)
qed

lemma publish_consumer_ok:
  assumes "consumer_ok k ss r c" "producer_ok k ss r' p'" "slots r' = slots r"
    "tail (hdr r') = tail (hdr r)"
  shows "consumer_ok k ss r' c"
  using assms by (auto simp: consumer_ok_def producer_ok_def used_def)

subsection \<open>Push and pop as queue operations\<close>

lemma push_spec:
  assumes ok: "producer_ok k ss r p" and up: "unpublished p = 0" and fits: "msg_fits ss pk pl"
  shows "\<exists>r' p'. push k pk pl r p = Inr (length (contents k r) < 2 ^ k, r', p') \<and>
           producer_ok k ss r' p' \<and> unpublished p' = 0 \<and> tail (hdr r') = tail (hdr r) \<and>
           contents k r' = (if length (contents k r) < 2 ^ k then contents k r @ [(pk, pl)]
                            else contents k r)"
proof -
  have hl: "head_local p = head (hdr r)"
    using ok up by (simp add: producer_ok_def)
  then have st: "staged k r p = []" and u: "used r p = length (contents k r)"
    by (simp_all add: staged_def used_def length_contents)
  have le: "used r p \<le> 2 ^ k" using ok by (simp add: producer_ok_def)
  note bw = begin_write_at_used [OF ok, of 0, simplified, OF le]
  show ?thesis
  proof (cases "used r p = 2 ^ k")
    case True
    then show ?thesis using ok up u bw by (simp add: push_def begin_write_def)
  next
    case False
    let ?p = "p\<lparr>unpublished := unpublished p + 1, head_local := head_local p + 1\<rparr>"
    have lt: "used r p < 2 ^ k" using False le by simp
    note res = reserve_ok [OF ok lt refl]
    have u1: "0 < used r ?p" and u2: "used r ?p - 1 = used r p" using res(2) by simp_all
    let ?i = "slot_ix k (tail (hdr r) + word_of_nat (used r ?p - 1))"
    obtain r1 where r1: "fill_at ?i pk pl r = Inr r1" "hdr r1 = hdr r" "producer_ok k ss r1 ?p"
      "contents k r1 @ staged k r1 ?p = (contents k r @ staged k r ?p)[used r p := (pk, pl)]"
      using fill_at_ok [OF res(1) fits u1 refl] u2 by metis
    obtain m where m: "staged k r ?p = [m]"
      using res(3) st by (auto simp: length_Suc_conv)
    have "contents k r1 @ staged k r1 ?p = contents k r @ [(pk, pl)]"
      using r1(4) m by (simp add: u list_update_append)
    moreover obtain r2 p2 where "publish (unpublished ?p) r1 ?p = Inr (r2, p2)"
      "producer_ok k ss r2 p2" "contents k r2 = contents k r1 @ staged k r1 ?p"
      "tail (hdr r2) = tail (hdr r1)" "unpublished p2 = 0"
      using publish_ok [OF r1(3)] by metis
    ultimately show ?thesis
      using bw False lt up u r1(1,2) u2 by (auto simp: push_def begin_write_def)
  qed
qed

subsection \<open>Two processes on one ring\<close>

text \<open>
  The interleaving of a producer and a consumer process. Each step is one operation of one
  side; between them the other side may do anything. A load of the peer's counter may
  return an old value: \<open>lag_tail\<close> bounds how many releases the producer may not have
  seen, \<open>lag_head\<close> how many published messages the consumer may not have seen, and
  neither view ever moves backwards. \<open>pending\<close> is the slot the producer has reserved and
  not filled, \<open>batch\<close> the slots the consumer is reading. \<open>sent\<close> and \<open>got\<close> record the
  messages filled in and read out.
\<close>

record SpscSys =
  ring :: Ring
  writer :: Producer
  reader :: Consumer
  pending :: "nat option"
  batch :: "(nat \<times> u32) option"
  lag_tail :: nat
  lag_head :: nat
  sent :: "msg list"
  got :: "msg list"

definition spsc_init :: "Ring \<Rightarrow> SpscSys" where
  "spsc_init r = \<lparr>ring = r, writer = mk_Producer r, reader = mk_Consumer r, pending = None,
     batch = None, lag_tail = 0, lag_head = 0, sent = [], got = []\<rparr>"

inductive spsc_step :: "nat \<Rightarrow> nat \<Rightarrow> SpscSys \<Rightarrow> SpscSys \<Rightarrow> bool" for k ss where
  Reserve: "pending s = None \<Longrightarrow> lag \<le> lag_tail s \<Longrightarrow>
    begin_write_at k (tail (hdr (ring s)) - word_of_nat lag) (writer s) = (res, p') \<Longrightarrow>
    spsc_step k ss s (s\<lparr>writer := p', pending := res, lag_tail := lag\<rparr>)"
| Fill: "pending s = Some i \<Longrightarrow> msg_fits ss pk pl \<Longrightarrow> fill_at i pk pl (ring s) = Inr r' \<Longrightarrow>
    spsc_step k ss s (s\<lparr>ring := r', pending := None, sent := sent s @ [(pk, pl)]\<rparr>)"
| Publish: "pending s = None \<Longrightarrow> publish (unpublished (writer s)) (ring s) (writer s) = Inr (r', p') \<Longrightarrow>
    spsc_step k ss s (s\<lparr>ring := r', writer := p',
      lag_head := lag_head s + unat (unpublished (writer s))\<rparr>)"
| Pop: "batch s = None \<Longrightarrow> lag \<le> lag_head s \<Longrightarrow>
    pop_batch_at k (head (hdr (ring s)) - word_of_nat lag) (reader s) max_n = (n, out) \<Longrightarrow>
    spsc_step k ss s (s\<lparr>batch := map_option (\<lambda>i. (i, n)) out, lag_head := lag\<rparr>)"
| Release: "batch s = Some (i, n) \<Longrightarrow> release n (ring s) (reader s) = (r', c') \<Longrightarrow>
    spsc_step k ss s (s\<lparr>ring := r', reader := c', batch := None,
      lag_tail := lag_tail s + unat n,
      got := got s @ batch_msgs (ring s) i (unat n)\<rparr>)"

inductive spsc_reach :: "nat \<Rightarrow> nat \<Rightarrow> SpscSys \<Rightarrow> bool" for k ss where
  init: "slots_ok k ss r \<Longrightarrow> head (hdr r) = tail (hdr r) \<Longrightarrow> spsc_reach k ss (spsc_init r)"
| step: "spsc_reach k ss s \<Longrightarrow> spsc_step k ss s s' \<Longrightarrow> spsc_reach k ss s'"

text \<open>Everything filled in so far, the slot just reserved apart.\<close>

definition filled :: "nat \<Rightarrow> SpscSys \<Rightarrow> msg list" where
  "filled k s = (let q = contents k (ring s) @ staged k (ring s) (writer s) in
     if pending s = None then q else butlast q)"

definition spsc_inv :: "nat \<Rightarrow> nat \<Rightarrow> SpscSys \<Rightarrow> bool" where
  "spsc_inv k ss s \<longleftrightarrow>
     producer_ok k ss (ring s) (writer s) \<and> consumer_ok k ss (ring s) (reader s) \<and>
     used (ring s) (writer s) + lag_tail s \<le> 2 ^ k \<and>
     lag_head s \<le> length (contents k (ring s)) \<and>
     sent s = got s @ filled k s \<and>
     (\<forall>i. pending s = Some i \<longrightarrow>
        staged k (ring s) (writer s) \<noteq> [] \<and> i = slot_ix k (head_local (writer s) - 1)) \<and>
     (\<forall>i n. batch s = Some (i, n) \<longrightarrow> i = slot_ix k (tail (hdr (ring s))) \<and>
        unat n + lag_head s \<le> length (contents k (ring s)) \<and> i + unat n \<le> 2 ^ k)"

lemma tail_plus_used:
  assumes "producer_ok k ss r p"
  shows "tail (hdr r) + word_of_nat (used r p) = head_local p"
  by (simp flip: used_diff [OF assms])

lemma pending_ix:
  assumes "producer_ok k ss r p" "0 < used r p"
  shows "slot_ix k (head_local p - 1) = slot_ix k (tail (hdr r) + word_of_nat (used r p - 1))"
  using assms(2)
  by (simp add: of_nat_diff Suc_le_eq add_diff_eq flip: tail_plus_used [OF assms(1)])

lemma spsc_inv_init:
  "slots_ok k ss r \<Longrightarrow> head (hdr r) = tail (hdr r) \<Longrightarrow> spsc_inv k ss (spsc_init r)"
  by (simp add: spsc_inv_def spsc_init_def producer_ok_def consumer_ok_def mk_Producer_def
      mk_Consumer_def used_def filled_def contents_def staged_def)

lemma spsc_inv_reserve:
  assumes inv: "spsc_inv k ss s" and pend: "pending s = None" and lag: "lag \<le> lag_tail s"
    and bw: "begin_write_at k (tail (hdr (ring s)) - word_of_nat lag) (writer s) = (res, p')"
  shows "spsc_inv k ss (s\<lparr>writer := p', pending := res, lag_tail := lag\<rparr>)"
proof -
  let ?u = "used (ring s) (writer s)"
  have ok: "producer_ok k ss (ring s) (writer s)" and le: "?u + lag \<le> 2 ^ k"
    using inv lag by (auto simp: spsc_inv_def)
  show ?thesis
  proof (cases "?u + lag = 2 ^ k")
    case True
    then have "res = None" "p' = writer s" using bw begin_write_at_used [OF ok le] by simp_all
    then show ?thesis using inv pend le by (simp add: spsc_inv_def filled_def)
  next
    case False
    then have "?u < 2 ^ k" using le by simp
    let ?p = "(writer s)\<lparr>unpublished := unpublished (writer s) + 1, head_local := head_local (writer s) + 1\<rparr>"
    have p': "p' = ?p" and res: "res = Some (slot_ix k (head_local (writer s)))"
      using bw False begin_write_at_used [OF ok le] tail_plus_used [OF ok] by simp_all
    note r = reserve_ok [OF ok \<open>?u < 2 ^ k\<close> p']
    have "butlast (contents k (ring s) @ staged k (ring s) p')
        = contents k (ring s) @ staged k (ring s) (writer s)"
      using r(2) by (simp add: contents_staged butlast_conv_take take_seg)
    moreover have "staged k (ring s) p' \<noteq> []" using r(3) by auto
    ultimately show ?thesis
      using inv pend r(1,2) le False res
      by (auto simp: spsc_inv_def filled_def Let_def p')
  qed
qed

lemma spsc_inv_fill:
  assumes inv: "spsc_inv k ss s" and pend: "pending s = Some i" and fits: "msg_fits ss pk pl"
    and fl: "fill_at i pk pl (ring s) = Inr r'"
  shows "spsc_inv k ss (s\<lparr>ring := r', pending := None, sent := sent s @ [(pk, pl)]\<rparr>)"
proof -
  let ?q = "contents k (ring s) @ staged k (ring s) (writer s)"
  have ok: "producer_ok k ss (ring s) (writer s)" and st: "staged k (ring s) (writer s) \<noteq> []"
    and i: "i = slot_ix k (head_local (writer s) - 1)"
    using inv pend by (auto simp: spsc_inv_def)
  have len: "used (ring s) (writer s) = length ?q"
    using used_lengths [of "ring s" "writer s" k] by simp
  with st have u: "0 < used (ring s) (writer s)" by simp
  obtain r1 where r1: "fill_at i pk pl (ring s) = Inr r1" "hdr r1 = hdr (ring s)"
    "producer_ok k ss r1 (writer s)"
    "contents k r1 @ staged k r1 (writer s) = ?q[used (ring s) (writer s) - 1 := (pk, pl)]"
    using fill_at_ok [OF ok fits u] pending_ix [OF ok u] i by metis
  have "?q[used (ring s) (writer s) - 1 := (pk, pl)] = butlast ?q @ [(pk, pl)]"
    unfolding len using st by (intro list_update_last_pos) simp
  moreover have "r' = r1" using r1(1) fl by simp
  moreover have "consumer_ok k ss r1 (reader s)"
    using inv r1(2,3) by (auto simp: spsc_inv_def consumer_ok_def producer_ok_def used_def)
  ultimately show ?thesis
    using inv pend r1 by (simp add: spsc_inv_def filled_def Let_def length_contents used_def)
qed

lemma spsc_inv_publish:
  assumes inv: "spsc_inv k ss s" and pend: "pending s = None"
    and pb: "publish (unpublished (writer s)) (ring s) (writer s) = Inr (r', p')"
  shows "spsc_inv k ss (s\<lparr>ring := r', writer := p',
    lag_head := lag_head s + unat (unpublished (writer s))\<rparr>)"
proof -
  have ok: "producer_ok k ss (ring s) (writer s)" using inv by (simp add: spsc_inv_def)
  obtain r1 p1 where pub: "publish (unpublished (writer s)) (ring s) (writer s) = Inr (r1, p1)"
    "producer_ok k ss r1 p1"
    "contents k r1 = contents k (ring s) @ staged k (ring s) (writer s)" "staged k r1 p1 = []"
    "slots r1 = slots (ring s)" "tail (hdr r1) = tail (hdr (ring s))"
    using publish_ok [OF ok] by metis
  have eq: "r1 = r'" "p1 = p'" using pub(1) pb by simp_all
  have "consumer_ok k ss r1 (reader s)"
    using inv pub by (intro publish_consumer_ok [OF _ pub(2)]) (auto simp: spsc_inv_def)
  moreover have "unat (unpublished (writer s)) = length (staged k (ring s) (writer s))"
    using ok by (simp add: producer_ok_def length_staged)
  moreover have "used r1 p1 = used (ring s) (writer s)"
    using pub(3,4) used_lengths [of r1 p1 k] used_lengths [of "ring s" "writer s" k] by simp
  ultimately show ?thesis
    using inv pend pub unfolding eq by (auto simp: spsc_inv_def filled_def)
qed

lemma spsc_inv_pop:
  assumes inv: "spsc_inv k ss s" and b: "batch s = None" and lag: "lag \<le> lag_head s"
    and pop: "pop_batch_at k (head (hdr (ring s)) - word_of_nat lag) (reader s) max_n = (n, out)"
  shows "spsc_inv k ss (s\<lparr>batch := map_option (\<lambda>i. (i, n)) out, lag_head := lag\<rparr>)"
proof -
  have ok: "consumer_ok k ss (ring s) (reader s)" and le: "lag \<le> length (contents k (ring s))"
    using inv lag by (auto simp: spsc_inv_def)
  have "slot_ix k (tail (hdr (ring s))) < 2 ^ k"
    using ok by (intro slot_ix_less) (simp add: consumer_ok_def slots_ok_def)
  with pop_batch_at_ok(1,2) [OF ok le pop] show ?thesis
    using inv b le by (auto simp: spsc_inv_def filled_def split: if_splits)
qed

lemma spsc_inv_release:
  assumes inv: "spsc_inv k ss s" and b: "batch s = Some (i, n)"
    and rel: "release n (ring s) (reader s) = (r', c')"
  shows "spsc_inv k ss (s\<lparr>ring := r', reader := c', batch := None,
      lag_tail := lag_tail s + unat n, got := got s @ batch_msgs (ring s) i (unat n)\<rparr>)"
proof -
  have ok: "consumer_ok k ss (ring s) (reader s)" and p: "producer_ok k ss (ring s) (writer s)"
    and n: "unat n \<le> length (contents k (ring s))" and i: "i = slot_ix k (tail (hdr (ring s)))"
    and e: "i + unat n \<le> 2 ^ k"
    using inv b by (auto simp: spsc_inv_def)
  note r = release_ok [OF ok n rel]
  have bm: "batch_msgs (ring s) i (unat n) = take (unat n) (contents k (ring s))"
    using batch_contents [of k ss "ring s" "unat n"] ok n i e by (simp add: consumer_ok_def)
  have "filled k s = take (unat n) (contents k (ring s)) @ filled k
      (s\<lparr>ring := r', reader := c', batch := None, lag_tail := lag_tail s + unat n,
         got := got s @ batch_msgs (ring s) i (unat n)\<rparr>)"
    using inv r(2,5) by (auto simp: filled_def Let_def butlast_append spsc_inv_def)
  moreover have "unat n \<le> used (ring s) (writer s)"
    using n by (simp add: used_def length_contents)
  ultimately show ?thesis
    using inv b r p bm by (auto simp: spsc_inv_def)
qed

lemma spsc_reach_inv: "spsc_reach k ss s \<Longrightarrow> spsc_inv k ss s"
proof (induction rule: spsc_reach.induct)
  case (step s s')
  from step.hyps(2) step.IH show ?case
    by (cases rule: spsc_step.cases)
      (blast intro: spsc_inv_reserve spsc_inv_fill spsc_inv_publish spsc_inv_pop spsc_inv_release)+
qed (rule spsc_inv_init)

subsection \<open>The ring keeps the queue contract\<close>

text \<open>Both views of one ring; the consumer reads the batch before it releases it.\<close>

type_synonym ring_state = "Ring \<times> Producer \<times> Consumer"

fun ring_inv :: "nat \<Rightarrow> nat \<Rightarrow> ring_state \<Rightarrow> bool" where
  "ring_inv k ss (r, p, c) \<longleftrightarrow> producer_ok k ss r p \<and> consumer_ok k ss r c \<and> unpublished p = 0"

fun ring_items :: "nat \<Rightarrow> ring_state \<Rightarrow> msg list" where
  "ring_items k (r, p, c) = contents k r"

fun ring_enq :: "nat \<Rightarrow> msg \<Rightarrow> ring_state \<Rightarrow> (bool \<times> ring_state) res" where
  "ring_enq k (pk, pl) (r, p, c) =
     (case push k pk pl r p of Inl e \<Rightarrow> Inl e | Inr (ok, r', p') \<Rightarrow> Inr (ok, r', p', c))"

fun ring_deq :: "nat \<Rightarrow> nat \<Rightarrow> ring_state \<Rightarrow> msg list \<times> ring_state" where
  "ring_deq k n (r, p, c) =
     (case pop_batch k r c (word_of_nat (min n 4294967295)) of
        (m, None) \<Rightarrow> ([], r, p, c)
      | (m, Some i) \<Rightarrow> (batch_msgs r i (unat m),
                       case release m r c of (r', c') \<Rightarrow> (r', p, c')))"

fun msg_ok :: "nat \<Rightarrow> msg \<Rightarrow> bool" where
  "msg_ok ss (pk, pl) \<longleftrightarrow> msg_fits ss pk pl"

lemma ring_enq_ok:
  assumes "ring_inv k ss s" "msg_ok ss m"
  shows "\<exists>s'. ring_enq k m s = Inr (length (ring_items k s) < 2 ^ k, s') \<and> ring_inv k ss s' \<and>
    ring_items k s' = (if length (ring_items k s) < 2 ^ k then ring_items k s @ [m] else ring_items k s)"
proof -
  obtain r p c pk pl where s: "s = (r, p, c)" "m = (pk, pl)" by (cases s; cases m) auto
  obtain r' p' where r': "push k pk pl r p = Inr (length (contents k r) < 2 ^ k, r', p')"
    "producer_ok k ss r' p'" "unpublished p' = 0" "tail (hdr r') = tail (hdr r)"
    "contents k r' = (if length (contents k r) < 2 ^ k then contents k r @ [(pk, pl)] else contents k r)"
    using push_spec [of k ss r p pk pl] assms s by auto
  have "consumer_ok k ss r' c"
    using r'(2,4) assms(1) s(1) by (auto simp: consumer_ok_def producer_ok_def used_def)
  with r' s show ?thesis by auto
qed

lemma ring_enq_room:
  "ring_inv k ss s \<Longrightarrow> msg_ok ss m \<Longrightarrow> length (ring_items k s) < 2 ^ k \<Longrightarrow>
     \<exists>s'. ring_enq k m s = Inr (True, s') \<and> ring_inv k ss s' \<and> ring_items k s' = ring_items k s @ [m]"
  using ring_enq_ok [of k ss s m] by simp

lemma ring_enq_full:
  "ring_inv k ss s \<Longrightarrow> msg_ok ss m \<Longrightarrow> \<not> length (ring_items k s) < 2 ^ k \<Longrightarrow>
     \<exists>s'. ring_enq k m s = Inr (False, s') \<and> ring_inv k ss s' \<and> ring_items k s' = ring_items k s"
  using ring_enq_ok [of k ss s m] by simp

lemma ring_deq_ok:
  assumes "ring_inv k ss s" "ring_deq k n s = (b, s')"
  shows "ring_inv k ss s' \<and> ring_items k s = b @ ring_items k s'"
    and "0 < n \<Longrightarrow> ring_items k s \<noteq> [] \<Longrightarrow> b \<noteq> []"
proof -
  obtain r p c where s: "s = (r, p, c)" by (cases s) auto
  have c: "consumer_ok k ss r c" and p: "producer_ok k ss r p" "unpublished p = 0"
    using assms(1) s by auto
  let ?max = "word_of_nat (min n 4294967295) :: u32"
  obtain m out where pop: "pop_batch k r c ?max = (m, out)" by fastforce
  note po = pop_batch_at_ok [OF c, of 0 ?max m out, simplified, OF pop [unfolded pop_batch_def]]
  have m: "unat m \<le> length (contents k r)" by (simp add: po(1))
  obtain r' c' where rel: "release m r c = (r', c')" by fastforce
  note ro = release_ok [OF c m rel]
  have b: "b = take (unat m) (contents k r) \<and>
      s' = (if m = 0 then (r, p, c) else (r', p, c'))"
    using assms(2) po(2,3) by (auto simp: s pop rel split: if_splits)
  have "p' = p \<Longrightarrow> unpublished p' = 0" for p' using p by simp
  then show "ring_inv k ss s' \<and> ring_items k s = b @ ring_items k s'"
    using b ro(1,2) ro(6) [OF p(1)] c p by (auto simp: s)
  have mx: "unat ?max = min n 4294967295"
    by (simp add: unsigned_of_nat take_bit_nat_eq_self)
  assume "0 < n" "ring_items k s \<noteq> []"
  moreover have "slot_ix k (tail (hdr r)) < 2 ^ k"
    using c by (intro slot_ix_less) (simp add: consumer_ok_def slots_ok_def)
  ultimately have "0 < unat m" unfolding po(1) mx by (simp add: s)
  with b \<open>ring_items k s \<noteq> []\<close> show "b \<noteq> []" by (auto simp: s)
qed

lemma ring_deq_progress:
  "ring_inv k ss s \<Longrightarrow> 0 < n \<Longrightarrow> ring_items k s \<noteq> [] \<Longrightarrow> fst (ring_deq k n s) \<noteq> []"
  using ring_deq_ok(2) [of k ss s n "fst (ring_deq k n s)" "snd (ring_deq k n s)"] by simp

lemma ring_within: "ring_inv k ss s \<Longrightarrow> length (ring_items k s) \<le> 2 ^ k"
  by (cases s) (auto simp: consumer_ok_def length_contents)

interpretation req: bounded_fifo "ring_inv kReqBits kReqSlotSize" "ring_items kReqBits"
  "2 ^ kReqBits" "msg_ok kReqSlotSize" "ring_enq kReqBits" "ring_deq kReqBits"
  by unfold_locales
    (erule (2) ring_enq_room, erule (2) ring_enq_full, erule ring_within,
      erule (1) ring_deq_ok(1), erule (2) ring_deq_progress)

interpretation rsp: bounded_fifo "ring_inv kRspBits kRspSlotSize" "ring_items kRspBits"
  "2 ^ kRspBits" "msg_ok kRspSlotSize" "ring_enq kRspBits" "ring_deq kRspBits"
  by unfold_locales
    (erule (2) ring_enq_room, erule (2) ring_enq_full, erule ring_within,
      erule (1) ring_deq_ok(1), erule (2) ring_deq_progress)

subsection \<open>Properties of the ring\<close>

text \<open>Property C30: no loss, no duplication, no reordering. In every interleaving of the two
  processes, with counters started at any 32-bit value and any staleness of the counters read,
  what the consumer has read followed by what is published in the ring is an initial part of
  what the producer filled in; it is all of it once nothing is reserved or unpublished.\<close>

theorem spsc_fifo:
  assumes "spsc_reach k ss s"
  shows "\<exists>rest. sent s = got s @ contents k (ring s) @ rest \<and>
    (pending s = None \<and> unpublished (writer s) = 0 \<longrightarrow> rest = [])"
proof (cases "pending s")
  case None
  then show ?thesis
    using spsc_reach_inv [OF assms]
    by (auto simp: spsc_inv_def filled_def producer_ok_def staged_def)
next
  case (Some i)
  then show ?thesis
    using spsc_reach_inv [OF assms] by (auto simp: spsc_inv_def filled_def butlast_append)
qed

text \<open>Property C31: the two sides never touch the same slot. While the consumer reads a batch, the
  slot that the producer has reserved and is filling is not one of the batch.\<close>

theorem spsc_no_race:
  assumes "spsc_reach k ss s" "batch s = Some (i, n)" "pending s = Some j"
  shows "j \<notin> {i..<i + unat n}"
proof
  assume "j \<in> {i..<i + unat n}"
  then obtain m where m: "j = i + m" "m < unat n" by (auto simp: le_iff_add)
  let ?r = "ring s" and ?p = "writer s"
  have inv: "producer_ok k ss ?r ?p" "staged k ?r ?p \<noteq> []" "j = slot_ix k (head_local ?p - 1)"
    "i = slot_ix k (tail (hdr ?r))" "unat n \<le> length (contents k ?r)" "i + unat n \<le> 2 ^ k"
    using spsc_reach_inv [OF assms(1)] assms(2,3) by (auto simp: spsc_inv_def)
  have k: "bits_ok k" and le: "used ?r ?p \<le> 2 ^ k"
    using inv(1) by (auto simp: producer_ok_def slots_ok_def)
  have u: "length (contents k ?r) < used ?r ?p"
    using inv(2) used_lengths [of ?r ?p k] by simp
  have "slot_ix k (tail (hdr ?r) + word_of_nat m) = i + m"
    using inv(4,6) m slot_ix_contig [OF k, of "tail (hdr ?r)" m] by simp
  moreover have "j = slot_ix k (tail (hdr ?r) + word_of_nat (used ?r ?p - 1))"
    using inv(3) pending_ix [OF inv(1)] u by simp
  ultimately have "m = used ?r ?p - 1"
    using slot_ix_inj [OF k, of "tail (hdr ?r)" m "used ?r ?p - 1"] m inv(5) u le by simp
  then show False using m(2) inv(5) u by simp
qed

text \<open>The bounded FIFO contract of a single push. A push on a ring with no
  outstanding reservation never fails an assertion or overruns a slot; it succeeds exactly when
  fewer than the capacity are published and then appends the message, and otherwise leaves the
  contents alone.\<close>

theorem push_refines_fifo:
  assumes "producer_ok k ss r p" "unpublished p = 0" "msg_fits ss pk pl"
  shows "\<exists>r' p'. push k pk pl r p = Inr (length (contents k r) < 2 ^ k, r', p') \<and>
    producer_ok k ss r' p' \<and> unpublished p' = 0 \<and>
    contents k r' = (if length (contents k r) < 2 ^ k then contents k r @ [(pk, pl)]
                     else contents k r)"
  using push_spec [OF assms] by metis

text \<open>The request ring delivers. Messages pushed while they fit into the 512 slots
  are read back by the consumer, batch by batch of any size, behind what was already queued,
  each exactly once and in order, and the ring is then empty.\<close>

theorem req_ring_delivers:
  assumes "ring_inv kReqBits kReqSlotSize s" "\<forall>m\<in>set ms. msg_ok kReqSlotSize m"
    "length (ring_items kReqBits s) + length ms \<le> 2 ^ kReqBits" "0 < n" "2 ^ kReqBits < fuel"
  shows "\<exists>s' s''. enq_all (ring_enq kReqBits) ms s = Inr ([], s') \<and>
    deq_rounds fuel (ring_deq kReqBits) n s' = (ring_items kReqBits s @ ms, s'') \<and>
    ring_items kReqBits s'' = []"
  using req.through [OF assms] by metis

subsection \<open>Witnesses\<close>

text \<open>A ring of two slots of two payload bytes whose counters are about to wrap.\<close>

definition demo_ring :: Ring where
  "demo_ring = \<lparr>hdr = \<lparr>head = 0xFFFFFFFF, producer_pid = 0, producer_heartbeat_ns = 0,
                     tail = 0xFFFFFFFF, consumer_pid = 0, consumer_heartbeat_ns = 0\<rparr>,
     slots = [\<lparr>pkt = packet0, payload = [0, 0]\<rparr>, \<lparr>pkt = packet0, payload = [0, 0]\<rparr>]\<rparr>"

definition demo_pkt :: IpcPacket where
  "demo_pkt = packet0\<lparr>conn_id := 5, payload_len := 2\<rparr>"

lemmas demo_defs = demo_ring_def demo_pkt_def packet0_def spsc_init_def mk_Producer_def
  mk_Consumer_def begin_write_at_def kSlotCount_def kMask_def fill_at_def fill_def publish_def
  pop_batch_at_def release_def msg_fits_def kPayloadMax_def sizeof_IpcPacket_def slots_ok_def bits_ok_def

definition demo_ring2 :: Ring where
  "demo_ring2 = demo_ring\<lparr>hdr := (hdr demo_ring)\<lparr>head := 0\<rparr>,
     slots := [\<lparr>pkt = packet0, payload = [0, 0]\<rparr>, \<lparr>pkt = demo_pkt, payload = [7, 8]\<rparr>]\<rparr>"

text \<open>One message published, the consumer reading it, the producer filling the next slot.\<close>

definition demo_sys :: SpscSys where
  "demo_sys = \<lparr>ring = demo_ring2, writer = \<lparr>head_local = 1, head_published = 0, unpublished = 1\<rparr>,
     reader = \<lparr>tail_local = 0xFFFFFFFF\<rparr>, pending = Some 0, batch = Some (1, 1), lag_tail = 0,
     lag_head = 0, sent = [(demo_pkt, [7, 8])], got = []\<rparr>"

lemma demo_reach: "spsc_reach 1 34 demo_sys"
proof -
  let ?p1 = "\<lparr>head_local = 0, head_published = 0xFFFFFFFF, unpublished = 1\<rparr>"
  let ?r1 = "demo_ring\<lparr>slots := slots demo_ring2\<rparr>"
  let ?s0 = "spsc_init demo_ring"
  let ?s1 = "?s0\<lparr>writer := ?p1, pending := Some 1, lag_tail := 0\<rparr>"
  let ?s2 = "?s1\<lparr>ring := ?r1, pending := None, sent := sent ?s1 @ [(demo_pkt, [7, 8])]\<rparr>"
  let ?p2 = "\<lparr>head_local = 0, head_published = 0, unpublished = 0\<rparr>"
  let ?s3 = "?s2\<lparr>ring := demo_ring2, writer := ?p2,
    lag_head := lag_head ?s2 + unat (unpublished (writer ?s2))\<rparr>"
  let ?s4 = "?s3\<lparr>batch := map_option (\<lambda>i. (i, 1)) (Some 1), lag_head := 0\<rparr>"
  let ?s5 = "?s4\<lparr>writer := ?p2\<lparr>unpublished := 1, head_local := 1\<rparr>, pending := Some 0, lag_tail := 0\<rparr>"
  have "spsc_reach 1 34 ?s0" by (rule spsc_reach.init) (simp_all add: demo_defs)
  moreover have "spsc_step 1 34 ?s0 ?s1"
    by (rule spsc_step.Reserve) (simp_all add: demo_defs)
  moreover have "spsc_step 1 34 ?s1 ?s2"
    by (rule spsc_step.Fill) (simp_all add: demo_ring2_def demo_defs, simp)
  moreover have "spsc_step 1 34 ?s2 ?s3"
    by (rule spsc_step.Publish) (simp_all add: demo_ring2_def demo_defs)
  moreover have "spsc_step 1 34 ?s3 ?s4"
    by (rule spsc_step.Pop [where max_n = 64 and n = 1 and out = "Some 1"])
      (simp add: spsc_init_def, simp, code_simp)
  moreover have "spsc_step 1 34 ?s4 ?s5"
    by (rule spsc_step.Reserve) (simp_all add: demo_ring2_def demo_defs)
  ultimately have "spsc_reach 1 34 ?s5" by (meson spsc_reach.step)
  then show ?thesis by (simp add: demo_sys_def spsc_init_def mk_Consumer_def demo_ring_def)
qed

theorem spsc_fifo_witness:
  "\<exists>rest. [(demo_pkt, [7, 8])] = [] @ contents 1 demo_ring2 @ rest"
  using spsc_fifo [OF demo_reach] by (auto simp: demo_sys_def)

theorem spsc_no_race_witness: "0 \<notin> {1::nat..<1 + unat (1 :: u32)}"
  using spsc_no_race [OF demo_reach, of 1 1 0] by (simp add: demo_sys_def)

theorem push_refines_fifo_witness:
  "\<exists>r' p'. push 1 demo_pkt [7, 8] demo_ring (mk_Producer demo_ring) = Inr (True, r', p') \<and>
     contents 1 r' = [(demo_pkt, [7, 8])]"
proof -
  have "producer_ok 1 34 demo_ring (mk_Producer demo_ring)" "unpublished (mk_Producer demo_ring) = 0"
    "msg_fits 34 demo_pkt [7, 8]" "contents 1 demo_ring = []"
    by (simp_all add: producer_ok_def used_def contents_def demo_defs)
  with push_refines_fifo [OF this(1-3)] show ?thesis by auto
qed

text \<open>A ring with all slots zeroed and both counters at \<open>w\<close>.\<close>

definition blank_ring :: "nat \<Rightarrow> nat \<Rightarrow> u32 \<Rightarrow> Ring" where
  "blank_ring k ss w = \<lparr>hdr = \<lparr>head = w, producer_pid = 0, producer_heartbeat_ns = 0,
                     tail = w, consumer_pid = 0, consumer_heartbeat_ns = 0\<rparr>,
     slots = replicate (2 ^ k) \<lparr>pkt = packet0, payload = replicate (kPayloadMax ss) 0\<rparr>\<rparr>"

lemma blank_ring_ok:
  assumes "bits_ok k"
  shows "producer_ok k ss (blank_ring k ss w) (mk_Producer (blank_ring k ss w))"
    "consumer_ok k ss (blank_ring k ss w) (mk_Consumer (blank_ring k ss w))"
    "unpublished (mk_Producer (blank_ring k ss w)) = 0" "contents k (blank_ring k ss w) = []"
  using assms
  by (simp_all add: producer_ok_def consumer_ok_def slots_ok_def used_def contents_def
      blank_ring_def mk_Producer_def mk_Consumer_def)

lemma bits_ok_consts [simp]: "bits_ok kReqBits" "bits_ok kRspBits"
  by (simp_all add: bits_ok_def kReqBits_def kRspBits_def)

definition demo_req_ring :: Ring where
  "demo_req_ring = blank_ring kReqBits kReqSlotSize 0xFFFFFFFF"

lemmas demo_req_ok = blank_ring_ok [OF bits_ok_consts(1), of kReqSlotSize "0xFFFFFFFF",
    folded demo_req_ring_def]

theorem req_ring_delivers_witness:
  "\<exists>s' s''. enq_all (ring_enq kReqBits) [(demo_pkt, [7, 8])]
      (demo_req_ring, mk_Producer demo_req_ring, mk_Consumer demo_req_ring) = Inr ([], s') \<and>
    deq_rounds 600 (ring_deq kReqBits) 64 s' = ([(demo_pkt, [7, 8])], s'')"
  using req_ring_delivers [of "(demo_req_ring, mk_Producer demo_req_ring, mk_Consumer demo_req_ring)"
      "[(demo_pkt, [7, 8])]" 64 600] demo_req_ok
  by (auto simp: msg_fits_def demo_pkt_def packet0_def kPayloadMax_def kReqSlotSize_def
      sizeof_IpcPacket_def kReqBits_def)

end
