(* ===== verification/Queues.thy ===== *)
theory Queues
  imports Protocol QueueSpec
begin

text \<open>
  The in-process queues and the routing table: \<open>OutboxQueue\<close> of the gateway
  (server/include/server/gateway/outbox_queue.hpp), \<open>ReplyQueue\<close> of the dispatch process
  (server/include/bike/ipc/reply_queue.hpp), \<open>Router\<close> (server/src/router.cpp) and the
  in-process packet sink (packet_sink.hpp). Each queue method holds the queue's mutex for
  its whole body, so a method is one atomic step.
\<close>

subsection \<open>Outbox: workers to the engine thread\<close>

datatype OutboxKind = Respond | RearmRecv | Close

record OutboxItem =
  ob_kind :: OutboxKind
  ob_conn_id :: u64
  ob_bytes :: bytes

record OutboxQueue =
  obq :: "OutboxItem list"

definition outbox_push :: "OutboxItem \<Rightarrow> OutboxQueue \<Rightarrow> OutboxQueue" where
  "outbox_push item q = q\<lparr>obq := obq q @ [item]\<rparr>"

text \<open>\<open>drain\<close> appends what the queue holds to the caller's vector and returns its number.\<close>

definition outbox_drain :: "OutboxQueue \<Rightarrow> OutboxItem list \<Rightarrow> nat \<times> OutboxItem list \<times> OutboxQueue" where
  "outbox_drain q out =
     (let n = length (obq q) in
      if n > 0 then (n, out @ obq q, q\<lparr>obq := []\<rparr>) else (n, out, q))"

subsection \<open>Replies: business threads to the ring reader\<close>

record ReplyItem =
  rp_conn_id :: u64
  rp_seq :: u32
  rp_one_way :: bool
  rp_frame :: bytes

record ReplyQueue =
  rpq :: "ReplyItem list"

definition reply_push :: "ReplyItem \<Rightarrow> ReplyQueue \<Rightarrow> ReplyQueue" where
  "reply_push item q = q\<lparr>rpq := rpq q @ [item]\<rparr>"

definition reply_drain :: "ReplyQueue \<Rightarrow> ReplyItem list \<Rightarrow> nat \<times> ReplyItem list \<times> ReplyQueue" where
  "reply_drain q out =
     (let n = length (rpq q) in
      if n > 0 then (n, out @ rpq q, q\<lparr>rpq := []\<rparr>) else (n, out, q))"

definition reply_size :: "ReplyQueue \<Rightarrow> nat" where
  "reply_size q = length (rpq q)"

subsection \<open>Router\<close>

text \<open>
  A handler gets the payload and the context and returns an encoded frame, empty for no
  response, or throws; either way it may have changed the context.
\<close>

type_synonym 'c handler_fn = "bytes \<Rightarrow> 'c \<Rightarrow> bytes res \<times> 'c"

record 'c Router =
  handlers :: "u16 \<rightharpoonup> 'c handler_fn"

definition register_handler :: "u16 \<Rightarrow> 'c handler_fn \<Rightarrow> 'c Router \<Rightarrow> 'c Router" where
  "register_handler eid fn rt = rt\<lparr>handlers := (handlers rt)(eid \<mapsto> fn)\<rparr>"

definition router_dispatch :: "'c Router \<Rightarrow> u16 \<Rightarrow> bytes \<Rightarrow> 'c \<Rightarrow> bytes res \<times> 'c" where
  "router_dispatch rt eid pl ctx =
     (case handlers rt eid of None \<Rightarrow> (Inr [], ctx) | Some fn \<Rightarrow> fn pl ctx)"

record Request =
  rq_conn_id :: u64
  rq_event_id :: u16
  rq_seq :: u32
  rq_payload :: bytes

definition router_sink_handle :: "'c Router \<Rightarrow> Request \<Rightarrow> 'c \<Rightarrow> bytes res \<times> 'c" where
  "router_sink_handle rt req ctx = router_dispatch rt (rq_event_id req) (rq_payload req) ctx"

subsection \<open>The queues are mailboxes\<close>

definition outbox_take :: "OutboxQueue \<Rightarrow> OutboxItem list \<times> OutboxQueue" where
  "outbox_take q = (case outbox_drain q [] of (n, out, q') \<Rightarrow> (out, q'))"

definition reply_take :: "ReplyQueue \<Rightarrow> ReplyItem list \<times> ReplyQueue" where
  "reply_take q = (case reply_drain q [] of (n, out, q') \<Rightarrow> (out, q'))"

lemma outbox_take_eq: "outbox_take q = (obq q, q\<lparr>obq := []\<rparr>)"
  by (auto simp: outbox_take_def outbox_drain_def Let_def)

lemma reply_take_eq: "reply_take q = (rpq q, q\<lparr>rpq := []\<rparr>)"
  by (auto simp: reply_take_def reply_drain_def Let_def)

interpretation outbox: mailbox obq outbox_push outbox_take
  by unfold_locales (auto simp: outbox_push_def outbox_take_eq)

interpretation replies: mailbox rpq reply_push reply_take
  by unfold_locales (auto simp: reply_push_def reply_take_eq)

lemma router_dispatch_register:
  "router_dispatch (register_handler eid fn rt) e pl ctx =
     (if e = eid then fn pl ctx else router_dispatch rt e pl ctx)"
  by (simp add: router_dispatch_def register_handler_def)

end
