(* ===== verification/RingEnds.thy ===== *)
theory RingEnds
  imports SpscRing Queues
begin

text \<open>
  The two ends of the request rings: \<open>RingSink\<close> in the gateway workers
  (server/src/ipc/ring_sink.cpp), \<open>RingSource\<close> in the dispatch process
  (server/src/ipc/ring_source.cpp), and the FIFO that wakes the reader
  (server/src/ipc/fifo_channel.cpp).
\<close>

subsection \<open>FIFO wake-up channel\<close>

text \<open>The results of the successive \<open>read\<close>/\<open>write\<close> calls are given by the kernel.\<close>

datatype io_result = Io nat | Eintr | Eagain | Eother

fun fifo_write1 :: "bool \<Rightarrow> io_result list \<Rightarrow> bool option" where
  "fifo_write1 is_open rs =
     (if \<not> is_open then Some False
      else case rs of
          [] \<Rightarrow> None
        | r # rs' \<Rightarrow>
            if r = Io 1 then Some True
            else if r = Eintr then fifo_write1 is_open rs'
            else if r = Eagain then Some True
            else Some False)"

fun fifo_drain :: "bool \<Rightarrow> nat \<Rightarrow> io_result list \<Rightarrow> nat option" where
  "fifo_drain is_open seen rs =
     (if \<not> is_open then Some 0
      else case rs of
          [] \<Rightarrow> None
        | r # rs' \<Rightarrow>
            (case r of
               Io n \<Rightarrow> if n > 0 then fifo_drain is_open (seen + n) rs' else Some seen
             | Eintr \<Rightarrow> fifo_drain is_open seen rs'
             | _ \<Rightarrow> Some seen))"

declare fifo_write1.simps [simp del] fifo_drain.simps [simp del]

subsection \<open>RingSink\<close>

text \<open>
  \<open>t_idx\<close> is the \<open>thread_local\<close> binding, one entry per worker thread; \<open>notified\<close> counts
  the calls of \<open>write1\<close> on the notify FIFO, which is absent in polling mode.
\<close>

record RingSink =
  producers :: "(Ring \<times> Producer) list"
  has_notify :: bool
  next_idx :: u32
  overload_count :: u64
  inflight_peak :: u32
  last_metrics_ns :: u64
  t_idx :: "nat \<rightharpoonup> nat"
  notified :: nat

definition mk_RingSink :: "(Ring \<times> Producer) list \<Rightarrow> bool \<Rightarrow> RingSink res" where
  "mk_RingSink ps notify =
     (if ps = [] then Inl Runtime_error
      else Inr \<lparr>producers = ps, has_notify = notify, next_idx = 0, overload_count = 0,
                inflight_peak = 0, last_metrics_ns = 0, t_idx = Map.empty, notified = 0\<rparr>)"

definition bind_producer :: "nat \<Rightarrow> RingSink \<Rightarrow> nat res \<times> RingSink" where
  "bind_producer tid s =
     (case t_idx s tid of
        Some i \<Rightarrow> (Inr i, s)
      | None \<Rightarrow>
          let idx = next_idx s; s1 = s\<lparr>next_idx := next_idx s + 1\<rparr> in
          if unat idx \<ge> length (producers s) then (Inl Runtime_error, s1)
          else (Inr (unat idx), s1\<lparr>t_idx := (t_idx s1)(tid \<mapsto> unat idx)\<rparr>))"

definition request_packet :: "Request \<Rightarrow> IpcPacket" where
  "request_packet req =
     (let pk = packet0\<lparr>conn_id := rq_conn_id req, pkt_event_id := rq_event_id req,
                       pkt_seq := rq_seq req,
                       payload_len := word_of_nat (length (rq_payload req))\<rparr> in
      if rq_event_id req = event_id RidePositionReport
      then pk\<lparr>flags := flags pk OR kFlagOneWay\<rparr> else pk)"

definition ring_sink_handle :: "nat \<Rightarrow> Request \<Rightarrow> RingSink \<Rightarrow> bytes res \<times> RingSink" where
  "ring_sink_handle tid req s =
     (case bind_producer tid s of
        (Inl e, s1) \<Rightarrow> (Inl e, s1)
      | (Inr i, s1) \<Rightarrow>
          if length (rq_payload req) > kPayloadMax kReqSlotSize then (Inl Malformed_ipc_request, s1)
          else
            let (r, p) = producers s1 ! i;
                was_empty = producer_empty r p in
            (case begin_write kReqBits r p of
               (None, p1) \<Rightarrow>
                 (Inl Sink_overload,
                  s1\<lparr>producers := (producers s1)[i := (r, p1)],
                     overload_count := overload_count s1 + 1\<rparr>)
             | (Some j, p1) \<Rightarrow>
                 (case fill_at j (request_packet req) (rq_payload req) r of
                    Inl e \<Rightarrow> (Inl e, s1\<lparr>producers := (producers s1)[i := (r, p1)]\<rparr>)
                  | Inr r1 \<Rightarrow>
                      (case publish 1 r1 p1 of
                         Inl e \<Rightarrow> (Inl e, s1\<lparr>producers := (producers s1)[i := (r1, p1)]\<rparr>)
                       | Inr (r2, p2) \<Rightarrow>
                           let cur = producer_size r2 p2; peak = inflight_peak s1 in
                           (Inr [],
                            s1\<lparr>producers := (producers s1)[i := (r2, p2)],
                               inflight_peak := (if cur > peak then cur else peak),
                               notified := (if was_empty \<and> has_notify s1 then notified s1 + 1
                                            else notified s1)\<rparr>)))))"

definition ring_sink_register_pids :: "u32 \<Rightarrow> RingSink \<Rightarrow> RingSink" where
  "ring_sink_register_pids pid s =
     s\<lparr>producers := map (\<lambda>(r, p). (producer_register_pid pid r, p)) (producers s)\<rparr>"

definition ring_sink_heartbeat_all :: "u64 \<Rightarrow> RingSink \<Rightarrow> RingSink" where
  "ring_sink_heartbeat_all now_ns s =
     (let s1 = s\<lparr>producers := map (\<lambda>(r, p). (producer_heartbeat now_ns r, p)) (producers s)\<rparr> in
      if now_ns - last_metrics_ns s1 \<ge> 30 * 1000000000 then s1\<lparr>last_metrics_ns := now_ns\<rparr> else s1)"

subsection \<open>RingSource\<close>

lemma pop_batch_shrinks:
  assumes "pop_batch k r c mx = (n, Some i)" "release n r c = (r', c')"
  shows "unat (head (hdr r') - tail_local c') < unat (head (hdr r) - tail_local c)"
proof -
  have n: "n \<le> head (hdr r) - tail_local c" "n \<noteq> 0"
    using assms(1)
    by (auto simp: pop_batch_def pop_batch_at_def Let_def min_le_iff_disj split: if_splits)
  have "unat (head (hdr r) - tail_local c - n) = unat (head (hdr r) - tail_local c) - unat n"
    using n(1) by (simp add: unat_sub)
  moreover have "0 < unat n" "unat n \<le> unat (head (hdr r) - tail_local c)"
    using n by (simp_all add: word_le_nat_alt unat_gt_0)
  moreover have "head (hdr r') - tail_local c' = head (hdr r) - tail_local c - n"
    using assms(2) by (auto simp: release_def Let_def)
  ultimately show ?thesis by simp
qed

text \<open>
  The inner loop of \<open>pop_once\<close> on one ring. The callback is called on every slot of a batch
  before the batch is released; \<open>st\<close> is whatever the callback works on. The slots a call
  sees are those published when it reads the head; what a producer publishes meanwhile is
  left to the next call.
\<close>

function pop_ring ::
  "(Slot \<Rightarrow> 'st \<Rightarrow> 'st) \<Rightarrow> Ring \<Rightarrow> Consumer \<Rightarrow> u32 \<Rightarrow> 'st \<Rightarrow> u32 \<times> Ring \<times> Consumer \<times> 'st" where
  "pop_ring cb r c n_sum st =
     (case pop_batch kReqBits r c 64 of
        (n, None) \<Rightarrow> (n_sum, r, c, st)
      | (n, Some i) \<Rightarrow>
          (case release n r c of (r', c') \<Rightarrow>
             pop_ring cb r' c' (n_sum + n) (fold cb (take (unat n) (drop i (slots r))) st)))"
  by pat_completeness auto
termination
  by (relation "measure (\<lambda>(cb, r, c, n, st). unat (head (hdr r) - tail_local c))")
    (auto intro: pop_batch_shrinks [OF sym sym])

declare pop_ring.simps [simp del]

fun pop_once ::
  "(Slot \<Rightarrow> 'st \<Rightarrow> 'st) \<Rightarrow> (Ring \<times> Consumer) list \<Rightarrow> u32 \<Rightarrow> 'st \<Rightarrow> u32 \<times> (Ring \<times> Consumer) list \<times> 'st" where
  "pop_once cb [] n_sum st = (n_sum, [], st)"
| "pop_once cb ((r, c) # rcs) n_sum st =
     (case pop_ring cb r c n_sum st of (n1, r', c', st1) \<Rightarrow>
        case pop_once cb rcs n1 st1 of (n2, rcs', st2) \<Rightarrow> (n2, (r', c') # rcs', st2))"

text \<open>
  \<open>wait_pop\<close> looks at the rings, spins, polls once and looks again. \<open>env i\<close> is what the
  gateway did to the rings before look number \<open>i\<close>; the outcome of \<open>poll\<close> is given.
\<close>

record PollOutcome =
  poll_fatal :: bool
  wake_readable :: bool

fun spin_pop ::
  "(Slot \<Rightarrow> 'st \<Rightarrow> 'st) \<Rightarrow> (nat \<Rightarrow> (Ring \<times> Consumer) list \<Rightarrow> (Ring \<times> Consumer) list) \<Rightarrow> nat \<Rightarrow> nat
   \<Rightarrow> (Ring \<times> Consumer) list \<Rightarrow> 'st \<Rightarrow> bool \<times> (Ring \<times> Consumer) list \<times> 'st" where
  "spin_pop cb env look 0 rcs st = (False, rcs, st)"
| "spin_pop cb env look (Suc tries) rcs st =
     (case pop_once cb (env look rcs) 0 st of (n, rcs', st') \<Rightarrow>
        if n > 0 then (True, rcs', st') else spin_pop cb env (Suc look) tries rcs' st')"

definition wait_pop ::
  "(Slot \<Rightarrow> 'st \<Rightarrow> 'st) \<Rightarrow> nat \<Rightarrow> bool \<Rightarrow> bool \<Rightarrow> PollOutcome
   \<Rightarrow> (nat \<Rightarrow> (Ring \<times> Consumer) list \<Rightarrow> (Ring \<times> Consumer) list)
   \<Rightarrow> (Ring \<times> Consumer) list \<Rightarrow> 'st \<Rightarrow> u32 \<times> (Ring \<times> Consumer) list \<times> 'st" where
  "wait_pop cb spin_tries notify_fd wake_fd po env rcs st =
     (case pop_once cb (env 0 rcs) 0 st of (n, rcs1, st1) \<Rightarrow>
        if n > 0 then (n, rcs1, st1)
        else
          (case spin_pop cb env 1 spin_tries rcs1 st1 of (hit, rcs2, st2) \<Rightarrow>
             if hit then (1, rcs2, st2)
             else if (notify_fd \<or> wake_fd) \<and> (poll_fatal po \<or> wake_fd \<and> wake_readable po)
             then (0, rcs2, st2)
             else pop_once cb (env (Suc spin_tries) rcs2) 0 st2))"

definition producer_alive :: "u64 \<Rightarrow> nat \<Rightarrow> (Ring \<times> Consumer) list \<Rightarrow> bool" where
  "producer_alive now timeout_ms rcs =
     (let limit = word_of_nat timeout_ms * 1000000 in
      list_ex (\<lambda>(r, c). let hb = producer_heartbeat_ns (hdr r) in hb \<noteq> 0 \<and> now - hb < limit) rcs)"

definition ring_source_register_pid :: "u32 \<Rightarrow> (Ring \<times> Consumer) list \<Rightarrow> (Ring \<times> Consumer) list" where
  "ring_source_register_pid pid = map (\<lambda>(r, c). (consumer_register_pid pid r, c))"

definition ring_source_heartbeat_all :: "u64 \<Rightarrow> (Ring \<times> Consumer) list \<Rightarrow> (Ring \<times> Consumer) list" where
  "ring_source_heartbeat_all now = map (\<lambda>(r, c). (consumer_heartbeat now r, c))"

subsection \<open>RingSource lemmas\<close>

text \<open>The slots a ring holds, from the oldest.\<close>

definition queued_slots :: "nat \<Rightarrow> Ring \<Rightarrow> Slot list" where
  "queued_slots k r = map (\<lambda>j. slots r ! slot_ix k (tail (hdr r) + word_of_nat j))
     [0..<unat (head (hdr r) - tail (hdr r))]"

lemma contents_queued: "contents k r = map slot_msg (queued_slots k r)"
  by (simp add: contents_def seg_def queued_slots_def)

lemma length_queued: "length (queued_slots k r) = length (contents k r)"
  by (simp add: contents_queued)

lemma batch_queued:
  assumes "slots_ok k ss r" "n \<le> length (contents k r)" "slot_ix k (tail (hdr r)) + n \<le> 2 ^ k"
  shows "take n (drop (slot_ix k (tail (hdr r))) (slots r)) = take n (queued_slots k r)"
proof (rule nth_equalityI)
  show "length (take n (drop (slot_ix k (tail (hdr r))) (slots r))) = length (take n (queued_slots k r))"
    using assms by (simp add: slots_ok_def length_queued)
next
  fix j
  assume "j < length (take n (drop (slot_ix k (tail (hdr r))) (slots r)))"
  then have j: "j < n" by simp
  have k: "bits_ok k" using assms(1) by (simp add: slots_ok_def)
  have "slot_ix k (tail (hdr r) + word_of_nat j) = slot_ix k (tail (hdr r)) + j"
    using assms(3) j by (intro slot_ix_contig [OF k]) simp
  then show "take n (drop (slot_ix k (tail (hdr r))) (slots r)) ! j = take n (queued_slots k r) ! j"
    using assms j by (simp add: queued_slots_def slots_ok_def length_contents)
qed

lemma queued_release:
  assumes "consumer_ok k ss r c" "unat n \<le> length (contents k r)" "release n r c = (r', c')"
  shows "queued_slots k r' = drop (unat n) (queued_slots k r)"
proof (rule nth_equalityI)
  note ro = release_ok [OF assms]
  show "length (queued_slots k r') = length (drop (unat n) (queued_slots k r))"
    using ro(2) by (simp add: length_queued)
  have t: "tail (hdr r') = tail (hdr r) + word_of_nat (unat n)"
    using assms(1,3) by (auto simp: release_def consumer_ok_def Let_def)
  fix j
  assume "j < length (queued_slots k r')"
  then have "j < unat (head (hdr r') - tail (hdr r'))" by (simp add: queued_slots_def)
  moreover from this have "unat n + j < unat (head (hdr r) - tail (hdr r))"
    using ro(2) [THEN arg_cong [of _ _ length]] assms(2) by (simp add: length_contents)
  ultimately show "queued_slots k r' ! j = drop (unat n) (queued_slots k r) ! j"
    using ro(3) by (simp add: queued_slots_def t add.assoc)
qed

lemma pop_ring_ok:
  assumes "consumer_ok kReqBits ss r c"
  shows "\<exists>r' c'. pop_ring cb r c m st =
      (m + word_of_nat (length (contents kReqBits r)), r', c', fold cb (queued_slots kReqBits r) st) \<and>
    consumer_ok kReqBits ss r' c' \<and> contents kReqBits r' = [] \<and> slots r' = slots r"
  using assms
proof (induction cb r c m st rule: pop_ring.induct)
  case (1 cb r c m st)
  obtain n out where pop: "pop_batch kReqBits r c 64 = (n, out)" by fastforce
  note po = pop_batch_at_ok [OF 1(2), of 0 64 n out, simplified, OF pop [unfolded pop_batch_def]]
  have lt: "slot_ix kReqBits (tail (hdr r)) < 2 ^ kReqBits" by simp
  have n: "unat n \<le> length (contents kReqBits r)"
    "slot_ix kReqBits (tail (hdr r)) + unat n \<le> 2 ^ kReqBits" using po(1) lt by linarith+
  show ?case
  proof (cases "n = 0")
    case True
    then have "unat n = 0" by simp
    then have "length (contents kReqBits r) = 0" using po(1) lt by linarith
    then have "contents kReqBits r = []" by simp
    then show ?thesis
      using 1(2) pop po(2) True by (subst pop_ring.simps) (auto simp: contents_queued)
  next
    case False
    obtain r1 c1 where rel: "release n r c = (r1, c1)" by fastforce
    let ?b = "take (unat n) (drop (slot_ix kReqBits (tail (hdr r))) (slots r))"
    note ro = release_ok [OF 1(2) n(1) rel]
    have out: "out = Some (slot_ix kReqBits (tail (hdr r)))" using po(2) False by simp
    have b: "?b = take (unat n) (queued_slots kReqBits r)"
      using 1(2) by (intro batch_queued [OF _ n, of ss]) (simp add: consumer_ok_def)
    have split: "queued_slots kReqBits r = ?b @ queued_slots kReqBits r1"
      unfolding b queued_release [OF 1(2) n(1) rel] by simp
    have "m + word_of_nat (length (contents kReqBits r)) =
        m + n + word_of_nat (length (contents kReqBits r1))"
      using n(1) ro(2) by (simp add: of_nat_diff)
    with "1.IH" [OF pop [symmetric] out rel [symmetric] ro(1)] show ?thesis
      using pop out rel split ro(3) by (subst pop_ring.simps) auto
  qed
qed

lemma pop_once_ok:
  assumes "\<forall>(r, c)\<in>set rcs. consumer_ok kReqBits ss r c"
  shows "\<exists>rcs'. pop_once cb rcs m st =
      (m + word_of_nat (length (concat (map (contents kReqBits \<circ> fst) rcs))), rcs',
       fold cb (concat (map (queued_slots kReqBits \<circ> fst) rcs)) st) \<and>
    list_all2 (\<lambda>(r, c) (r', c'). consumer_ok kReqBits ss r' c' \<and> contents kReqBits r' = [] \<and>
      slots r' = slots r) rcs rcs'"
  using assms
proof (induction rcs arbitrary: m st)
  case (Cons rc rcs)
  obtain r c where rc: "rc = (r, c)" by fastforce
  then obtain r' c' where p: "pop_ring cb r c m st =
      (m + word_of_nat (length (contents kReqBits r)), r', c', fold cb (queued_slots kReqBits r) st)"
    "consumer_ok kReqBits ss r' c'" "contents kReqBits r' = []" "slots r' = slots r"
    using pop_ring_ok [of ss r c cb m st] Cons.prems by auto
  from Cons.IH [of "m + word_of_nat (length (contents kReqBits r))"
      "fold cb (queued_slots kReqBits r) st"] Cons.prems
  show ?case using rc p by (auto simp: add.assoc)
qed simp

subsection \<open>RingSink lemmas\<close>

lemma push_TrueD:
  "push k pk pl r p = Inr (True, r2, p2) \<Longrightarrow>
     \<exists>j p1 r1. begin_write k r p = (Some j, p1) \<and> fill_at j pk pl r = Inr r1 \<and>
       publish 1 r1 p1 = Inr (r2, p2)"
  by (auto simp: push_def split: prod.splits option.splits sum.splits)

lemma push_FalseD:
  "push k pk pl r p = Inr (False, r2, p2) \<Longrightarrow> begin_write k r p = (None, p2) \<and> r2 = r"
  by (auto simp: push_def split: prod.splits option.splits sum.splits)

lemma begin_write_None: "begin_write k r p = (None, p') \<Longrightarrow> p' = p"
  by (auto simp: begin_write_def begin_write_at_def split: if_splits)

text \<open>
  The sink's invariant: every ring is well-formed with nothing reserved, every thread is bound
  to a ring of the pool, no ring to two threads. \<open>budget\<close> is how many more calls the
  32-bit index counter can take before it wraps.
\<close>

definition sink_ok :: "nat \<Rightarrow> RingSink \<Rightarrow> bool" where
  "sink_ok budget s \<longleftrightarrow>
     (\<forall>(r, p)\<in>set (producers s). producer_ok kReqBits kReqSlotSize r p \<and> unpublished p = 0) \<and>
     (\<forall>t i. t_idx s t = Some i \<longrightarrow> i < length (producers s) \<and> i < unat (next_idx s)) \<and>
     inj_on (t_idx s) (dom (t_idx s)) \<and> unat (next_idx s) + budget < 2 ^ 32"

lemma bind_producer_ok:
  assumes "sink_ok (Suc budget) s" "bind_producer t s = (res, s1)"
  shows "sink_ok budget s1" "producers s1 = producers s" "has_notify s1 = has_notify s"
    "notified s1 = notified s" "overload_count s1 = overload_count s"
    "inflight_peak s1 = inflight_peak s"
    "res = Inr i \<Longrightarrow> i < length (producers s) \<and> t_idx s1 t = Some i"
proof -
  have nx: "unat (next_idx s + 1) = unat (next_idx s) + 1"
    using assms(1) unat_add_nat [of "next_idx s" 1] by (simp add: sink_ok_def)
  show eq: "producers s1 = producers s" "has_notify s1 = has_notify s"
    "notified s1 = notified s" "overload_count s1 = overload_count s"
    "inflight_peak s1 = inflight_peak s"
    using assms(2) by (auto simp: bind_producer_def Let_def split: option.splits if_splits)
  show "res = Inr i \<Longrightarrow> i < length (producers s) \<and> t_idx s1 t = Some i"
    using assms by (auto simp: bind_producer_def sink_ok_def Let_def split: option.splits if_splits)
  show "sink_ok budget s1"
  proof (cases "t_idx s t")
    case (Some j)
    then show ?thesis using assms by (auto simp: bind_producer_def sink_ok_def)
  next
    case None
    have inj: "inj_on ((t_idx s)(t \<mapsto> unat (next_idx s))) (dom ((t_idx s)(t \<mapsto> unat (next_idx s))))"
    proof (rule inj_onI)
      fix a b
      assume "a \<in> dom ((t_idx s)(t \<mapsto> unat (next_idx s)))" "b \<in> dom ((t_idx s)(t \<mapsto> unat (next_idx s)))"
        "((t_idx s)(t \<mapsto> unat (next_idx s))) a = ((t_idx s)(t \<mapsto> unat (next_idx s))) b"
      then show "a = b"
        using assms(1) unfolding sink_ok_def inj_on_def
        by (auto split: if_splits) (metis less_irrefl)+
    qed
    show ?thesis
      using assms None nx inj unfolding sink_ok_def bind_producer_def
      by (auto simp: Let_def less_Suc_eq split: if_splits)
  qed
qed

lemma unat_req_len:
  "length pl \<le> kPayloadMax kReqSlotSize \<Longrightarrow> unat (word_of_nat (length pl) :: u32) = length pl"
  by (simp add: kPayloadMax_def kReqSlotSize_def sizeof_IpcPacket_def unsigned_of_nat
      take_bit_nat_eq_self)

lemma request_packet_fields [simp]:
  "conn_id (request_packet req) = rq_conn_id req"
  "pkt_event_id (request_packet req) = rq_event_id req"
  "pkt_seq (request_packet req) = rq_seq req"
  "payload_len (request_packet req) = word_of_nat (length (rq_payload req))"
  "flags (request_packet req) AND kFlagOneWay \<noteq> 0 \<longleftrightarrow> rq_event_id req = event_id RidePositionReport"
  by (simp_all add: request_packet_def packet0_def Let_def kFlagOneWay_def)

lemma request_packet_fits:
  "length (rq_payload req) \<le> kPayloadMax kReqSlotSize \<Longrightarrow>
     msg_fits kReqSlotSize (request_packet req) (rq_payload req)"
  by (simp add: msg_fits_def unat_req_len)

lemma producer_empty_contents:
  assumes "producer_ok k ss r p" "unpublished p = 0"
  shows "producer_empty r p \<longleftrightarrow> contents k r = []"
proof -
  have "head_local p = head (hdr r)" using assms by (simp add: producer_ok_def)
  then have "producer_size r p = 0 \<longleftrightarrow> length (contents k r) = 0"
    by (simp add: producer_size_def length_contents unat_eq_0)
  then show ?thesis by (simp add: producer_empty_def)
qed

lemma ring_sink_room:
  assumes ok: "sink_ok (Suc budget) s" and bind: "bind_producer t s = (Inr i, s1)"
    and len: "length (rq_payload req) \<le> kPayloadMax kReqSlotSize"
    and rp: "producers s ! i = (r, p)" and room: "length (contents kReqBits r) < 2 ^ kReqBits"
  shows "\<exists>r' p' s'. ring_sink_handle t req s = (Inr [], s') \<and> sink_ok budget s' \<and>
    producers s' = (producers s)[i := (r', p')] \<and>
    contents kReqBits r' = contents kReqBits r @ [(request_packet req, rq_payload req)] \<and>
    notified s' = notified s + (if has_notify s \<and> contents kReqBits r = [] then 1 else 0) \<and>
    overload_count s' = overload_count s"
proof -
  note b = bind_producer_ok [OF ok bind]
  have i: "i < length (producers s)" using b(7) [of i] by simp
  then have "(r, p) \<in> set (producers s)" using rp by (metis nth_mem)
  then have rp_ok: "producer_ok kReqBits kReqSlotSize r p" "unpublished p = 0"
    using ok by (auto simp: sink_ok_def)
  obtain r' p' where r': "push kReqBits (request_packet req) (rq_payload req) r p = Inr (True, r', p')"
    "producer_ok kReqBits kReqSlotSize r' p'" "unpublished p' = 0"
    "contents kReqBits r' = contents kReqBits r @ [(request_packet req, rq_payload req)]"
    using push_spec [OF rp_ok request_packet_fits [OF len]] room by auto
  from push_TrueD [OF r'(1)] obtain j p1 r1 where st: "begin_write kReqBits r p = (Some j, p1)"
    "fill_at j (request_packet req) (rq_payload req) r = Inr r1" "publish 1 r1 p1 = Inr (r', p')"
    by blast
  have "\<exists>s'. ring_sink_handle t req s = (Inr [], s') \<and>
      producers s' = (producers s)[i := (r', p')] \<and> t_idx s' = t_idx s1 \<and> next_idx s' = next_idx s1 \<and>
      notified s' = notified s + (if has_notify s \<and> contents kReqBits r = [] then 1 else 0) \<and>
      overload_count s' = overload_count s"
    using bind b(2-6) len rp st producer_empty_contents [OF rp_ok]
    by (simp add: ring_sink_handle_def Let_def)
  moreover have "producers s' = (producers s)[i := (r', p')] \<Longrightarrow> t_idx s' = t_idx s1 \<Longrightarrow>
      next_idx s' = next_idx s1 \<Longrightarrow> sink_ok budget s'" for s'
    using b(1,2) r'(2,3) unfolding sink_ok_def
    by (auto dest!: set_update_subset_insert [THEN subsetD])
  ultimately show ?thesis using r'(4) by blast
qed

lemma ring_sink_full:
  assumes ok: "sink_ok (Suc budget) s" and bind: "bind_producer t s = (Inr i, s1)"
    and len: "length (rq_payload req) \<le> kPayloadMax kReqSlotSize"
    and rp: "producers s ! i = (r, p)" and full: "\<not> length (contents kReqBits r) < 2 ^ kReqBits"
  shows "\<exists>s'. ring_sink_handle t req s = (Inl Sink_overload, s') \<and> sink_ok budget s' \<and>
    producers s' = producers s \<and> overload_count s' = overload_count s + 1 \<and> notified s' = notified s"
proof -
  note b = bind_producer_ok [OF ok bind]
  have i: "i < length (producers s)" using b(7) [of i] by simp
  then have "(r, p) \<in> set (producers s)" using rp by (metis nth_mem)
  then have rp_ok: "producer_ok kReqBits kReqSlotSize r p" "unpublished p = 0"
    using ok by (auto simp: sink_ok_def)
  have "\<exists>r' p'. push kReqBits (request_packet req) (rq_payload req) r p = Inr (False, r', p')"
    using push_spec [OF rp_ok request_packet_fits [OF len]] full by auto
  then obtain p' where "begin_write kReqBits r p = (None, p')" using push_FalseD by blast
  then have bw: "begin_write kReqBits r p = (None, p)" using begin_write_None by metis
  have "(producers s)[i := (r, p)] = producers s" using rp by (metis list_update_id)
  then show ?thesis
    using bind b(1-6) len rp bw by (simp add: ring_sink_handle_def sink_ok_def)
qed

lemma ring_sink_oversize:
  assumes "sink_ok (Suc budget) s" "length (rq_payload req) > kPayloadMax kReqSlotSize"
  shows "\<exists>e s'. ring_sink_handle t req s = (Inl e, s') \<and> sink_ok budget s' \<and> producers s' = producers s"
proof -
  obtain res s1 where b: "bind_producer t s = (res, s1)" by fastforce
  with bind_producer_ok [OF assms(1) b] assms(2) show ?thesis
    by (cases res) (auto simp: ring_sink_handle_def)
qed

lemma ring_sink_keeps:
  assumes "sink_ok (Suc budget) s"
  shows "sink_ok budget (snd (ring_sink_handle t req s))"
proof -
  obtain res s1 where b: "bind_producer t s = (res, s1)" by fastforce
  show ?thesis
  proof (cases res)
    case (Inl e)
    with b bind_producer_ok(1) [OF assms b] show ?thesis by (simp add: ring_sink_handle_def)
  next
    case (Inr i)
    obtain r p where rp: "producers s ! i = (r, p)" by fastforce
    show ?thesis
      using ring_sink_room [OF assms b [unfolded Inr] _ rp, of req]
        ring_sink_full [OF assms b [unfolded Inr] _ rp, of req] ring_sink_oversize [OF assms, of req t]
      by (cases "length (rq_payload req) \<le> kPayloadMax kReqSlotSize";
          cases "length (contents kReqBits r) < 2 ^ kReqBits") auto
  qed
qed

subsection \<open>Properties of the ring ends\<close>

text \<open>Calls of \<open>handle\<close> by any threads, in the order in which they reach the sink.\<close>

definition sink_run :: "(nat \<times> Request) list \<Rightarrow> RingSink \<Rightarrow> RingSink" where
  "sink_run calls s = fold (\<lambda>(t, req) s. snd (ring_sink_handle t req s)) calls s"

lemma sink_run_ok: "sink_ok (length calls + n) s \<Longrightarrow> sink_ok n (sink_run calls s)"
proof (induction calls arbitrary: s)
  case (Cons c calls)
  then show ?case using ring_sink_keeps [of "length calls + n" s] by (auto simp: sink_run_def split_beta)
qed (simp add: sink_run_def)

lemma mk_RingSink_ok:
  assumes "mk_RingSink ps notify = Inr s" "n < 2 ^ 32"
    "\<forall>(r, p)\<in>set ps. producer_ok kReqBits kReqSlotSize r p \<and> unpublished p = 0"
  shows "sink_ok n s"
  using assms by (auto simp: mk_RingSink_def sink_ok_def split: if_splits)

text \<open>Property C37: each request ring has one writer. However many worker threads call the sink, in
  whatever order and with whatever requests, no two of them are ever bound to the same ring; this
  holds for fewer than 2 to the 32 calls, after which the 32-bit binding counter may wrap.\<close>

theorem ring_sink_single_writer:
  assumes "mk_RingSink ps notify = Inr s0" "length calls < 2 ^ 32"
    "\<forall>(r, p)\<in>set ps. producer_ok kReqBits kReqSlotSize r p \<and> unpublished p = 0"
  shows "inj_on (t_idx (sink_run calls s0)) (dom (t_idx (sink_run calls s0)))"
proof -
  have "sink_ok (length calls + 0) s0" using mk_RingSink_ok [OF assms(1) _ assms(3)] assms(2) by simp
  from sink_run_ok [OF this] show ?thesis by (simp add: sink_ok_def)
qed

text \<open>A request that fits is enqueued. When the calling thread is bound to a ring with
  room, the request becomes the last message of that ring, with its connection, event and
  sequence number and the one-way flag exactly for position reports; no other ring changes, no
  assertion fails, and the reader is notified exactly when the ring was empty.\<close>

theorem ring_sink_enqueues:
  assumes "sink_ok (Suc budget) s" "bind_producer t s = (Inr i, s1)"
    "length (rq_payload req) \<le> kReqPayloadMax" "producers s ! i = (r, p)"
    "length (contents kReqBits r) < 512"
  shows "\<exists>r' p' s' pk. ring_sink_handle t req s = (Inr [], s') \<and>
    producers s' = (producers s)[i := (r', p')] \<and>
    contents kReqBits r' = contents kReqBits r @ [(pk, rq_payload req)] \<and>
    conn_id pk = rq_conn_id req \<and> pkt_event_id pk = rq_event_id req \<and> pkt_seq pk = rq_seq req \<and>
    (flags pk AND kFlagOneWay \<noteq> 0 \<longleftrightarrow> rq_event_id req = event_id RidePositionReport) \<and>
    notified s' = notified s + (if has_notify s \<and> contents kReqBits r = [] then 1 else 0)"
proof -
  have "length (rq_payload req) \<le> kPayloadMax kReqSlotSize" "length (contents kReqBits r) < 2 ^ kReqBits"
    using assms(3,5) by (simp_all add: kReqPayloadMax_def kPayloadMax_def kReqBits_def)
  from ring_sink_room [OF assms(1,2) this(1) assms(4) this(2)] show ?thesis
    by (metis request_packet_fields)
qed

text \<open>Back pressure. When the thread's ring holds 512 requests the call throws
  \<open>SinkOverload\<close>, counts it, and leaves every ring untouched.\<close>

theorem ring_sink_backpressure:
  assumes "sink_ok (Suc budget) s" "bind_producer t s = (Inr i, s1)"
    "length (rq_payload req) \<le> kReqPayloadMax" "producers s ! i = (r, p)"
    "length (contents kReqBits r) = 512"
  shows "\<exists>s'. ring_sink_handle t req s = (Inl Sink_overload, s') \<and> producers s' = producers s \<and>
    overload_count s' = overload_count s + 1 \<and> sink_ok budget s'"
proof -
  have "length (rq_payload req) \<le> kPayloadMax kReqSlotSize" "\<not> length (contents kReqBits r) < 2 ^ kReqBits"
    using assms(3,5) by (simp_all add: kReqPayloadMax_def kPayloadMax_def kReqBits_def)
  from ring_sink_full [OF assms(1,2) this(1) assms(4) this(2)] show ?thesis by blast
qed

text \<open>One pass of the reader empties every ring. The callback runs once on each
  published slot, ring after ring and in order within a ring, the count is the number of
  requests, and all rings are empty afterwards.\<close>

theorem pop_once_delivers:
  assumes "\<forall>(r, c)\<in>set rcs. consumer_ok kReqBits ss r c"
  shows "\<exists>rcs' sl. pop_once cb rcs 0 st = (word_of_nat (length sl), rcs', fold cb sl st) \<and>
    map slot_msg sl = concat (map (\<lambda>(r, c). contents kReqBits r) rcs) \<and>
    (\<forall>(r', c')\<in>set rcs'. consumer_ok kReqBits ss r' c' \<and> contents kReqBits r' = [])"
proof -
  let ?sl = "concat (map (queued_slots kReqBits \<circ> fst) rcs)"
  have "map slot_msg ?sl = concat (map (\<lambda>(r, c). contents kReqBits r) rcs)"
    by (simp add: map_concat contents_queued comp_def case_prod_beta')
  moreover obtain rcs' where "pop_once cb rcs 0 st = (word_of_nat (length ?sl), rcs', fold cb ?sl st)"
    "list_all2 (\<lambda>(r, c) (r', c'). consumer_ok kReqBits ss r' c' \<and> contents kReqBits r' = [] \<and>
      slots r' = slots r) rcs rcs'"
    using pop_once_ok [OF assms, of cb 0 st]
    by (auto simp: length_concat comp_def length_queued)
  moreover from this(2) have "\<forall>(r', c')\<in>set rcs'. consumer_ok kReqBits ss r' c' \<and> contents kReqBits r' = []"
    by (induction rule: list_all2_induct) auto
  ultimately show ?thesis by blast
qed

subsection \<open>Witnesses\<close>

definition demo_sink :: RingSink where
  "demo_sink = \<lparr>producers = [(demo_req_ring, mk_Producer demo_req_ring)], has_notify = True,
     next_idx = 0, overload_count = 0, inflight_peak = 0, last_metrics_ns = 0, t_idx = Map.empty,
     notified = 0\<rparr>"

definition demo_req :: Request where
  "demo_req = \<lparr>rq_conn_id = 9, rq_event_id = 0x15, rq_seq = 4, rq_payload = [1, 2, 3]\<rparr>"

lemma demo_mk: "mk_RingSink [(demo_req_ring, mk_Producer demo_req_ring)] True = Inr demo_sink"
  by (simp add: mk_RingSink_def demo_sink_def)

lemma demo_sink_ok: "sink_ok (Suc 5) demo_sink"
  using mk_RingSink_ok [OF demo_mk, of 6] demo_req_ok by simp

lemma demo_bind: "\<exists>s1. bind_producer 7 demo_sink = (Inr 0, s1) \<and> t_idx s1 7 = Some 0"
  by (simp add: bind_producer_def demo_sink_def)

theorem ring_sink_enqueues_witness:
  "\<exists>r' p' s' pk. ring_sink_handle 7 demo_req demo_sink = (Inr [], s') \<and>
     producers s' = [(r', p')] \<and> contents kReqBits r' = [(pk, [1, 2, 3])] \<and> conn_id pk = 9 \<and>
     notified s' = 1"
proof -
  obtain s1 where b: "bind_producer 7 demo_sink = (Inr 0, s1)" using demo_bind by blast
  have "length (rq_payload demo_req) \<le> kReqPayloadMax"
    "producers demo_sink ! 0 = (demo_req_ring, mk_Producer demo_req_ring)"
    "length (contents kReqBits demo_req_ring) < 512"
    by (simp_all add: demo_req_def demo_sink_def demo_req_ok kReqPayloadMax_def kReqSlotSize_def
        sizeof_IpcPacket_def)
  from ring_sink_enqueues [OF demo_sink_ok b this] show ?thesis
    by (simp add: demo_req_ok demo_sink_def demo_req_def) blast
qed

theorem ring_sink_single_writer_witness:
  "inj_on (t_idx (sink_run [(7, demo_req), (8, demo_req), (7, demo_req)] demo_sink))
     (dom (t_idx (sink_run [(7, demo_req), (8, demo_req), (7, demo_req)] demo_sink)))"
  using ring_sink_single_writer [OF demo_mk, of "[(7, demo_req), (8, demo_req), (7, demo_req)]"]
    demo_req_ok by simp

definition demo_full_ring :: Ring where
  "demo_full_ring = demo_req_ring\<lparr>hdr := (hdr demo_req_ring)\<lparr>head := 511\<rparr>\<rparr>"

theorem ring_sink_backpressure_witness:
  "\<exists>s'. ring_sink_handle 7 demo_req
      (demo_sink\<lparr>producers := [(demo_full_ring, mk_Producer demo_full_ring)]\<rparr>) = (Inl Sink_overload, s')"
proof -
  let ?s = "demo_sink\<lparr>producers := [(demo_full_ring, mk_Producer demo_full_ring)]\<rparr>"
  have len: "length (contents kReqBits demo_full_ring) = 512"
    by (simp add: length_contents demo_full_ring_def demo_req_ring_def blank_ring_def)
  have ok: "sink_ok (Suc 5) ?s"
    using demo_req_ok(1)
    by (simp add: sink_ok_def demo_sink_def producer_ok_def slots_ok_def used_def mk_Producer_def
        demo_full_ring_def demo_req_ring_def blank_ring_def kReqBits_def)
  obtain s1 where b: "bind_producer 7 ?s = (Inr 0, s1)"
    by (simp add: bind_producer_def demo_sink_def)
  have "length (rq_payload demo_req) \<le> kReqPayloadMax"
    "producers ?s ! 0 = (demo_full_ring, mk_Producer demo_full_ring)"
    by (simp_all add: demo_req_def kReqPayloadMax_def kReqSlotSize_def sizeof_IpcPacket_def)
  from ring_sink_backpressure [OF ok b this len] show ?thesis by blast
qed

theorem pop_once_delivers_witness:
  "\<exists>rcs' sl. pop_once (\<lambda>s st. st @ [pkt s]) [(demo_req_ring, mk_Consumer demo_req_ring)] 0 []
     = (word_of_nat (length sl), rcs', fold (\<lambda>s st. st @ [pkt s]) sl []) \<and> map slot_msg sl = []"
  using pop_once_delivers [of "[(demo_req_ring, mk_Consumer demo_req_ring)]" kReqSlotSize
      "\<lambda>s st. st @ [pkt s]" "[]"] demo_req_ok
  by auto

end
