(* ===== verification/UringEngine.thy ===== *)
theory UringEngine
  imports ConnContext RingEnds "HOL-Library.Multiset"
begin

text \<open>
  The event loop of the gateway (server/src/gateway/uring_engine.cpp). An operation in
  flight is an element of \<open>ops\<close>; it names its connection by id where the code holds a
  pointer, and \<open>dangling\<close> records that the code would follow a pointer to a connection
  that is gone. What the kernel decides is an argument or an oracle: the results of
  completions, the clock, the outcome of each attempt to get a submission entry (\<open>sq\<close>,
  where an exhausted list stands for success), and the iteration order of the hash map.
\<close>

datatype Op = Accept | Recv u64 | Send u64 | Wakeup | Stop | RspNotify | Anon

record GatewayOptions =
  rx_buf_bytes :: nat
  send_backlog_limit :: nat
  idle_timeout :: int
  sq_depth :: int

record Engine =
  conns :: "u64 \<rightharpoonup> Connection"
  next_conn_id :: u64
  ops :: "Op list"
  posted :: "(u64 \<times> bytes) list"
  outbox :: OutboxQueue
  draining :: bool
  stopping :: bool
  accepting :: bool
  accept_fail_streak :: nat
  rsp_notify_fail_streak :: nat
  sq_fail_logged :: bool
  drain_deadline :: "int option"
  listening :: bool
  rsp :: "(Ring \<times> Consumer) option"
  last_rsp_hb :: int
  rsp_popped_total :: u64
  rsp_batch_peak :: u32
  sq :: "bool list"
  accepted :: "int list"
  closed :: "int list"
  dangling :: bool

definition kMinSqDepth :: int where "kMinSqDepth = 128"

definition validate_sq_capacity :: "GatewayOptions \<Rightarrow> unit res" where
  "validate_sq_capacity opt = (if sq_depth opt < kMinSqDepth then Inl Runtime_error else Inr ())"

subsection \<open>Submission\<close>

definition kExhaustDrainLimit :: int where "kExhaustDrainLimit = 10000"
definition kDrainDeadline :: int where "kDrainDeadline = 5000"

definition get_sqe :: "int \<Rightarrow> Engine \<Rightarrow> bool \<times> Engine" where
  "get_sqe now e =
     (case sq e of
        [] \<Rightarrow> (True, e)
      | True # s \<Rightarrow> (True, e\<lparr>sq := s\<rparr>)
      | False # s \<Rightarrow>
          let e1 = (if \<not> sq_fail_logged e
                    then e\<lparr>sq_fail_logged := True, drain_deadline := Some (now + kExhaustDrainLimit)\<rparr>
                    else e)
          in (False, e1\<lparr>sq := s, draining := True\<rparr>))"

definition submit_op :: "Op \<Rightarrow> int \<Rightarrow> Engine \<Rightarrow> bool \<times> Engine" where
  "submit_op op now e =
     (case get_sqe now e of (False, e1) \<Rightarrow> (False, e1) | (True, e1) \<Rightarrow> (True, e1\<lparr>ops := ops e1 @ [op]\<rparr>))"

definition submit_accept :: "int \<Rightarrow> Engine \<Rightarrow> Engine" where
  "submit_accept now e = snd (submit_op Accept now e)"

definition submit_eventfd_read :: "int \<Rightarrow> Engine \<Rightarrow> Engine" where
  "submit_eventfd_read now e = snd (submit_op Wakeup now e)"

definition submit_stop_read :: "int \<Rightarrow> Engine \<Rightarrow> Engine" where
  "submit_stop_read now e = snd (submit_op Stop now e)"

definition submit_rsp_notify_read :: "int \<Rightarrow> Engine \<Rightarrow> Engine" where
  "submit_rsp_notify_read now e = snd (submit_op RspNotify now e)"

definition submit_cancel :: "int \<Rightarrow> Engine \<Rightarrow> Engine" where
  "submit_cancel now e = snd (submit_op Anon now e)"

definition upd_conn :: "u64 \<Rightarrow> (Connection \<Rightarrow> Connection) \<Rightarrow> Engine \<Rightarrow> Engine" where
  "upd_conn cid f e = e\<lparr>conns := (conns e)(cid := map_option f (conns e cid))\<rparr>"

definition submit_recv :: "GatewayOptions \<Rightarrow> int \<Rightarrow> u64 \<Rightarrow> Engine \<Rightarrow> bool \<times> Engine" where
  "submit_recv opt now cid e =
     (case submit_op (Recv cid) now (upd_conn cid (rx_prepare (rx_buf_bytes opt)) e) of
        (False, e1) \<Rightarrow> (False, e1)
      | (True, e1) \<Rightarrow>
          (True, upd_conn cid (\<lambda>c. c\<lparr>recv_op := True, pending_ops := pending_ops c + 1\<rparr>) e1))"

definition submit_send :: "int \<Rightarrow> u64 \<Rightarrow> Engine \<Rightarrow> bool \<times> Engine" where
  "submit_send now cid e =
     (case submit_op (Send cid) now e of
        (False, e1) \<Rightarrow> (False, e1)
      | (True, e1) \<Rightarrow>
          (True, upd_conn cid (\<lambda>c. c\<lparr>send_op := True, pending_ops := pending_ops c + 1,
                                      send_active := True\<rparr>) e1))"

subsection \<open>Connections\<close>

text \<open>\<open>emplace\<close> keeps an existing entry.\<close>

definition make_conn :: "GatewayOptions \<Rightarrow> int \<Rightarrow> int \<Rightarrow> Engine \<Rightarrow> u64 \<times> Engine" where
  "make_conn opt now fd e =
     (let cid = next_conn_id e; e1 = e\<lparr>next_conn_id := next_conn_id e + 1\<rparr> in
      (cid, if conns e1 cid = None
            then e1\<lparr>conns := (conns e1)(cid \<mapsto> mk_Connection fd cid (rx_buf_bytes opt) now)\<rparr> else e1))"

definition maybe_finalize :: "u64 \<Rightarrow> Engine \<Rightarrow> Engine" where
  "maybe_finalize cid e =
     (case conns e cid of
        None \<Rightarrow> e\<lparr>dangling := True\<rparr>
      | Some c \<Rightarrow>
          if c_state c \<noteq> Closing \<or> pending_ops c > 0 then e
          else e\<lparr>closed := closed e @ [c_fd c], conns := (conns e)(c_id c := None)\<rparr>)"

definition close_conn :: "int \<Rightarrow> u64 \<Rightarrow> Engine \<Rightarrow> Engine" where
  "close_conn now cid e =
     (case conns e cid of
        None \<Rightarrow> e\<lparr>dangling := True\<rparr>
      | Some c \<Rightarrow>
          if c_state c = Closing then e
          else
            let e1 = upd_conn cid (\<lambda>c. c\<lparr>c_state := Closing\<rparr>) e;
                e2 = (if recv_op c then submit_cancel now e1 else e1);
                e3 = (if send_op c then submit_cancel now e2 else e2)
            in maybe_finalize cid e3)"

definition push_response :: "GatewayOptions \<Rightarrow> int \<Rightarrow> u64 \<Rightarrow> bytes \<Rightarrow> Engine \<Rightarrow> bool \<times> Engine" where
  "push_response opt now cid frame e =
     (case conns e cid of
        None \<Rightarrow> (False, e\<lparr>dangling := True\<rparr>)
      | Some c \<Rightarrow>
          if send_bytes c + length frame > send_backlog_limit opt
          then (False, close_conn now cid e)
          else
            let e1 = upd_conn cid (send_push frame) e in
            (True, if \<not> send_active c then snd (submit_send now cid e1) else e1))"

subsection \<open>Completions\<close>

definition complete_accept :: "GatewayOptions \<Rightarrow> int \<Rightarrow> int \<Rightarrow> Engine \<Rightarrow> Engine" where
  "complete_accept opt now r e0 =
     (let e = (if r \<ge> 0 then e0\<lparr>accepted := accepted e0 @ [r]\<rparr> else e0) in
      if \<not> accepting e then (if r \<ge> 0 then e\<lparr>closed := closed e @ [r]\<rparr> else e)
      else if r < 0 then
        if r \<noteq> - 4 then
          let e1 = e\<lparr>accept_fail_streak := accept_fail_streak e + 1\<rparr> in
          if accept_fail_streak e1 \<ge> 8 then e1\<lparr>accept_fail_streak := 0\<rparr>
          else submit_accept now e1
        else submit_accept now e
      else
        let e1 = e\<lparr>accept_fail_streak := 0\<rparr>;
            (cid, e2) = make_conn opt now r e1;
            e3 = (case submit_recv opt now cid e2 of
                    (True, e') \<Rightarrow> e'
                  | (False, e') \<Rightarrow> e'\<lparr>closed := closed e' @ [r], conns := (conns e')(cid := None)\<rparr>)
        in submit_accept now e3)"

definition rx_limit :: "GatewayOptions \<Rightarrow> nat" where
  "rx_limit opt = kHeaderLen + kMaxMessageLen + rx_buf_bytes opt"

text \<open>A receive completion with a positive result has written those bytes to the storage.\<close>

definition complete_recv :: "GatewayOptions \<Rightarrow> int \<Rightarrow> u64 \<Rightarrow> int \<Rightarrow> bytes \<Rightarrow> Engine \<Rightarrow> Engine" where
  "complete_recv opt now cid r d e =
     (case conns e cid of
        None \<Rightarrow> e\<lparr>dangling := True\<rparr>
      | Some c \<Rightarrow>
          let e1 = upd_conn cid (\<lambda>c. c\<lparr>recv_op := False, pending_ops := pending_ops c - 1\<rparr>) e in
          if c_state c = Closing then maybe_finalize cid e1
          else if r < 0 then close_conn now cid e1
          else if r = 0 then close_conn now cid e1
          else
            let c1 = (rx_commit (nat r) (rx_kernel_write d (the (conns e1 cid))))\<lparr>last_active := now\<rparr>;
                e2 = upd_conn cid (\<lambda>_. c1) e1 in
            if rx_len c1 > rx_limit opt then close_conn now cid e2
            else
              let (raw, c2) = rx_take (rx_buf_bytes opt) c1 in
              (upd_conn cid (\<lambda>_. c2\<lparr>c_state := Parsing\<rparr>) e2)\<lparr>posted := posted e2 @ [(cid, raw)]\<rparr>)"

definition complete_send :: "int \<Rightarrow> u64 \<Rightarrow> int \<Rightarrow> Engine \<Rightarrow> Engine" where
  "complete_send now cid r e =
     (case conns e cid of
        None \<Rightarrow> e\<lparr>dangling := True\<rparr>
      | Some c \<Rightarrow>
          let e1 = upd_conn cid (\<lambda>c. c\<lparr>send_op := False, pending_ops := pending_ops c - 1,
                                        send_active := False\<rparr>) e in
          if c_state c = Closing then maybe_finalize cid e1
          else if r < 0 then close_conn now cid e1
          else
            let c1 = (send_pop (nat r) (the (conns e1 cid)))\<lparr>last_active := now\<rparr>;
                e2 = upd_conn cid (\<lambda>_. c1) e1 in
            if send_pending c1 then snd (submit_send now cid e2) else e2)"

subsection \<open>Outbox and response ring\<close>

definition outbox_item :: "GatewayOptions \<Rightarrow> int \<Rightarrow> OutboxItem \<Rightarrow> Engine \<Rightarrow> Engine" where
  "outbox_item opt now it e =
     (case conns e (ob_conn_id it) of
        None \<Rightarrow> e
      | Some c \<Rightarrow>
          if c_state c = Closing then e
          else
            (case ob_kind it of
               Respond \<Rightarrow> snd (push_response opt now (ob_conn_id it) (ob_bytes it) e)
             | RearmRecv \<Rightarrow>
                 if draining e then close_conn now (ob_conn_id it) e
                 else if c_state c \<noteq> Parsing then e
                 else
                   let e1 = upd_conn (ob_conn_id it)
                              (\<lambda>c. (rx_feed (ob_bytes it) c)\<lparr>c_state := Active\<rparr>) e in
                   (case submit_recv opt now (ob_conn_id it) e1 of
                      (True, e2) \<Rightarrow> e2
                    | (False, e2) \<Rightarrow> close_conn now (ob_conn_id it) e2)
             | Close \<Rightarrow> close_conn now (ob_conn_id it) e))"

definition drain_outbox :: "GatewayOptions \<Rightarrow> int \<Rightarrow> Engine \<Rightarrow> Engine" where
  "drain_outbox opt now e =
     (case outbox_drain (outbox e) [] of (n, items, q) \<Rightarrow>
        fold (outbox_item opt now) items (e\<lparr>outbox := q\<rparr>))"

definition rsp_slot :: "GatewayOptions \<Rightarrow> int \<Rightarrow> Slot \<Rightarrow> Engine \<Rightarrow> Engine" where
  "rsp_slot opt now s e =
     (let pk = pkt s in
      if payload_len pk = 0 then e
      else if unat (payload_len pk) > kPayloadMax kRspSlotSize then e
      else
        (case conns e (conn_id pk) of
           None \<Rightarrow> e
         | Some c \<Rightarrow>
             if c_state c = Closing then e
             else snd (push_response opt now (conn_id pk)
                         (take (unat (payload_len pk)) (payload s)) e)))"

function drain_rsp_loop ::
  "GatewayOptions \<Rightarrow> int \<Rightarrow> Ring \<Rightarrow> Consumer \<Rightarrow> Engine \<Rightarrow> Ring \<times> Consumer \<times> Engine" where
  "drain_rsp_loop opt now r c e =
     (case pop_batch kRspBits r c 32 of
        (n, None) \<Rightarrow> (r, c, e)
      | (n, Some i) \<Rightarrow>
          (let e1 = e\<lparr>rsp_popped_total := rsp_popped_total e + ucast n,
                      rsp_batch_peak := (if n > rsp_batch_peak e then n else rsp_batch_peak e)\<rparr>;
               e2 = fold (rsp_slot opt now) (take (unat n) (drop i (slots r))) e1 in
           case release n r c of (r', c') \<Rightarrow> drain_rsp_loop opt now r' c' e2))"
  by pat_completeness auto
termination
  by (relation "measure (\<lambda>(opt, now, r, c, e). unat (head (hdr r) - tail_local c))")
    (auto intro: pop_batch_shrinks [OF sym sym])

declare drain_rsp_loop.simps [simp del]

definition request_stop :: "Engine \<Rightarrow> Engine" where
  "request_stop e = e\<lparr>stopping := True\<rparr>"

text \<open>Whether the dispatch process is judged dead; \<open>pid_gone\<close> is the answer of \<open>kill\<close>.\<close>

definition dispatch_dead :: "(u32 \<Rightarrow> bool) \<Rightarrow> u64 \<Rightarrow> nat \<Rightarrow> Ring \<Rightarrow> bool" where
  "dispatch_dead pid_gone now_ns peer_timeout_ms r =
     (let pid = producer_pid (hdr r); hb = producer_heartbeat_ns (hdr r);
          limit = word_of_nat peer_timeout_ms * 1000000 in
      if pid \<noteq> 0 \<and> pid_gone pid then True
      else if hb \<noteq> 0 \<and> now_ns - hb > limit then True else False)"

text \<open>Once a second: the gateway's own heartbeat, and a stop request when the peer is dead.\<close>

definition rsp_heartbeat ::
  "(u32 \<Rightarrow> bool) \<Rightarrow> nat \<Rightarrow> u64 \<Rightarrow> int \<Rightarrow> Ring \<Rightarrow> Engine \<Rightarrow> Ring \<times> Engine" where
  "rsp_heartbeat pid_gone peer_timeout_ms now_ns now r e =
     (if now - last_rsp_hb e \<ge> 1000 then
        (consumer_heartbeat now_ns r,
         let e' = e\<lparr>last_rsp_hb := now\<rparr> in
         if \<not> stopping e' \<and> dispatch_dead pid_gone now_ns peer_timeout_ms r
         then request_stop e' else e')
      else (r, e))"

definition drain_response_ring ::
  "GatewayOptions \<Rightarrow> (u32 \<Rightarrow> bool) \<Rightarrow> nat \<Rightarrow> u64 \<Rightarrow> int \<Rightarrow> Engine \<Rightarrow> Engine" where
  "drain_response_ring opt pid_gone peer_timeout_ms now_ns now e =
     (case rsp e of
        None \<Rightarrow> e
      | Some (r, c) \<Rightarrow>
          let (r1, e1) = rsp_heartbeat pid_gone peer_timeout_ms now_ns now r e;
              (r2, c2, e2) = drain_rsp_loop opt now r1 c e1
          in e2\<lparr>rsp := Some (r2, c2)\<rparr>)"

definition complete_rsp_notify ::
  "GatewayOptions \<Rightarrow> (u32 \<Rightarrow> bool) \<Rightarrow> nat \<Rightarrow> u64 \<Rightarrow> int \<Rightarrow> int \<Rightarrow> Engine \<Rightarrow> Engine" where
  "complete_rsp_notify opt pid_gone peer_timeout_ms now_ns now r e =
     (if r = - 125 then e
      else if r < 0 then
        let e1 = e\<lparr>rsp_notify_fail_streak := rsp_notify_fail_streak e + 1\<rparr> in
        if rsp_notify_fail_streak e1 \<ge> 8 then e1\<lparr>rsp_notify_fail_streak := 0\<rparr>
        else submit_rsp_notify_read now e1
      else
        drain_response_ring opt pid_gone peer_timeout_ms now_ns now
          (submit_rsp_notify_read now (e\<lparr>rsp_notify_fail_streak := 0\<rparr>)))"

definition complete_wakeup :: "GatewayOptions \<Rightarrow> int \<Rightarrow> Engine \<Rightarrow> Engine" where
  "complete_wakeup opt now e = drain_outbox opt now (submit_eventfd_read now e)"

definition complete_stop :: "Engine \<Rightarrow> Engine" where
  "complete_stop e = e\<lparr>stopping := True\<rparr>"

subsection \<open>Dispatch of completions, sweeping, shutdown\<close>

record CqeEnv =
  env_now :: int
  env_now_ns :: u64
  env_pid_gone :: "u32 \<Rightarrow> bool"
  env_peer_timeout :: nat

text \<open>A completion queue entry: its operation, its result, and the bytes received.\<close>

definition on_cqe :: "GatewayOptions \<Rightarrow> CqeEnv \<Rightarrow> Op \<Rightarrow> int \<Rightarrow> bytes \<Rightarrow> Engine \<Rightarrow> Engine" where
  "on_cqe opt env op r d e0 =
     (let e = e0\<lparr>ops := remove1 op (ops e0)\<rparr> in
      case op of
        Anon \<Rightarrow> e
      | Accept \<Rightarrow> complete_accept opt (env_now env) r e
      | Recv cid \<Rightarrow> complete_recv opt (env_now env) cid r d e
      | Send cid \<Rightarrow> complete_send (env_now env) cid r e
      | Wakeup \<Rightarrow> complete_wakeup opt (env_now env) e
      | Stop \<Rightarrow> complete_stop e
      | RspNotify \<Rightarrow> complete_rsp_notify opt (env_pid_gone env) (env_peer_timeout env)
                       (env_now_ns env) (env_now env) r e)"

definition close_if_present :: "int \<Rightarrow> u64 \<Rightarrow> Engine \<Rightarrow> Engine" where
  "close_if_present now cid e = (if conns e cid \<noteq> None then close_conn now cid e else e)"

text \<open>\<open>order\<close> lists the keys of the map in the order in which the loop visits them.\<close>

definition sweep_idle :: "GatewayOptions \<Rightarrow> int \<Rightarrow> u64 list \<Rightarrow> Engine \<Rightarrow> Engine" where
  "sweep_idle opt now order e =
     (if idle_timeout opt \<le> 0 then e
      else
        let victims = filter (\<lambda>cid. case conns e cid of None \<Rightarrow> False
                        | Some c \<Rightarrow> c_state c \<noteq> Closing \<and> now - last_active c > idle_timeout opt) order
        in fold (close_if_present now) victims e)"

definition drain_complete :: "int \<Rightarrow> Engine \<Rightarrow> bool" where
  "drain_complete now e \<longleftrightarrow>
     conns e = Map.empty \<or> (case drain_deadline e of None \<Rightarrow> True | Some d \<Rightarrow> now > d)"

text \<open>The part of a loop round after the harvest.\<close>

definition loop_tail :: "GatewayOptions \<Rightarrow> CqeEnv \<Rightarrow> u64 list \<Rightarrow> Engine \<Rightarrow> Engine" where
  "loop_tail opt env order e =
     (let now = env_now env;
          e1 = drain_response_ring opt (env_pid_gone env) (env_peer_timeout env) (env_now_ns env) now e;
          e2 = (if \<not> draining e1 then sweep_idle opt now order e1 else e1) in
      if stopping e2 \<and> \<not> draining e2
      then e2\<lparr>draining := True, accepting := False, listening := False,
              drain_deadline := (if drain_deadline e2 = None then Some (now + kDrainDeadline)
                                 else drain_deadline e2)\<rparr>
      else e2)"

definition kReapBatch :: nat where "kReapBatch = 64"

definition reap_round :: "int \<Rightarrow> u64 list \<Rightarrow> Engine \<Rightarrow> Engine" where
  "reap_round now order e = fold (close_if_present now) (take kReapBatch order) e"

text \<open>After the reap limit the remaining connections are closed without waiting.\<close>

definition reap_force :: "u64 list \<Rightarrow> Engine \<Rightarrow> Engine" where
  "reap_force order e =
     e\<lparr>closed := closed e @ map (\<lambda>cid. c_fd (the (conns e cid))) order, conns := Map.empty\<rparr>"

subsection \<open>Workers\<close>

text \<open>
  \<open>worker_batch\<close> with the sink as a function on the sink's state. A throw of
  \<open>SinkOverload\<close> or \<open>MalformedIpcRequest\<close> closes the connection and abandons the
  rest of the batch; any other throw is logged and the batch goes on.
\<close>

fun worker_frames ::
  "(Request \<Rightarrow> 's \<Rightarrow> bytes res \<times> 's) \<Rightarrow> u64 \<Rightarrow> Frame list \<Rightarrow> 's \<Rightarrow> OutboxQueue \<Rightarrow> bool \<times> 's \<times> OutboxQueue" where
  "worker_frames handle cid [] s q = (True, s, q)"
| "worker_frames handle cid (f # fs) s q =
     (case handle \<lparr>rq_conn_id = cid, rq_event_id = fr_event_id f, rq_seq = fr_seq f,
                   rq_payload = fr_payload f\<rparr> s of
        (Inl e, s1) \<Rightarrow>
          if e = Sink_overload \<or> e = Malformed_ipc_request
          then (False, s1, outbox_push \<lparr>ob_kind = Close, ob_conn_id = cid, ob_bytes = []\<rparr> q)
          else worker_frames handle cid fs s1 q
      | (Inr reply, s1) \<Rightarrow>
          let q1 = (if reply \<noteq> [] then
                      (case stamp_seq reply (fr_seq f) of
                         (True, b) \<Rightarrow> outbox_push \<lparr>ob_kind = Respond, ob_conn_id = cid, ob_bytes = b\<rparr> q
                       | (False, b) \<Rightarrow> q)
                    else q)
          in worker_frames handle cid fs s1 q1)"

definition worker_batch ::
  "(Request \<Rightarrow> 's \<Rightarrow> bytes res \<times> 's) \<Rightarrow> u64 \<Rightarrow> bytes \<Rightarrow> 's \<Rightarrow> OutboxQueue \<Rightarrow> 's \<times> OutboxQueue" where
  "worker_batch handle cid raw s q =
     (case cut_frames raw [] of (cr, frames) \<Rightarrow>
        case worker_frames handle cid frames s q of
          (False, s1, q1) \<Rightarrow> (s1, q1)
        | (True, s1, q1) \<Rightarrow>
            if bad cr then (s1, outbox_push \<lparr>ob_kind = Close, ob_conn_id = cid, ob_bytes = []\<rparr> q1)
            else (s1, outbox_push \<lparr>ob_kind = RearmRecv, ob_conn_id = cid, ob_bytes = leftover cr\<rparr> q1))"

subsection \<open>The engine as a transition system\<close>

text \<open>
  A step is the handling of one completion, the tail of a loop round, a round of the reaper,
  a worker thread finishing one posted batch, the dispatch process writing to the response
  ring (anything at all), or a signal asking for the stop. The kernel reports a completion
  only for an operation in flight, with at most as many bytes as the storage had room for.
\<close>

definition recv_fits :: "Op \<Rightarrow> int \<Rightarrow> bytes \<Rightarrow> Engine \<Rightarrow> bool" where
  "recv_fits op r d e \<longleftrightarrow>
     (\<forall>cid c. op = Recv cid \<longrightarrow> conns e cid = Some c \<longrightarrow> 0 < r \<longrightarrow>
        length d = nat r \<and> nat r \<le> rx_writable c)"

inductive eng_step ::
  "GatewayOptions \<Rightarrow> (Request \<Rightarrow> 's \<Rightarrow> bytes res \<times> 's) \<Rightarrow> Engine \<times> 's \<Rightarrow> Engine \<times> 's \<Rightarrow> bool"
  for opt handle where
  Cqe: "op \<in> set (ops e) \<Longrightarrow> recv_fits op r d e \<Longrightarrow>
    eng_step opt handle (e, s) (on_cqe opt env op r d e, s)"
| Tail: "eng_step opt handle (e, s) (loop_tail opt env order e, s)"
| Reap: "eng_step opt handle (e, s) (reap_round now order e, s)"
| Worker: "posted e = ps @ (cid, raw) # ps' \<Longrightarrow> worker_batch handle cid raw s (outbox e) = (s', q) \<Longrightarrow>
    eng_step opt handle (e, s) (e\<lparr>posted := ps @ ps', outbox := q\<rparr>, s')"
| Peer: "rsp e = Some (r0, c) \<Longrightarrow> eng_step opt handle (e, s) (e\<lparr>rsp := Some (r', c)\<rparr>, s)"
| Signal: "eng_step opt handle (e, s) (request_stop e, s)"

definition eng_init :: "(Ring \<times> Consumer) option \<Rightarrow> bool list \<Rightarrow> int \<Rightarrow> Engine" where
  "eng_init rs sqs now =
     (let e = \<lparr>conns = Map.empty, next_conn_id = 1, ops = [], posted = [], outbox = \<lparr>obq = []\<rparr>,
               draining = False, stopping = False, accepting = True, accept_fail_streak = 0,
               rsp_notify_fail_streak = 0, sq_fail_logged = False, drain_deadline = None,
               listening = True, rsp = rs, last_rsp_hb = 0, rsp_popped_total = 0,
               rsp_batch_peak = 0, sq = sqs, accepted = [], closed = [], dangling = False\<rparr>;
          e1 = submit_stop_read now (submit_eventfd_read now (submit_accept now e)) in
      if rs \<noteq> None then submit_rsp_notify_read now e1 else e1)"

text \<open>Reachability in a number of steps, which bounds how often a connection id is drawn.\<close>

inductive eng_reach ::
  "GatewayOptions \<Rightarrow> (Request \<Rightarrow> 's \<Rightarrow> bytes res \<times> 's) \<Rightarrow> 's \<Rightarrow> nat \<Rightarrow> Engine \<times> 's \<Rightarrow> bool"
  for opt handle s0 where
  Init: "eng_reach opt handle s0 0 (eng_init rs sqs now, s0)"
| Step: "eng_reach opt handle s0 n es \<Longrightarrow> eng_step opt handle es es' \<Longrightarrow>
    eng_reach opt handle s0 (Suc n) es'"

end
