(* ===== verification/EngineInv.thy ===== *)
theory EngineInv
  imports UringEngine
begin

text \<open>
  The invariant of the gateway engine and its preservation by every step: connections and
  the operations in flight for them always agree, so no completion refers to a connection
  that is gone; buffers stay within their limits; every accepted descriptor is either owned
  by one connection or has been closed once.
\<close>

subsection \<open>The invariant\<close>

definition conn_core :: "GatewayOptions \<Rightarrow> u64 \<Rightarrow> Connection \<Rightarrow> bool" where
  "conn_core opt cid c \<longleftrightarrow> c_id c = cid \<and> buffers_ok c \<and>
     pending_ops c = of_bool (recv_op c) + of_bool (send_op c) \<and> send_active c = send_op c \<and>
     send_bytes c \<le> send_backlog_limit opt \<and> length (rx_store c) \<le> rx_limit opt"

definition state_ok :: "GatewayOptions \<Rightarrow> Connection \<Rightarrow> bool" where
  "state_ok opt c \<longleftrightarrow>
     (case c_state c of
        Active \<Rightarrow> recv_op c
      | Parsing \<Rightarrow> \<not> recv_op c \<and> rx_len c = 0 \<and> length (rx_store c) \<le> rx_buf_bytes opt
      | Closing \<Rightarrow> recv_op c \<or> send_op c)"

definition open_fds :: "(u64 \<rightharpoonup> Connection) \<Rightarrow> int multiset" where
  "open_fds m = image_mset (\<lambda>cid. c_fd (the (m cid))) (mset_set (dom m))"

definition items_ok :: "OutboxQueue \<Rightarrow> bool" where
  "items_ok q \<longleftrightarrow> (\<forall>it\<in>set (obq q). ob_kind it = RearmRecv \<longrightarrow>
     length (ob_bytes it) \<le> kHeaderLen + kMaxMessageLen)"

definition conns_ok :: "GatewayOptions \<Rightarrow> nat \<Rightarrow> u64 set \<Rightarrow> Engine \<Rightarrow> bool" where
  "conns_ok opt n X e \<longleftrightarrow>
     (\<forall>cid c. conns e cid = Some c \<longrightarrow> conn_core opt cid c \<and> unat cid < unat (next_conn_id e) \<and>
        (cid \<notin> X \<longrightarrow> state_ok opt c)) \<and>
     finite (dom (conns e)) \<and> unat (next_conn_id e) + n < 2 ^ 64"

definition ops_ok :: "Engine \<Rightarrow> bool" where
  "ops_ok e \<longleftrightarrow>
     (\<forall>cid. count_list (ops e) (Recv cid) =
        (case conns e cid of None \<Rightarrow> 0 | Some c \<Rightarrow> of_bool (recv_op c))) \<and>
     (\<forall>cid. count_list (ops e) (Send cid) =
        (case conns e cid of None \<Rightarrow> 0 | Some c \<Rightarrow> of_bool (send_op c)))"

text \<open>\<open>X\<close> are connections whose state is being changed right now.\<close>

definition einv :: "GatewayOptions \<Rightarrow> nat \<Rightarrow> u64 set \<Rightarrow> Engine \<Rightarrow> bool" where
  "einv opt n X e \<longleftrightarrow> conns_ok opt n X e \<and> ops_ok e \<and> \<not> dangling e \<and>
     mset (accepted e) = mset (closed e) + open_fds (conns e) \<and> items_ok (outbox e)"

lemma einvD:
  assumes "einv opt n X e" "conns e cid = Some c"
  shows "conn_core opt cid c" "cid \<notin> X \<Longrightarrow> state_ok opt c" "unat cid < unat (next_conn_id e)"
    "count_list (ops e) (Recv cid) = of_bool (recv_op c)"
    "count_list (ops e) (Send cid) = of_bool (send_op c)"
  using assms by (auto simp: einv_def conns_ok_def ops_ok_def split: option.splits)

lemma einv_weaken: "einv opt n X e \<Longrightarrow> X \<subseteq> Y \<Longrightarrow> m \<le> n \<Longrightarrow> einv opt m Y e"
  by (force simp: einv_def conns_ok_def)

lemma einv_frame:
  assumes "einv opt n X e" "conns e' = conns e" "ops e' = ops e" "next_conn_id e' = next_conn_id e"
    "dangling e' = dangling e" "accepted e' = accepted e" "closed e' = closed e"
    "items_ok (outbox e')"
  shows "einv opt n X e'"
  using assms by (simp add: einv_def conns_ok_def ops_ok_def)

lemma open_fds_update:
  assumes "m cid = Some c" "c_fd c' = c_fd c"
  shows "open_fds (m(cid \<mapsto> c')) = open_fds m"
proof -
  have "dom (m(cid \<mapsto> c')) = dom m" using assms(1) by auto
  then show ?thesis
    unfolding open_fds_def using assms by (auto intro!: image_mset_cong)
qed

lemma open_fds_delete:
  assumes "m cid = Some c" "finite (dom m)"
  shows "open_fds m = add_mset (c_fd c) (open_fds (m(cid := None)))"
proof -
  have "mset_set (dom m) = add_mset cid (mset_set (dom m - {cid}))"
    using assms by (intro mset_set.remove) auto
  moreover have "image_mset (\<lambda>i. c_fd (the (m i))) (mset_set (dom m - {cid}))
      = open_fds (m(cid := None))"
    unfolding open_fds_def using assms(2) by (auto intro!: image_mset_cong)
  ultimately show ?thesis using assms(1) by (simp add: open_fds_def)
qed

lemma open_fds_insert:
  assumes "m cid = None" "finite (dom m)"
  shows "open_fds (m(cid \<mapsto> c)) = add_mset (c_fd c) (open_fds m)"
proof -
  have "(m(cid \<mapsto> c))(cid := None) = m" using assms(1) by auto
  then show ?thesis using open_fds_delete [of "m(cid \<mapsto> c)" cid c] assms(2) by simp
qed

lemma upd_conn_simps [simp]:
  "conns e cid = Some c \<Longrightarrow> conns (upd_conn cid f e) = (conns e)(cid \<mapsto> f c)"
  "ops (upd_conn cid f e) = ops e" "next_conn_id (upd_conn cid f e) = next_conn_id e"
  "dangling (upd_conn cid f e) = dangling e" "accepted (upd_conn cid f e) = accepted e"
  "closed (upd_conn cid f e) = closed e" "outbox (upd_conn cid f e) = outbox e"
  "draining (upd_conn cid f e) = draining e" "posted (upd_conn cid f e) = posted e"
  by (simp_all add: upd_conn_def)

text \<open>Changing one connection, together with its operations in flight.\<close>

lemma einv_change:
  assumes inv: "einv opt n X e" and c: "conns e cid = Some c"
    and conns': "conns e' = (conns e)(cid \<mapsto> c')"
    and fd: "c_fd c' = c_fd c" and core: "conn_core opt cid c'"
    and st: "cid \<notin> Y \<Longrightarrow> state_ok opt c'" and XY: "X \<subseteq> insert cid Y"
    and here: "count_list (ops e') (Recv cid) = of_bool (recv_op c')"
      "count_list (ops e') (Send cid) = of_bool (send_op c')"
    and there: "\<And>i. i \<noteq> cid \<Longrightarrow> count_list (ops e') (Recv i) = count_list (ops e) (Recv i)"
      "\<And>i. i \<noteq> cid \<Longrightarrow> count_list (ops e') (Send i) = count_list (ops e) (Send i)"
    and rest: "next_conn_id e' = next_conn_id e" "dangling e' = dangling e"
      "accepted e' = accepted e" "closed e' = closed e" "outbox e' = outbox e"
  shows "einv opt n Y e'"
proof -
  have "conn_core opt i d \<and> unat i < unat (next_conn_id e) \<and> (i \<notin> Y \<longrightarrow> state_ok opt d)"
    if "conns e' i = Some d" for i d
  proof (cases "i = cid")
    case True
    then show ?thesis using that conns' core st einvD(3) [OF inv c] by simp
  next
    case False
    then have "conns e i = Some d" using that conns' by simp
    from einvD(1-3) [OF inv this] False XY show ?thesis by blast
  qed
  then have "conns_ok opt n Y e'"
    using inv rest(1) conns' by (simp add: einv_def conns_ok_def)
  moreover have "ops_ok e'"
    unfolding ops_ok_def
    using inv here there conns' by (auto simp: einv_def ops_ok_def)
  ultimately show ?thesis
    using inv rest open_fds_update [of "conns e" cid, OF c fd] conns' by (simp add: einv_def)
qed

lemma einv_upd:
  assumes inv: "einv opt n X e" and c: "conns e cid = Some c"
    and fd: "c_fd (f c) = c_fd c" and core: "conn_core opt cid (f c)"
    and op: "recv_op (f c) = recv_op c" "send_op (f c) = send_op c"
    and st: "cid \<notin> Y \<Longrightarrow> state_ok opt (f c)" and XY: "X \<subseteq> insert cid Y"
  shows "einv opt n Y (upd_conn cid f e)"
  by (rule einv_change [OF inv c _ fd core st XY]) (simp_all add: c op einvD(4,5) [OF inv c])

subsection \<open>Submission\<close>

lemma get_sqe_frame [simp]:
  "conns (snd (get_sqe now e)) = conns e" "ops (snd (get_sqe now e)) = ops e"
  "next_conn_id (snd (get_sqe now e)) = next_conn_id e"
  "dangling (snd (get_sqe now e)) = dangling e" "accepted (snd (get_sqe now e)) = accepted e"
  "closed (snd (get_sqe now e)) = closed e" "outbox (snd (get_sqe now e)) = outbox e"
  by (auto simp: get_sqe_def Let_def split: list.splits bool.splits)

lemma submit_op_frame [simp]:
  "conns (snd (submit_op op now e)) = conns e"
  "next_conn_id (snd (submit_op op now e)) = next_conn_id e"
  "dangling (snd (submit_op op now e)) = dangling e" "accepted (snd (submit_op op now e)) = accepted e"
  "closed (snd (submit_op op now e)) = closed e" "outbox (snd (submit_op op now e)) = outbox e"
  "ops (snd (submit_op op now e)) = (if fst (submit_op op now e) then ops e @ [op] else ops e)"
  using get_sqe_frame [of now e]
  by (auto simp: submit_op_def split: prod.splits bool.splits simp del: get_sqe_frame)

lemma count_list_snoc: "count_list (xs @ [y]) x = count_list xs x + of_bool (x = y)"
  by simp

lemma einv_submit_other:
  assumes "einv opt n X e" "\<forall>cid. op \<noteq> Recv cid" "\<forall>cid. op \<noteq> Send cid"
  shows "einv opt n X (snd (submit_op op now e))"
  using assms by (simp add: einv_def conns_ok_def ops_ok_def)

lemmas submit_defs = submit_accept_def submit_eventfd_read_def submit_stop_read_def
  submit_rsp_notify_read_def submit_cancel_def

lemma einv_submits [simp]:
  assumes "einv opt n X e"
  shows "einv opt n X (submit_accept now e)" "einv opt n X (submit_eventfd_read now e)"
    "einv opt n X (submit_stop_read now e)" "einv opt n X (submit_rsp_notify_read now e)"
    "einv opt n X (submit_cancel now e)"
  using assms by (simp_all add: submit_defs einv_submit_other)

lemma conns_submits [simp]:
  "conns (submit_accept now e) = conns e" "conns (submit_cancel now e) = conns e"
  "conns (submit_eventfd_read now e) = conns e"
  by (simp_all add: submit_defs)

lemma einv_submit_recv:
  assumes inv: "einv opt n (insert cid X) e" and c: "conns e cid = Some c"
    and st: "c_state c = Active" "\<not> recv_op c"
    and len: "length (rx_store (rx_prepare (rx_buf_bytes opt) c)) \<le> rx_limit opt"
    and sub: "submit_recv opt now cid e = (ok, e')"
  shows "if ok then einv opt n X e'
    else einv opt n (insert cid X) e' \<and> conns e' = (conns e)(cid \<mapsto> rx_prepare (rx_buf_bytes opt) c)"
proof -
  let ?f = "rx_prepare (rx_buf_bytes opt)"
  note core = einvD(1) [OF inv c]
  have b: "buffers_ok c" using core by (simp add: conn_core_def)
  have same: "c_fd (?f c) = c_fd c" "c_id (?f c) = c_id c" "recv_op (?f c) = recv_op c"
    "send_op (?f c) = send_op c" "pending_ops (?f c) = pending_ops c"
    "send_active (?f c) = send_active c" "send_bytes (?f c) = send_bytes c" "c_state (?f c) = c_state c"
    by (simp_all add: rx_prepare_def)
  have core1: "conn_core opt cid (?f c)"
    using core same len rx_prepare_ok(1) [OF b] by (simp add: conn_core_def)
  let ?e1 = "upd_conn cid ?f e"
  have inv1: "einv opt n (insert cid X) ?e1"
    by (rule einv_upd [OF inv c]) (use core1 same in auto)
  have c1: "conns ?e1 cid = Some (?f c)" using c by simp
  obtain ok1 e2 where so: "submit_op (Recv cid) now ?e1 = (ok1, e2)" by fastforce
  note fr = submit_op_frame [of "Recv cid" now ?e1, unfolded so, simplified]
  show ?thesis
  proof (cases ok1)
    case False
    then have "ok = False" "e' = e2" using sub so by (simp_all add: submit_recv_def)
    moreover have "einv opt n (insert cid X) e2"
      using inv1 fr False by (simp add: einv_def conns_ok_def ops_ok_def)
    ultimately show ?thesis using fr(1) c by simp
  next
    case True
    let ?g = "\<lambda>c. c\<lparr>recv_op := True, pending_ops := pending_ops c + 1\<rparr>"
    have e': "ok" "e' = upd_conn cid ?g e2" using sub so True by (simp_all add: submit_recv_def)
    have c2: "conns e2 cid = Some (?f c)" using fr(1) c1 by simp
    have "conn_core opt cid (?g (?f c))" "state_ok opt (?g (?f c))"
      using core1 same st by (auto simp: conn_core_def state_ok_def buffers_ok_def tx_bytes_def)
    moreover have "count_list (ops e2) (Recv cid) = 1" "count_list (ops e2) (Send cid) = of_bool (send_op c)"
      using fr True einvD(4,5) [OF inv c] st(2) by simp_all
    ultimately have "einv opt n X e'"
      by (intro einv_change [OF inv c, of e' "?g (?f c)"]) (use fr c2 c same e' True in auto)
    with e'(1) show ?thesis by simp
  qed
qed

lemma einv_submit_send:
  assumes inv: "einv opt n X e" and c: "conns e cid = Some c" and st: "\<not> send_op c"
  shows "einv opt n X (snd (submit_send now cid e))"
proof -
  obtain ok e1 where so: "submit_op (Send cid) now e = (ok, e1)" by fastforce
  note fr = submit_op_frame [of "Send cid" now e, unfolded so, simplified]
  show ?thesis
  proof (cases ok)
    case False
    then have "snd (submit_send now cid e) = e1" using so by (simp add: submit_send_def)
    then show ?thesis using inv fr False by (simp add: einv_def conns_ok_def ops_ok_def)
  next
    case True
    let ?g = "\<lambda>c. c\<lparr>send_op := True, pending_ops := pending_ops c + 1, send_active := True\<rparr>"
    have e': "snd (submit_send now cid e) = upd_conn cid ?g e1"
      using so True by (simp add: submit_send_def)
    have core: "conn_core opt cid (?g c)"
      using einvD(1) [OF inv c] st by (auto simp: conn_core_def buffers_ok_def tx_bytes_def)
    have "state_ok opt c \<Longrightarrow> state_ok opt (?g c)"
      by (auto simp: state_ok_def split: ConnState.splits)
    then have sto: "cid \<notin> X \<Longrightarrow> state_ok opt (?g c)" using einvD(2) [OF inv c] by blast
    show ?thesis unfolding e'
      by (rule einv_change [OF inv c, of _ "?g c"])
        (use fr c core sto True st einvD(4,5) [OF inv c] in auto)
  qed
qed

subsection \<open>Closing\<close>

lemma einv_finalize:
  assumes inv: "einv opt n (insert cid X) e" and c: "conns e cid = Some c"
    and st: "c_state c \<noteq> Closing \<Longrightarrow> state_ok opt c"
  shows "einv opt n X (maybe_finalize cid e)"
proof (cases "c_state c \<noteq> Closing \<or> pending_ops c > 0")
  case True
  note core = einvD(1) [OF inv c]
  have "state_ok opt c"
  proof (cases "c_state c = Closing")
    case cl: True
    with True core show ?thesis by (auto simp: state_ok_def conn_core_def split: if_splits)
  qed (rule st)
  then have "conns_ok opt n X e"
    using inv c unfolding einv_def conns_ok_def by (metis insert_iff option.inject)
  then show ?thesis using inv True c by (simp add: maybe_finalize_def einv_def)
next
  case False
  note core = einvD(1) [OF inv c]
  let ?e = "e\<lparr>closed := closed e @ [c_fd c], conns := (conns e)(cid := None)\<rparr>"
  have eq: "maybe_finalize cid e = ?e"
    using False c core by (simp add: maybe_finalize_def conn_core_def)
  have no: "\<not> recv_op c" "\<not> send_op c"
    using False core by (auto simp: conn_core_def of_bool_def split: if_splits)
  have "conns_ok opt n X ?e"
    using inv by (auto simp: einv_def conns_ok_def)
  moreover have "ops_ok ?e"
    using inv einvD(4,5) [OF inv c] no by (auto simp: einv_def ops_ok_def)
  moreover have "open_fds (conns e) = add_mset (c_fd c) (open_fds ((conns e)(cid := None)))"
    using inv c by (intro open_fds_delete) (simp_all add: einv_def conns_ok_def)
  ultimately show ?thesis
    using inv by (simp add: eq einv_def)
qed

lemma einv_close:
  assumes inv: "einv opt n (insert cid X) e" and c: "conns e cid = Some c"
    and st: "c_state c = Closing \<Longrightarrow> state_ok opt c"
  shows "einv opt n X (close_conn now cid e)"
proof (cases "c_state c = Closing")
  case True
  then have "state_ok opt c" by (rule st)
  then have "conns_ok opt n X e"
    using inv c unfolding einv_def conns_ok_def by (metis insert_iff option.inject)
  then show ?thesis using inv True c by (simp add: close_conn_def einv_def)
next
  case False
  let ?f = "\<lambda>c. c\<lparr>c_state := Closing\<rparr>"
  let ?e1 = "upd_conn cid ?f e"
  let ?e2 = "if recv_op c then submit_cancel now ?e1 else ?e1"
  let ?e3 = "if send_op c then submit_cancel now ?e2 else ?e2"
  have "conn_core opt cid (?f c)"
    using einvD(1) [OF inv c] by (simp add: conn_core_def buffers_ok_def tx_bytes_def)
  then have "einv opt n (insert cid X) ?e1"
    by (intro einv_upd [OF inv c]) simp_all
  then have inv3: "einv opt n (insert cid X) ?e3" by simp
  have c3: "conns ?e3 cid = Some (?f c)" using c by simp
  have "close_conn now cid e = maybe_finalize cid ?e3"
    using c False by (simp add: close_conn_def Let_def)
  then show ?thesis using einv_finalize [OF inv3 c3] by simp
qed

lemma einv_close':
  assumes "einv opt n X e" "conns e cid = Some c" "cid \<notin> X"
  shows "einv opt n X (close_conn now cid e)"
  using einv_close [of opt n cid X e c] einv_weaken [OF assms(1), of "insert cid X" n]
    einvD(2) [OF assms(1,2,3)] assms(2) by blast

lemma einv_close_if_present: "einv opt n {} e \<Longrightarrow> einv opt n {} (close_if_present now cid e)"
  using einv_close' [of opt n "{}" e cid] by (auto simp: close_if_present_def)

lemma einv_fold: "(\<And>x e. P e \<Longrightarrow> P (f x e)) \<Longrightarrow> P e \<Longrightarrow> P (fold f xs e)"
  by (induction xs arbitrary: e) auto

lemma einv_push_response:
  assumes inv: "einv opt n {} e" and c: "conns e cid = Some c"
  shows "einv opt n {} (snd (push_response opt now cid frame e))"
proof (cases "send_bytes c + length frame > send_backlog_limit opt")
  case True
  then show ?thesis using einv_close' [OF inv c] c by (simp add: push_response_def)
next
  case False
  note core = einvD(1) [OF inv c]
  have b: "buffers_ok c" using core by (simp add: conn_core_def)
  have core1: "conn_core opt cid (send_push frame c)"
    using core False send_push_ok(1) [OF b, of frame] by (simp add: conn_core_def send_push_def)
  have sto: "state_ok opt (send_push frame c)"
    using einvD(2) [OF inv c] by (simp add: state_ok_def send_push_def split: ConnState.splits)
  let ?e1 = "upd_conn cid (send_push frame) e"
  have inv1: "einv opt n {} ?e1"
    using core1 sto by (intro einv_upd [OF inv c]) (simp_all, simp_all add: send_push_def)
  have c1: "conns ?e1 cid = Some (send_push frame c)" using c by simp
  have "\<not> send_active c \<Longrightarrow> einv opt n {} (snd (submit_send now cid ?e1))"
    using core by (intro einv_submit_send [OF inv1 c1]) (simp add: conn_core_def send_push_def)
  then show ?thesis using c False inv1 by (simp add: push_response_def Let_def)
qed

subsection \<open>Completions\<close>

lemma einv_remove_op:
  assumes inv: "einv opt n {} e" and op: "\<forall>cid. op \<noteq> Recv cid" "\<forall>cid. op \<noteq> Send cid"
  shows "einv opt n {} (e\<lparr>ops := remove1 op (ops e)\<rparr>)"
proof -
  have "count_list (remove1 op xs) x = count_list xs x" if "x \<noteq> op" for x xs
    using that by (induction xs) auto
  then show ?thesis using assms by (simp add: einv_def conns_ok_def ops_ok_def)
qed

lemma count_remove1: "x \<in> set xs \<Longrightarrow> count_list (remove1 x xs) x = count_list xs x - 1"
  by (induction xs) (auto simp: count_list_0_iff)

lemma count_remove1_other: "y \<noteq> x \<Longrightarrow> count_list (remove1 x xs) y = count_list xs y"
  by (induction xs) auto

lemma op_in_flight:
  assumes "einv opt n X e"
  shows "Recv cid \<in> set (ops e) \<Longrightarrow> \<exists>c. conns e cid = Some c \<and> recv_op c"
    and "Send cid \<in> set (ops e) \<Longrightarrow> \<exists>c. conns e cid = Some c \<and> send_op c"
proof -
  have r: "count_list (ops e) (Recv cid) = (case conns e cid of None \<Rightarrow> 0 | Some c \<Rightarrow> of_bool (recv_op c))"
    and s: "count_list (ops e) (Send cid) = (case conns e cid of None \<Rightarrow> 0 | Some c \<Rightarrow> of_bool (send_op c))"
    using assms by (simp_all add: einv_def ops_ok_def)
  show "Recv cid \<in> set (ops e) \<Longrightarrow> \<exists>c. conns e cid = Some c \<and> recv_op c"
    using r count_list_0_iff [of "ops e" "Recv cid"] by (auto split: option.splits)
  show "Send cid \<in> set (ops e) \<Longrightarrow> \<exists>c. conns e cid = Some c \<and> send_op c"
    using s count_list_0_iff [of "ops e" "Send cid"] by (auto split: option.splits)
qed

lemma einv_recv_done:
  assumes inv: "einv opt n {} e" and op: "Recv cid \<in> set (ops e)"
    and e1: "e1 = upd_conn cid (\<lambda>c. c\<lparr>recv_op := False, pending_ops := pending_ops c - 1\<rparr>)
                (e\<lparr>ops := remove1 (Recv cid) (ops e)\<rparr>)"
  shows "\<exists>c. conns e cid = Some c \<and> recv_op c \<and> einv opt n {cid} e1 \<and>
    conns e1 cid = Some (c\<lparr>recv_op := False, pending_ops := pending_ops c - 1\<rparr>)"
proof -
  obtain c where c: "conns e cid = Some c" "recv_op c" using op_in_flight(1) [OF inv op] by blast
  let ?c = "c\<lparr>recv_op := False, pending_ops := pending_ops c - 1\<rparr>"
  have core: "conn_core opt cid ?c"
    using einvD(1) [OF inv c(1)] c(2) by (simp add: conn_core_def buffers_ok_def tx_bytes_def)
  have "einv opt n {cid} e1"
    by (rule einv_change [OF inv c(1), of _ ?c])
      (use c core op einvD(4,5) [OF inv c(1)] in
        \<open>simp_all add: e1 count_remove1 count_remove1_other\<close>)
  with c show ?thesis by (simp add: e1)
qed

lemma einv_send_done:
  assumes inv: "einv opt n {} e" and op: "Send cid \<in> set (ops e)"
    and e1: "e1 = upd_conn cid (\<lambda>c. c\<lparr>send_op := False, pending_ops := pending_ops c - 1,
                send_active := False\<rparr>) (e\<lparr>ops := remove1 (Send cid) (ops e)\<rparr>)"
  shows "\<exists>c. conns e cid = Some c \<and> send_op c \<and> einv opt n {cid} e1 \<and>
    conns e1 cid = Some (c\<lparr>send_op := False, pending_ops := pending_ops c - 1, send_active := False\<rparr>)"
proof -
  obtain c where c: "conns e cid = Some c" "send_op c" using op_in_flight(2) [OF inv op] by blast
  let ?c = "c\<lparr>send_op := False, pending_ops := pending_ops c - 1, send_active := False\<rparr>"
  have core: "conn_core opt cid ?c"
    using einvD(1) [OF inv c(1)] c(2) by (simp add: conn_core_def buffers_ok_def tx_bytes_def)
  have "einv opt n {cid} e1"
    by (rule einv_change [OF inv c(1), of _ ?c])
      (use c core op einvD(4,5) [OF inv c(1)] in
        \<open>simp_all add: e1 count_remove1 count_remove1_other\<close>)
  with c show ?thesis by (simp add: e1)
qed

text \<open>The overflow branch of \<open>complete_recv\<close> is not taken: the storage never exceeds the limit.\<close>

lemma einv_complete_recv:
  assumes inv: "einv opt n {} e" and op: "Recv cid \<in> set (ops e)"
    and fits: "recv_fits (Recv cid) r d e"
  shows "einv opt n {} (complete_recv opt now cid r d (e\<lparr>ops := remove1 (Recv cid) (ops e)\<rparr>))"
proof -
  let ?g = "\<lambda>c. c\<lparr>recv_op := False, pending_ops := pending_ops c - 1\<rparr>"
  let ?e0 = "e\<lparr>ops := remove1 (Recv cid) (ops e)\<rparr>"
  let ?e1 = "upd_conn cid ?g ?e0"
  obtain c where c: "conns e cid = Some c" "recv_op c" and inv1: "einv opt n {cid} ?e1"
    and c1: "conns ?e1 cid = Some (?g c)"
    using einv_recv_done [OF inv op refl] by blast
  have sto: "state_ok opt c" using einvD(2) [OF inv c(1)] by simp
  note core1 = einvD(1) [OF inv1 c1]
  consider "c_state c = Closing" | "c_state c \<noteq> Closing" "r \<le> 0" | "c_state c \<noteq> Closing" "0 < r"
    by linarith
  then show ?thesis
  proof cases
    case 1
    then show ?thesis
      using einv_finalize [OF inv1 c1] c by (simp add: complete_recv_def)
  next
    case 2
    then show ?thesis
      using einv_close [OF inv1 c1, of now] c by (auto simp: complete_recv_def Let_def)
  next
    case 3
    have act: "c_state c = Active" using 3 sto c(2) by (auto simp: state_ok_def split: ConnState.splits)
    have d: "length d = nat r" "nat r \<le> rx_writable (?g c)"
      using fits 3 c(1) by (simp_all add: recv_fits_def rx_writable_def)
    let ?c1 = "(rx_commit (nat r) (rx_kernel_write d (?g c)))\<lparr>last_active := now\<rparr>"
    have b1: "buffers_ok (?g c)" using core1 unfolding conn_core_def by blast
    note rr = rx_recv_ok [OF b1 d(2) [folded d(1)]]
    have bc: "buffers_ok ?c1"
      using rr(1) by (simp add: d(1) buffers_ok_def tx_bytes_def)
    have len: "length (rx_store ?c1) = length (rx_store c)"
      using d b1 by (auto simp: rx_commit_def rx_kernel_write_def rx_writable_def buffers_ok_def)
    have lim: "rx_len ?c1 \<le> rx_limit opt"
      using bc len core1 by (simp add: buffers_ok_def conn_core_def)
    obtain raw c2 where tk: "rx_take (rx_buf_bytes opt) ?c1 = (raw, c2)" by fastforce
    note rt = rx_take_ok [OF bc tk]
    let ?c3 = "c2\<lparr>c_state := Parsing\<rparr>"
    have keep: "c_fd ?c3 = c_fd c" "c_id ?c3 = c_id c" "recv_op ?c3 = False" "send_op ?c3 = send_op c"
      "pending_ops ?c3 = pending_ops c - 1" "send_active ?c3 = send_active c"
      "send_bytes ?c3 = send_bytes c" "rx_len ?c3 = 0"
      using tk by (auto simp: rx_take_def rx_commit_def rx_kernel_write_def Let_def split: if_splits)
    have core3: "conn_core opt cid ?c3"
      using core1 keep rt(2,5)
      by (simp add: conn_core_def buffers_ok_def tx_bytes_def rx_limit_def)
    have sto3: "state_ok opt ?c3" using keep rt(5) by (simp add: state_ok_def)
    have eq: "complete_recv opt now cid r d ?e0 =
        (upd_conn cid (\<lambda>_. ?c3) (upd_conn cid (\<lambda>_. ?c1) ?e1))\<lparr>posted := posted e @ [(cid, raw)]\<rparr>"
      using c act 3 lim tk by (simp add: complete_recv_def Let_def)
    show ?thesis unfolding eq
      by (rule einv_change [OF inv1 c1, of _ ?c3])
        (use c keep core3 sto3 einvD(4,5) [OF inv1 c1] in \<open>simp_all\<close>)
  qed
qed

lemma einv_complete_send:
  assumes inv: "einv opt n {} e" and op: "Send cid \<in> set (ops e)"
  shows "einv opt n {} (complete_send now cid r (e\<lparr>ops := remove1 (Send cid) (ops e)\<rparr>))"
proof -
  let ?g = "\<lambda>c. c\<lparr>send_op := False, pending_ops := pending_ops c - 1, send_active := False\<rparr>"
  let ?e0 = "e\<lparr>ops := remove1 (Send cid) (ops e)\<rparr>"
  let ?e1 = "upd_conn cid ?g ?e0"
  obtain c where c: "conns e cid = Some c" "send_op c" and inv1: "einv opt n {cid} ?e1"
    and c1: "conns ?e1 cid = Some (?g c)"
    using einv_send_done [OF inv op refl] by blast
  have sto: "state_ok opt c" using einvD(2) [OF inv c(1)] by simp
  note core1 = einvD(1) [OF inv1 c1]
  consider "c_state c = Closing" | "c_state c \<noteq> Closing" "r < 0" | "c_state c \<noteq> Closing" "0 \<le> r"
    by linarith
  then show ?thesis
  proof cases
    case 1
    then show ?thesis using einv_finalize [OF inv1 c1] c by (simp add: complete_send_def)
  next
    case 2
    then show ?thesis using einv_close [OF inv1 c1, of now] c by (simp add: complete_send_def)
  next
    case 3
    let ?c1 = "(send_pop (nat r) (?g c))\<lparr>last_active := now\<rparr>"
    have b1: "buffers_ok (?g c)" using core1 unfolding conn_core_def by blast
    note sp = send_pop_ok [OF b1, of "nat r"]
    have keep: "c_fd ?c1 = c_fd c" "c_id ?c1 = c_id c" "recv_op ?c1 = recv_op c" "send_op ?c1 = False"
      "pending_ops ?c1 = pending_ops c - 1" "send_active ?c1 = False" "c_state ?c1 = c_state c"
      "rx_store ?c1 = rx_store c" "rx_len ?c1 = rx_len c"
      by (simp_all add: send_pop_def split: prod.splits)
    have "send_bytes ?c1 \<le> send_bytes c"
      using sp(1,2) b1 by (simp add: buffers_ok_def)
    then have core: "conn_core opt cid ?c1"
      using core1 keep sp(1) by (simp add: conn_core_def buffers_ok_def tx_bytes_def)
    have sto1: "state_ok opt ?c1"
      using sto keep 3 by (auto simp: state_ok_def split: ConnState.splits)
    let ?e2 = "upd_conn cid (\<lambda>_. ?c1) ?e1"
    have inv2: "einv opt n {} ?e2"
      by (rule einv_upd [OF inv1 c1]) (use core sto1 keep in simp_all)
    have c2: "conns ?e2 cid = Some ?c1" using c1 by simp
    have "complete_send now cid r ?e0 =
        (if send_pending ?c1 then snd (submit_send now cid ?e2) else ?e2)"
      using c 3 by (simp add: complete_send_def Let_def)
    then show ?thesis using inv2 einv_submit_send [OF inv2 c2] keep by simp
  qed
qed

lemma einv_complete_accept:
  assumes inv: "einv opt (Suc n) {} e"
  shows "einv opt n {} (complete_accept opt now r e)"
proof -
  have n: "einv opt n {} e" using einv_weaken [OF inv, of "{}" n] by simp
  show ?thesis
  proof (cases "r < 0 \<or> \<not> accepting e")
    case True
    have "einv opt n {} (e\<lparr>accept_fail_streak := m\<rparr>)" for m
      using n by (rule einv_frame) (use n in \<open>simp_all add: einv_def\<close>)
    moreover have "r \<ge> 0 \<Longrightarrow> einv opt n {} (e\<lparr>accepted := accepted e @ [r], closed := closed e @ [r]\<rparr>)"
      using n by (simp add: einv_def conns_ok_def ops_ok_def)
    ultimately show ?thesis using True n by (auto simp: complete_accept_def Let_def)
  next
    case False
    let ?cid = "next_conn_id e"
    let ?c = "mk_Connection r ?cid (rx_buf_bytes opt) now"
    let ?e1 = "e\<lparr>accepted := accepted e @ [r], accept_fail_streak := 0, next_conn_id := ?cid + 1,
      conns := (conns e)(?cid \<mapsto> ?c)\<rparr>"
    have new: "conns e ?cid = None"
    proof (rule ccontr)
      assume "conns e ?cid \<noteq> None"
      then obtain c where "conns e ?cid = Some c" by blast
      from einvD(3) [OF inv this] show False by simp
    qed
    have mk: "make_conn opt now r (e\<lparr>accepted := accepted e @ [r], accept_fail_streak := 0\<rparr>) = (?cid, ?e1)"
      using new by (simp add: make_conn_def Let_def)
    have nx: "unat (?cid + 1) = unat ?cid + 1"
      using inv by (simp add: einv_def conns_ok_def unat_word_ariths)
    have core: "conn_core opt ?cid ?c"
      by (simp add: conn_core_def) (simp add: mk_Connection_def rx_limit_def)
    have fin: "finite (dom (conns e))" using inv by (simp add: einv_def conns_ok_def)
    have "conns_ok opt n {?cid} ?e1"
      using inv core nx by (auto simp: einv_def conns_ok_def less_Suc_eq)
    moreover have "ops_ok ?e1"
      using inv new by (auto simp: einv_def ops_ok_def mk_Connection_def)
    moreover have "open_fds (conns ?e1) = add_mset r (open_fds (conns e))"
      using open_fds_insert [of "conns e" ?cid ?c, OF new fin] by (simp add: mk_Connection_def)
    ultimately have inv1: "einv opt n {?cid} ?e1" using inv by (simp add: einv_def)
    have c1: "conns ?e1 ?cid = Some ?c" by simp
    have st: "c_state ?c = Active" "\<not> recv_op ?c" by (simp_all add: mk_Connection_def)
    have len: "length (rx_store (rx_prepare (rx_buf_bytes opt) ?c)) \<le> rx_limit opt"
      by (simp add: rx_prepare_def mk_Connection_def rx_limit_def)
    obtain ok e2 where sub: "submit_recv opt now ?cid ?e1 = (ok, e2)" by fastforce
    note sr = einv_submit_recv [OF inv1 c1 st len sub]
    have eq: "complete_accept opt now r e = submit_accept now (if ok then e2 else
        e2\<lparr>closed := closed e2 @ [r], conns := (conns e2)(?cid := None)\<rparr>)"
      using False mk sub by (simp add: complete_accept_def Let_def)
    show ?thesis
    proof (cases ok)
      case True
      then show ?thesis using sr by (simp add: eq)
    next
      case no: False
      let ?c' = "rx_prepare (rx_buf_bytes opt) ?c"
      have inv2: "einv opt n {?cid} e2" and c2: "conns e2 ?cid = Some ?c'" using sr no by simp_all
      have flags: "\<not> recv_op ?c'" "\<not> send_op ?c'" "c_fd ?c' = r"
        by (simp_all add: rx_prepare_def mk_Connection_def)
      let ?e3 = "e2\<lparr>closed := closed e2 @ [r], conns := (conns e2)(?cid := None)\<rparr>"
      have "conns_ok opt n {} ?e3" using inv2 by (auto simp: einv_def conns_ok_def)
      moreover have "ops_ok ?e3"
        using inv2 einvD(4,5) [OF inv2 c2] flags by (auto simp: einv_def ops_ok_def)
      moreover have "open_fds (conns e2) = add_mset r (open_fds ((conns e2)(?cid := None)))"
        using open_fds_delete [of "conns e2" ?cid ?c', OF c2] inv2 flags
        by (simp add: einv_def conns_ok_def)
      ultimately have "einv opt n {} ?e3" using inv2 by (simp add: einv_def)
      then show ?thesis using no by (simp add: eq)
    qed
  qed
qed

subsection \<open>Outbox and response ring\<close>

lemma einv_outbox_item:
  assumes inv: "einv opt n {} e"
    and it: "ob_kind it = RearmRecv \<Longrightarrow> length (ob_bytes it) \<le> kHeaderLen + kMaxMessageLen"
  shows "einv opt n {} (outbox_item opt now it e)"
proof (cases "conns e (ob_conn_id it)")
  case None
  then show ?thesis using inv by (simp add: outbox_item_def)
next
  case (Some c)
  let ?cid = "ob_conn_id it"
  show ?thesis
  proof (cases "c_state c = Parsing \<and> ob_kind it = RearmRecv \<and> \<not> draining e")
    case False
    then show ?thesis
      using inv Some einv_close' [OF inv Some] einv_push_response [OF inv Some]
      by (auto simp: outbox_item_def split: OutboxKind.splits)
  next
    case True
    let ?f = "\<lambda>c. (rx_feed (ob_bytes it) c)\<lparr>c_state := Active\<rparr>"
    note core = einvD(1) [OF inv Some]
    have sto: "\<not> recv_op c" "rx_len c = 0" "length (rx_store c) \<le> rx_buf_bytes opt"
      using einvD(2) [OF inv Some] True by (simp_all add: state_ok_def)
    have b: "buffers_ok c" using core by (simp add: conn_core_def)
    note rf = rx_feed_ok [OF b, of "ob_bytes it"]
    have keep: "c_fd (?f c) = c_fd c" "c_id (?f c) = c_id c" "recv_op (?f c) = recv_op c"
      "send_op (?f c) = send_op c" "pending_ops (?f c) = pending_ops c"
      "send_active (?f c) = send_active c" "send_bytes (?f c) = send_bytes c"
      by (simp_all add: rx_feed_def Let_def)
    have len: "length (ob_bytes it) \<le> kHeaderLen + kMaxMessageLen" using it True by blast
    have "conn_core opt ?cid (?f c)"
      using core keep rf(1,5) sto len
      by (auto simp: conn_core_def buffers_ok_def tx_bytes_def rx_limit_def)
    then have inv1: "einv opt n {?cid} (upd_conn ?cid ?f e)"
      using keep by (intro einv_upd [OF inv Some]) auto
    let ?e1 = "upd_conn ?cid ?f e"
    have c1: "conns ?e1 ?cid = Some (?f c)" using Some by simp
    have store: "length (rx_store (rx_prepare (rx_buf_bytes opt) (?f c))) \<le> rx_limit opt"
      using rf(4,5) sto len by (simp add: rx_prepare_def rx_limit_def)
    obtain ok e2 where sub: "submit_recv opt now ?cid ?e1 = (ok, e2)" by fastforce
    have "c_state (?f c) = Active" "\<not> recv_op (?f c)" using keep sto by simp_all
    note sr = einv_submit_recv [OF inv1 c1 this store sub]
    have eq: "outbox_item opt now it e = (if ok then e2 else close_conn now ?cid e2)"
      using True Some sub by (simp add: outbox_item_def Let_def)
    show ?thesis
    proof (cases ok)
      case no: False
      have e2: "einv opt n {?cid} e2" and c2: "conns e2 ?cid = Some (rx_prepare (rx_buf_bytes opt) (?f c))"
        using sr no by simp_all
      have "c_state (rx_prepare (rx_buf_bytes opt) (?f c)) = Active" by (simp add: rx_prepare_def)
      then have "einv opt n {} (close_conn now ?cid e2)" by (intro einv_close [OF e2 c2]) simp
      then show ?thesis using no by (simp add: eq)
    qed (use sr eq in simp)
  qed
qed

lemma einv_outbox_items:
  assumes "\<forall>it\<in>set items. ob_kind it = RearmRecv \<longrightarrow>
      length (ob_bytes it) \<le> kHeaderLen + kMaxMessageLen" "einv opt n {} e"
  shows "einv opt n {} (fold (outbox_item opt now) items e)"
  using assms by (induction items arbitrary: e) (auto intro: einv_outbox_item)

lemma einv_drain_outbox:
  assumes inv: "einv opt n {} e"
  shows "einv opt n {} (drain_outbox opt now e)"
proof -
  have items: "\<forall>it\<in>set (obq (outbox e)). ob_kind it = RearmRecv \<longrightarrow>
      length (ob_bytes it) \<le> kHeaderLen + kMaxMessageLen"
    using inv by (simp add: einv_def items_ok_def)
  have dr: "drain_outbox opt now e = fold (outbox_item opt now) (obq (outbox e)) (e\<lparr>outbox := (outbox e)\<lparr>obq := []\<rparr>\<rparr>)"
    by (simp add: drain_outbox_def outbox_drain_def Let_def)
  have "einv opt n {} (e\<lparr>outbox := (outbox e)\<lparr>obq := []\<rparr>\<rparr>)"
    using inv by (rule einv_frame) (simp_all add: items_ok_def)
  from einv_outbox_items [OF items this] show ?thesis by (simp add: dr)
qed

lemma einv_rsp_slot: "einv opt n {} e \<Longrightarrow> einv opt n {} (rsp_slot opt now s e)"
  by (auto simp: rsp_slot_def Let_def einv_push_response split: option.splits)

definition rsp_count :: "u32 \<Rightarrow> Engine \<Rightarrow> Engine" where
  "rsp_count m e = e\<lparr>rsp_popped_total := rsp_popped_total e + ucast m,
     rsp_batch_peak := (if m > rsp_batch_peak e then m else rsp_batch_peak e)\<rparr>"

lemma drain_rsp_none:
  "pop_batch kRspBits r c 32 = (m, None) \<Longrightarrow> drain_rsp_loop opt now r c e = (r, c, e)"
  by (subst drain_rsp_loop.simps) simp

lemma drain_rsp_some:
  assumes "pop_batch kRspBits r c 32 = (m, Some i)" "release m r c = (r', c')"
  shows "drain_rsp_loop opt now r c e = drain_rsp_loop opt now r' c'
    (fold (rsp_slot opt now) (take (unat m) (drop i (slots r))) (rsp_count m e))"
  by (subst drain_rsp_loop.simps) (simp only: assms rsp_count_def Let_def prod.case option.case)

lemma einv_rsp_count: "einv opt n {} e \<Longrightarrow> einv opt n {} (rsp_count m e)"
  by (simp add: einv_def conns_ok_def ops_ok_def rsp_count_def)

lemma einv_drain_rsp_loop:
  "einv opt n {} e \<Longrightarrow> einv opt n {} (snd (snd (drain_rsp_loop opt now r c e)))"
proof (induction "unat (head (hdr r) - tail_local c)" arbitrary: r c e rule: less_induct)
  case less
  obtain m out where pop: "pop_batch kRspBits r c 32 = (m, out)" by fastforce
  show ?case
  proof (cases out)
    case None
    then show ?thesis using less.prems pop by (simp add: drain_rsp_none)
  next
    case (Some i)
    obtain r' c' where rel: "release m r c = (r', c')" by fastforce
    have "einv opt n {} (fold (rsp_slot opt now) (take (unat m) (drop i (slots r))) (rsp_count m e))"
      by (rule einv_fold) (auto intro: einv_rsp_slot einv_rsp_count less.prems)
    from less.hyps [OF pop_batch_shrinks [OF pop [unfolded Some] rel] this]
    show ?thesis unfolding drain_rsp_some [OF pop [unfolded Some] rel] .
  qed
qed

lemma einv_drain_response_ring:
  assumes inv: "einv opt n {} e"
  shows "einv opt n {} (drain_response_ring opt pg pt nns now e)"
proof (cases "rsp e")
  case (Some rc)
  obtain r c where rc: "rc = (r, c)" by fastforce
  obtain r1 e1 where p: "rsp_heartbeat pg pt nns now r e = (r1, e1)" by fastforce
  have "einv opt n {} (e\<lparr>last_rsp_hb := a\<rparr>)" "einv opt n {} (e\<lparr>last_rsp_hb := a, stopping := b\<rparr>)" for a b
    using inv by (simp_all add: einv_def conns_ok_def ops_ok_def)
  with inv p have inv1: "einv opt n {} e1"
    by (auto simp: rsp_heartbeat_def request_stop_def Let_def split: if_splits)
  obtain r2 c2 e2 where l: "drain_rsp_loop opt now r1 c e1 = (r2, c2, e2)"
    by (cases "drain_rsp_loop opt now r1 c e1") auto
  have "einv opt n {} e2" using einv_drain_rsp_loop [OF inv1, of now r1 c] by (simp add: l)
  then have "einv opt n {} (e2\<lparr>rsp := Some (r2, c2)\<rparr>)"
    by (simp add: einv_def conns_ok_def ops_ok_def)
  then show ?thesis using Some rc p l by (simp add: drain_response_ring_def)
qed (simp add: drain_response_ring_def inv)

subsection \<open>Workers\<close>

lemma need_more_short:
  "do_status (decode_frame b) = NeedMore \<Longrightarrow> length b < kHeaderLen + kMaxMessageLen"
  by (cases b rule: buffer_cases)
    (auto simp: decode_short decode_bad_magic decode_frame_header kHeaderLen_def split: if_splits)

lemma consume_true_need_more:
  "consume_frames b = (True, b, []) \<Longrightarrow> do_status (decode_frame b) = NeedMore"
  by (subst (asm) consume_frames.simps) (auto simp: Let_def split: DecodeStatus.splits prod.splits)

lemma cut_leftover_short:
  assumes "cut_frames raw [] = (cr, fs)" "\<not> bad cr"
  shows "length (leftover cr) < kHeaderLen + kMaxMessageLen"
proof -
  obtain ok rest gs where c: "consume_frames raw = (ok, rest, gs)"
    by (cases "consume_frames raw") auto
  then have "cr = \<lparr>bad = \<not> ok, leftover = rest\<rparr>" using assms(1) by (simp add: cut_frames_consume)
  with assms(2) c have "consume_frames (leftover cr) = (True, leftover cr, [])"
    using consume_rest_stable by auto
  then show ?thesis by (intro need_more_short consume_true_need_more)
qed

lemma items_ok_push:
  "items_ok q \<Longrightarrow> (ob_kind it = RearmRecv \<Longrightarrow> length (ob_bytes it) \<le> kHeaderLen + kMaxMessageLen)
     \<Longrightarrow> items_ok (outbox_push it q)"
  by (auto simp: items_ok_def outbox_push_def)

lemma items_ok_push_other [simp]:
  "ob_kind it \<noteq> RearmRecv \<Longrightarrow> items_ok q \<Longrightarrow> items_ok (outbox_push it q)"
  by (erule items_ok_push) simp

lemma items_ok_worker_frames:
  "items_ok q \<Longrightarrow> items_ok (snd (snd (worker_frames handle cid fs s q)))"
proof (induction fs arbitrary: s q)
  case (Cons f fs)
  obtain x s1 where h: "handle \<lparr>rq_conn_id = cid, rq_event_id = fr_event_id f, rq_seq = fr_seq f,
      rq_payload = fr_payload f\<rparr> s = (x, s1)" by fastforce
  obtain ok b where st: "stamp_seq (projr x) (fr_seq f) = (ok, b)" by fastforce
  show ?case using h st Cons
    by (cases x; cases ok) (simp_all add: Let_def)
qed simp

lemma items_ok_worker_batch:
  assumes "items_ok q" "worker_batch handle cid raw s q = (s', q')"
  shows "items_ok q'"
proof -
  obtain cr fs where cut: "cut_frames raw [] = (cr, fs)" by fastforce
  obtain go s1 q1 where w: "worker_frames handle cid fs s q = (go, s1, q1)"
    by (cases "worker_frames handle cid fs s q") auto
  have "items_ok q1" using items_ok_worker_frames [OF assms(1), of handle cid fs s] w by simp
  then show ?thesis
    using assms(2) cut w cut_leftover_short [OF cut]
    by (auto simp: worker_batch_def items_ok_push less_imp_le split: bool.splits if_splits)
qed

subsection \<open>Every step keeps the invariant\<close>

lemma einv_on_cqe:
  assumes inv: "einv opt (Suc n) {} e" and op: "op \<in> set (ops e)" "recv_fits op r d e"
  shows "einv opt n {} (on_cqe opt env op r d e)"
proof -
  have n: "einv opt n {} e" using einv_weaken [OF inv, of "{}" n] by simp
  show ?thesis
  proof (cases op)
    case Accept
    then show ?thesis
      using einv_complete_accept [OF einv_remove_op [OF inv, of Accept]] by (simp add: on_cqe_def)
  next
    case (Recv cid)
    then show ?thesis using einv_complete_recv [OF n] op by (simp add: on_cqe_def)
  next
    case (Send cid)
    then show ?thesis using einv_complete_send [OF n] op by (simp add: on_cqe_def)
  next
    case Wakeup
    then show ?thesis
      using einv_remove_op [OF n, of Wakeup]
      by (simp add: on_cqe_def complete_wakeup_def einv_drain_outbox)
  next
    case Stop
    have "einv opt n {} (e'\<lparr>stopping := True\<rparr>)" if "einv opt n {} e'" for e'
      using that by (simp add: einv_def conns_ok_def ops_ok_def)
    with Stop einv_remove_op [OF n, of Stop] show ?thesis
      by (simp add: on_cqe_def complete_stop_def)
  next
    case RspNotify
    have "einv opt n {} (e'\<lparr>rsp_notify_fail_streak := x\<rparr>)" if "einv opt n {} e'" for e' x
      using that by (simp add: einv_def conns_ok_def ops_ok_def)
    with RspNotify einv_remove_op [OF n, of RspNotify] show ?thesis
      by (simp add: on_cqe_def complete_rsp_notify_def Let_def einv_drain_response_ring)
  next
    case Anon
    then show ?thesis using einv_remove_op [OF n, of Anon] by (simp add: on_cqe_def)
  qed
qed

lemma einv_sweep_idle: "einv opt n {} e \<Longrightarrow> einv opt n {} (sweep_idle opt now order e)"
  by (auto simp: sweep_idle_def Let_def intro!: einv_fold einv_close_if_present)

lemma einv_loop_tail:
  assumes "einv opt n {} e"
  shows "einv opt n {} (loop_tail opt env order e)"
proof -
  let ?now = "env_now env"
  define e1 where "e1 = drain_response_ring opt (env_pid_gone env) (env_peer_timeout env)
      (env_now_ns env) ?now e"
  define e2 where "e2 = (if \<not> draining e1 then sweep_idle opt ?now order e1 else e1)"
  have "einv opt n {} e1" unfolding e1_def by (rule einv_drain_response_ring [OF assms])
  then have e2: "einv opt n {} e2" by (simp add: e2_def einv_sweep_idle)
  have "einv opt n {} (e2\<lparr>draining := True, accepting := False, listening := False, drain_deadline := x\<rparr>)" for x
    using e2 by (rule einv_frame) (use e2 in \<open>simp_all add: einv_def\<close>)
  then show ?thesis
    using e2 unfolding loop_tail_def Let_def e1_def [symmetric] e2_def [symmetric] by simp
qed

lemma einv_step:
  assumes "eng_step opt handle es es'" "einv opt (Suc n) {} (fst es)"
  shows "einv opt n {} (fst es')"
  using assms
proof (cases rule: eng_step.cases)
  case (Cqe op e r d s env)
  then show ?thesis using assms(2) einv_on_cqe by simp
next
  case (Tail e s env order)
  then show ?thesis using assms(2) einv_loop_tail einv_weaken [of opt "Suc n" "{}" e "{}" n] by simp
next
  case (Reap e s now order)
  then have "einv opt n {} e" using assms(2) einv_weaken [of opt "Suc n" "{}" e "{}" n] by simp
  then show ?thesis using Reap by (auto simp: reap_round_def intro!: einv_fold einv_close_if_present)
next
  case (Worker e ps cid raw ps' s s' q)
  then have "einv opt n {} e" using assms(2) einv_weaken [of opt "Suc n" "{}" e "{}" n] by simp
  moreover from this have "items_ok q"
    using Worker items_ok_worker_batch [of "outbox e" handle cid raw s s' q] by (simp add: einv_def)
  ultimately show ?thesis using Worker by (simp add: einv_def conns_ok_def ops_ok_def)
next
  case (Peer e r0 c s r')
  then have "einv opt n {} e" using assms(2) einv_weaken [of opt "Suc n" "{}" e "{}" n] by simp
  then show ?thesis using Peer by (simp add: einv_def conns_ok_def ops_ok_def)
next
  case (Signal e s)
  then have "einv opt n {} e" using assms(2) einv_weaken [of opt "Suc n" "{}" e "{}" n] by simp
  then show ?thesis using Signal by (simp add: einv_def conns_ok_def ops_ok_def request_stop_def)
qed

lemma einv_init: "n < 2 ^ 64 - 1 \<Longrightarrow> einv opt n {} (eng_init rs sqs now)"
proof -
  assume "n < 2 ^ 64 - 1"
  then have "einv opt n {} \<lparr>conns = Map.empty, next_conn_id = 1, ops = [], posted = [], outbox = \<lparr>obq = []\<rparr>,
      draining = False, stopping = False, accepting = True, accept_fail_streak = 0,
      rsp_notify_fail_streak = 0, sq_fail_logged = False, drain_deadline = None,
      listening = True, rsp = rs, last_rsp_hb = 0, rsp_popped_total = 0,
      rsp_batch_peak = 0, sq = sqs, accepted = [], closed = [], dangling = False\<rparr>"
    by (simp add: einv_def conns_ok_def ops_ok_def open_fds_def items_ok_def)
  then show ?thesis by (simp add: eng_init_def Let_def)
qed

lemma einv_reach:
  "eng_reach opt handle s0 n es \<Longrightarrow> n + m < 2 ^ 64 - 1 \<Longrightarrow> einv opt m {} (fst es)"
proof (induction n es arbitrary: m rule: eng_reach.induct)
  case (Init rs sqs now)
  then show ?case by (simp add: einv_init)
next
  case (Step n es es')
  then show ?case using einv_step [OF Step.hyps(2), of m] by simp
qed

end
