(* ===== verification/EngineFrame.thy ===== *)
theory EngineFrame
  imports EngineInv
begin

text \<open>
  What the engine leaves alone: a property of the engine that depends on the operations in
  flight, the accepted descriptors, the outbox and the draining flag only, and that survives the
  submission of operations on connections, survives every handler that works on connections
  and the response ring.
\<close>

locale engine_frame =
  fixes P :: "Engine \<Rightarrow> bool"
  assumes same: "P e \<Longrightarrow> ops e' = ops e \<Longrightarrow> accepted e' = accepted e \<Longrightarrow> outbox e' = outbox e \<Longrightarrow>
      draining e' = draining e \<Longrightarrow> P e'"
    and submitted: "P e \<Longrightarrow> op \<noteq> Accept \<Longrightarrow> op \<noteq> Wakeup \<Longrightarrow> P (snd (submit_op op now e))"
    and to_drain: "P e \<Longrightarrow> P (e\<lparr>draining := True\<rparr>)"
begin

lemma upd_conn: "P e \<Longrightarrow> P (upd_conn cid f e)"
  by (erule same) (simp_all add: upd_conn_def)

lemma submits:
  assumes "P e"
  shows "P (submit_cancel now e)" "P (submit_rsp_notify_read now e)"
    "P (snd (submit_recv opt now cid e))" "P (snd (submit_send now cid e))"
proof -
  have *: "P (snd (case p of (False, e1) \<Rightarrow> (False, e1) | (True, e1) \<Rightarrow> (True, upd_conn cid f e1)))"
    if "P (snd p)" for p :: "bool \<times> Engine" and cid f
    using that by (auto simp: upd_conn split: prod.splits bool.splits)
  show "P (submit_cancel now e)" "P (submit_rsp_notify_read now e)"
    "P (snd (submit_recv opt now cid e))" "P (snd (submit_send now cid e))"
    unfolding submit_defs submit_recv_def submit_send_def
    by (simp_all add: * submitted upd_conn assms)
qed

lemma maybe_finalize: "P e \<Longrightarrow> P (maybe_finalize cid e)"
  by (erule same) (auto simp: maybe_finalize_def split: option.splits)

lemma dangle: "P e \<Longrightarrow> P (e\<lparr>dangling := True\<rparr>)"
  by (rule same) simp_all

lemma close_conn: "P e \<Longrightarrow> P (close_conn now cid e)"
  by (auto simp: close_conn_def Let_def maybe_finalize submits upd_conn dangle split: option.splits)

lemma push_response: "P e \<Longrightarrow> P (snd (push_response opt now cid f e))"
  by (auto simp: push_response_def Let_def submits close_conn upd_conn dangle split: option.splits)

lemma post_batch: "P e \<Longrightarrow> P (e\<lparr>posted := ps\<rparr>)"
  by (rule same) simp_all

lemma complete_recv: "P e \<Longrightarrow> P (complete_recv opt now cid r d e)"
  by (auto simp: complete_recv_def Let_def maybe_finalize close_conn upd_conn dangle post_batch
      split: option.splits prod.splits)

lemma complete_send: "P e \<Longrightarrow> P (complete_send now cid r e)"
  by (auto simp: complete_send_def Let_def maybe_finalize close_conn upd_conn dangle submits
      split: option.splits)

lemma outbox_item:
  assumes "P e"
  shows "P (outbox_item opt now it e)"
proof -
  have *: "P (case p of (True, e2) \<Rightarrow> e2 | (False, e2) \<Rightarrow> close_conn now cid e2)"
    if "P (snd p)" for p cid
    using that by (auto simp: close_conn split: prod.splits bool.splits)
  show ?thesis using assms
    by (auto simp: outbox_item_def Let_def * push_response close_conn submits upd_conn
        split: option.splits OutboxKind.splits)
qed

lemma outbox_items: "P e \<Longrightarrow> P (fold (outbox_item opt now) items e)"
  by (rule einv_fold [of P]) (simp_all add: outbox_item)

lemma rsp_slot: "P e \<Longrightarrow> P (rsp_slot opt now s e)"
  by (auto simp: rsp_slot_def Let_def push_response split: option.splits)

lemma rsp_loop: "P e \<Longrightarrow> P (snd (snd (drain_rsp_loop opt now r c e)))"
proof (induction "unat (head (hdr r) - tail_local c)" arbitrary: r c e rule: less_induct)
  case less
  obtain m out where pop: "pop_batch kRspBits r c 32 = (m, out)" by fastforce
  show ?case
  proof (cases out)
    case None
    then show ?thesis using less.prems pop by (simp add: drain_rsp_none)
  next
    case (Some i)
    obtain r' c' where rel: "release m r c = (r', c')" by fastforce
    have "P (rsp_count m e)" using less.prems by (rule same) (simp_all add: rsp_count_def)
    then have "P (fold (rsp_slot opt now) (take (unat m) (drop i (slots r))) (rsp_count m e))"
      by (rule einv_fold [of P, rotated]) (rule rsp_slot)
    from less.hyps [OF pop_batch_shrinks [OF pop [unfolded Some] rel] this]
    show ?thesis unfolding drain_rsp_some [OF pop [unfolded Some] rel] .
  qed
qed

lemma drain_response_ring:
  assumes "P e"
  shows "P (drain_response_ring opt pg pt nns now e)"
proof (cases "rsp e")
  case (Some rc)
  obtain r c where rc: "rc = (r, c)" by fastforce
  obtain r1 e1 where p: "rsp_heartbeat pg pt nns now r e = (r1, e1)" by fastforce
  obtain r2 c2 e2 where l: "drain_rsp_loop opt now r1 c e1 = (r2, c2, e2)" by (metis prod_cases3)
  have "P e1" using assms
    by (rule same) (use p in \<open>auto simp: rsp_heartbeat_def request_stop_def Let_def split: if_splits\<close>)
  from rsp_loop [OF this, of opt now r1 c] l have "P e2" by simp
  then have "P (e2\<lparr>rsp := Some (r2, c2)\<rparr>)" by (rule same) simp_all
  then show ?thesis using Some rc p l by (simp add: drain_response_ring_def)
qed (simp add: drain_response_ring_def assms)

lemma close_all: "P e \<Longrightarrow> P (fold (close_if_present now) order e)"
  by (rule einv_fold [of P]) (simp_all add: close_if_present_def close_conn)

lemma reap_round: "P e \<Longrightarrow> P (reap_round now order e)"
  by (simp add: reap_round_def close_all)

lemma loop_tail:
  assumes "P e"
  shows "P (loop_tail opt env order e)"
proof -
  have sweep: "P (sweep_idle opt now order e')" if "P e'" for e' now
    using that by (auto simp: sweep_idle_def Let_def close_all)
  define e1 where "e1 = drain_response_ring opt (env_pid_gone env) (env_peer_timeout env)
      (env_now_ns env) (env_now env) e"
  define e2 where "e2 = (if \<not> draining e1 then sweep_idle opt (env_now env) order e1 else e1)"
  have e2: "P e2" by (simp add: e2_def e1_def sweep drain_response_ring assms)
  have "P (e2\<lparr>draining := True, accepting := False, listening := False, drain_deadline := x\<rparr>)" for x
    by (rule same [OF to_drain [OF e2]]) simp_all
  then show ?thesis
    unfolding loop_tail_def Let_def e1_def [symmetric] e2_def [symmetric] using e2 by simp
qed

lemma complete_rsp_notify: "P e \<Longrightarrow> P (complete_rsp_notify opt pg pt nns now r e)"
proof -
  assume e: "P e"
  have "P (e\<lparr>rsp_notify_fail_streak := x\<rparr>)" for x by (rule same [OF e]) simp_all
  then show ?thesis using e by (simp add: complete_rsp_notify_def Let_def submits drain_response_ring)
qed

lemma complete_stop: "P e \<Longrightarrow> P (complete_stop e)"
  by (erule same) (simp_all add: complete_stop_def)

end

end
