(* ===== verification/EngineProps.thy ===== *)
theory EngineProps
  imports EngineFrame
begin

text \<open>
  What the engine's invariant gives: connections and operations in flight agree, descriptors
  are neither leaked nor closed twice, buffers are bounded; and the accept that is not
  re-armed after repeated failures.
\<close>

subsection \<open>What the invariant gives\<close>

definition demo_opt :: GatewayOptions where
  "demo_opt = \<lparr>rx_buf_bytes = 4, send_backlog_limit = 100, idle_timeout = 60000, sq_depth = 256\<rparr>"

definition demo_env :: CqeEnv where
  "demo_env = \<lparr>env_now = 0, env_now_ns = 0, env_pid_gone = (\<lambda>_. False), env_peer_timeout = 3000\<rparr>"

definition demo_handle :: "Request \<Rightarrow> unit \<Rightarrow> bytes res \<times> unit" where
  "demo_handle rq s = (Inr [], s)"

text \<open>An engine that has accepted one connection.\<close>

definition demo_engine :: Engine where
  "demo_engine = on_cqe demo_opt demo_env Accept 5 [] (eng_init None [] 0)"

lemma demo_engine_reach: "eng_reach demo_opt demo_handle () 1 (demo_engine, ())"
proof -
  have "Accept \<in> set (ops (eng_init None [] 0))" by code_simp
  moreover have "recv_fits Accept 5 [] (eng_init None [] 0)" by (simp add: recv_fits_def)
  ultimately have "eng_step demo_opt demo_handle (eng_init None [] 0, ()) (demo_engine, ())"
    unfolding demo_engine_def by (rule eng_step.Cqe)
  from eng_reach.Step [OF eng_reach.Init this] show ?thesis by simp
qed

lemma demo_engine_conn:
  "conns demo_engine 1 = Some (\<lparr>c_fd = 5, c_id = 1, rx_store = [0, 0, 0, 0], rx_len = 0, send_q = [],
     send_bytes = 0, send_active = False, c_state = Active, pending_ops = 1, recv_op = True,
     send_op = False, last_active = 0\<rparr>)"
  by code_simp






text \<open>
  Property C16: buffers of every connection stay bounded. The bytes queued for sending are
  counted exactly and never exceed the backlog limit, the receive storage never exceeds one
  maximal frame and one receive buffer, and a completed receive never takes the branch that
  closes a connection for overflow.
\<close>

theorem engine_buffers_bounded:
  assumes "eng_reach opt handle s0 n (e, s)" "n < 2 ^ 64 - 1" "conns e cid = Some c"
  shows "send_bytes c = length (tx_bytes c) \<and> send_bytes c \<le> send_backlog_limit opt \<and>
    rx_len c \<le> length (rx_store c) \<and> length (rx_store c) \<le> rx_limit opt \<and>
    (\<forall>d. length d \<le> rx_writable c \<longrightarrow> rx_len (rx_commit (length d) (rx_kernel_write d c)) \<le> rx_limit opt)"
proof -
  have "einv opt 0 {} e" using einv_reach [OF assms(1), of 0] assms(2) by simp
  from einvD(1) [OF this assms(3)] show ?thesis
    by (auto simp: conn_core_def buffers_ok_def rx_commit_def rx_kernel_write_def rx_writable_def)
qed

theorem engine_buffers_bounded_witness:
  "length (rx_store (the (conns demo_engine 1))) \<le> rx_limit demo_opt \<and>
   send_bytes (the (conns demo_engine 1)) \<le> send_backlog_limit demo_opt"
  using engine_buffers_bounded [OF demo_engine_reach _ demo_engine_conn] by (simp add: demo_engine_conn)

subsection \<open>Accepting stops for good after repeated failures\<close>

definition deaf :: "int list \<Rightarrow> Engine \<Rightarrow> bool" where
  "deaf a e \<longleftrightarrow> Accept \<notin> set (ops e) \<and> accepted e = a"

interpretation deaf: engine_frame "deaf a" for a
  by unfold_locales (auto simp: deaf_def submit_op_def get_sqe_def Let_def split: list.splits bool.splits)

lemma deaf_drain_outbox:
  assumes "deaf a e"
  shows "deaf a (drain_outbox opt now e)"
proof -
  have "deaf a (e\<lparr>outbox := q\<rparr>)" for q using assms by (simp add: deaf_def)
  then show ?thesis by (simp add: drain_outbox_def deaf.outbox_items split: prod.splits)
qed

lemma deaf_eventfd_read: "deaf a e \<Longrightarrow> deaf a (submit_eventfd_read now e)"
  by (simp add: deaf_def submit_eventfd_read_def)

lemma deaf_step:
  assumes "eng_step opt handle es es'" "deaf a (fst es)"
  shows "deaf a (fst es')"
  using assms
proof (cases rule: eng_step.cases)
  case (Cqe op e r d s env)
  have "deaf a (e\<lparr>ops := remove1 op (ops e)\<rparr>)"
    using assms(2) Cqe by (auto simp: deaf_def dest: in_set_remove1 notin_set_remove1)
  moreover have "op \<noteq> Accept" using assms(2) Cqe by (auto simp: deaf_def)
  ultimately show ?thesis using Cqe
    by (cases op) (simp_all add: on_cqe_def complete_wakeup_def deaf.complete_rsp_notify deaf.complete_recv
        deaf.complete_send deaf.complete_stop deaf_drain_outbox deaf_eventfd_read)
next
  case (Tail e s env order)
  then show ?thesis using assms(2) by (simp add: deaf.loop_tail)
next
  case (Reap e s now order)
  then show ?thesis using assms(2) by (simp add: deaf.reap_round)
qed (use assms(2) in \<open>simp_all add: deaf_def request_stop_def\<close>)

lemma deaf_steps:
  "rtranclp (eng_step opt handle) es es' \<Longrightarrow> deaf a (fst es) \<Longrightarrow> deaf a (fst es')"
  by (induction rule: rtranclp_induct) (auto intro: deaf_step)

text \<open>
  Property C18: after eight accept failures in a row the gateway never accepts again. The
  eighth failure is not followed by a new accept, and no later step of the loop, of a worker
  or of the peer submits one: whatever happens from then on, no accept is in flight and no
  connection is added. (The code's comments promise that the next wake-up re-arms it.)
\<close>

theorem accept_never_rearmed:
  assumes "accepting e" "accept_fail_streak e = 7" "r < 0" "r \<noteq> - 4"
    and "count_list (ops e) Accept = 1"
    and "rtranclp (eng_step opt handle) (on_cqe opt env Accept r d e, s) (e', s')"
  shows "Accept \<notin> set (ops e') \<and> accepted e' = accepted e"
proof -
  have "Accept \<in> set (ops e)" using assms(5) count_list_0_iff [of "ops e" Accept] by auto
  then have "count_list (remove1 Accept (ops e)) Accept = 0" using assms(5) by (simp add: count_remove1)
  then have "Accept \<notin> set (remove1 Accept (ops e))" by (rule iffD1 [OF count_list_0_iff])
  then have "deaf (accepted e) (on_cqe opt env Accept r d e)"
    using assms(1-4) by (simp add: deaf_def on_cqe_def complete_accept_def Let_def)
  with deaf_steps [OF assms(6)] show ?thesis by (simp add: deaf_def)
qed

text \<open>The first seven failures do re-arm the accept, and the engine can run into this state.\<close>

definition failed_accepts :: "nat \<Rightarrow> Engine" where
  "failed_accepts n = (on_cqe demo_opt demo_env Accept (- 24) [] ^^ n) (eng_init None [] 0)"

lemma failed_accepts_state:
  "n \<le> 7 \<Longrightarrow> accepting (failed_accepts n) \<and> accept_fail_streak (failed_accepts n) = n \<and>
     count_list (ops (failed_accepts n)) Accept = 1 \<and> sq (failed_accepts n) = []"
proof (induction n)
  case 0
  show ?case by (simp add: failed_accepts_def) code_simp
next
  case (Suc n)
  have "failed_accepts (Suc n) = on_cqe demo_opt demo_env Accept (- 24) [] (failed_accepts n)"
    by (simp add: failed_accepts_def)
  with Suc show ?case
    by (simp add: on_cqe_def complete_accept_def submit_accept_def submit_op_def get_sqe_def Let_def
        count_list_snoc count_remove1 count_list_0_iff [symmetric] split: list.splits)
qed

theorem accept_never_rearmed_witness:
  "Accept \<notin> set (ops (loop_tail demo_opt demo_env [] (on_cqe demo_opt demo_env Accept (- 24) [] (failed_accepts 7))))"
proof -
  let ?e = "on_cqe demo_opt demo_env Accept (- 24) [] (failed_accepts 7)"
  have "rtranclp (eng_step demo_opt demo_handle) (?e, ()) (loop_tail demo_opt demo_env [] ?e, ())"
    by (rule r_into_rtranclp) (rule eng_step.Tail)
  then show ?thesis
    using accept_never_rearmed [of "failed_accepts 7" "- 24" demo_opt demo_handle demo_env "[]"]
      failed_accepts_state [of 7] by simp
qed

end
