(* ===== verification/OutboxWake.thy ===== *)
theory OutboxWake
  imports EngineFrame
begin

text \<open>
  How the workers wake the engine thread (server/src/gateway/worker_outbox.cpp): an item is
  queued, then 1 is written to an eventfd that a one-shot read of the ring waits for. Here the
  steps of the workers, the kernel and the engine interleave freely, with the engine of
  UringEngine.
\<close>

text \<open>\<open>wk_count\<close> is the counter of the eventfd, \<open>wk_cqe\<close> a completion of its read which the engine has not
  harvested, \<open>wk_writing\<close> the number of workers between the two halves of \<open>push\<close>, and \<open>wk_lost\<close> the
  number of writes that failed. \<open>wk_pushed\<close> and \<open>wk_taken\<close> record the items.\<close>

record Wake =
  wk_eng :: Engine
  wk_count :: u64
  wk_cqe :: bool
  wk_writing :: nat
  wk_lost :: nat
  wk_pushed :: "OutboxItem list"
  wk_taken :: "OutboxItem list"

definition mk_WorkerOutbox :: "Engine \<Rightarrow> Wake" where
  "mk_WorkerOutbox e = \<lparr>wk_eng = e, wk_count = 0, wk_cqe = False, wk_writing = 0, wk_lost = 0,
     wk_pushed = [], wk_taken = []\<rparr>"

definition wk_enqueue :: "OutboxItem \<Rightarrow> Wake \<Rightarrow> Wake" where
  "wk_enqueue item w = w\<lparr>wk_eng := (wk_eng w)\<lparr>outbox := outbox_push item (outbox (wk_eng w))\<rparr>,
     wk_writing := wk_writing w + 1, wk_pushed := wk_pushed w @ [item]\<rparr>"

text \<open>The second half. A failed write is only logged.\<close>

definition wk_signal :: "bool \<Rightarrow> Wake \<Rightarrow> Wake" where
  "wk_signal ok w =
     (if ok then w\<lparr>wk_writing := wk_writing w - 1, wk_count := wk_count w + 1\<rparr>
      else w\<lparr>wk_writing := wk_writing w - 1, wk_lost := wk_lost w + 1\<rparr>)"

definition wk_read :: "Wake \<Rightarrow> Wake" where
  "wk_read w = w\<lparr>wk_count := 0, wk_cqe := True\<rparr>"

definition wk_harvest :: "GatewayOptions \<Rightarrow> CqeEnv \<Rightarrow> Wake \<Rightarrow> Wake" where
  "wk_harvest opt env w = w\<lparr>wk_eng := on_cqe opt env Wakeup 8 [] (wk_eng w), wk_cqe := False,
     wk_taken := wk_taken w @ obq (outbox (wk_eng w))\<rparr>"

text \<open>What workers, kernel and engine do about the outbox, and what else the engine does. A write
  waits while the counter is at its largest value.\<close>

inductive wake_run :: "GatewayOptions \<Rightarrow> Wake \<Rightarrow> Wake \<Rightarrow> bool" for opt where
  signal: "0 < wk_writing w \<Longrightarrow> \<not> ok \<or> wk_count w < 0xFFFFFFFFFFFFFFFE \<Longrightarrow> wake_run opt w (wk_signal ok w)"
| read: "Wakeup \<in> set (ops (wk_eng w)) \<Longrightarrow> \<not> wk_cqe w \<Longrightarrow> 0 < wk_count w \<Longrightarrow> wake_run opt w (wk_read w)"
| harvest: "wk_cqe w \<Longrightarrow> wake_run opt w (wk_harvest opt env w)"

inductive wake_step :: "GatewayOptions \<Rightarrow> Wake \<Rightarrow> Wake \<Rightarrow> bool" for opt where
  run: "wake_run opt w w' \<Longrightarrow> wake_step opt w w'"
| push: "wake_step opt w (wk_enqueue item w)"
| other: "op \<in> set (ops (wk_eng w)) \<Longrightarrow> op \<noteq> Wakeup \<Longrightarrow>
    wake_step opt w (w\<lparr>wk_eng := on_cqe opt env op r d (wk_eng w)\<rparr>)"
| tail: "wake_step opt w (w\<lparr>wk_eng := loop_tail opt env order (wk_eng w)\<rparr>)"
| reap: "wake_step opt w (w\<lparr>wk_eng := reap_round now order (wk_eng w)\<rparr>)"
| stop: "wake_step opt w (w\<lparr>wk_eng := request_stop (wk_eng w)\<rparr>)"
| peer: "wake_step opt w (w\<lparr>wk_eng := (wk_eng w)\<lparr>rsp := rc\<rparr>\<rparr>)"

subsection \<open>The engine keeps listening\<close>

text \<open>The outbox is \<open>q\<close>, and the read of the eventfd is in flight or, where \<open>b\<close> allows it, the engine drains.\<close>

definition hears :: "OutboxQueue \<Rightarrow> bool \<Rightarrow> Engine \<Rightarrow> bool" where
  "hears q b e \<longleftrightarrow> outbox e = q \<and> (Wakeup \<in> set (ops e) \<or> b \<and> draining e)"

lemma submit_drains: "draining e \<Longrightarrow> draining (snd (submit_op op now e))"
  by (auto simp: submit_op_def get_sqe_def Let_def split: list.splits bool.splits)

lemma submit_fails: "\<not> fst (submit_op op now e) \<Longrightarrow> draining (snd (submit_op op now e))"
  by (auto simp: submit_op_def get_sqe_def Let_def split: list.splits bool.splits)

lemma hears_submit: "hears q b e \<Longrightarrow> hears q b (snd (submit_op op now e))"
  by (auto simp: hears_def submit_drains)

interpretation hears: engine_frame "hears q b" for q b
  by unfold_locales (auto simp: hears_def submit_drains)

lemma hears_accept: "hears q b e \<Longrightarrow> hears q b (complete_accept opt now r e)"
proof -
  assume e: "hears q b e"
  note same = hears.same [of q b]
  have new: "hears q b (snd (make_conn opt now r e'))" if "hears q b e'" for e'
    using that by (rule same) (simp_all add: make_conn_def Let_def)
  have recv: "hears q b (case p of (True, e') \<Rightarrow> e' | (False, e') \<Rightarrow> e'\<lparr>closed := closed e' @ [r], conns := (conns e')(cid := None)\<rparr>)"
    if "hears q b (snd p)" for p cid
    using that by (cases p) (auto intro: same split: bool.splits)
  define e1 where "e1 = (if r \<ge> 0 then e\<lparr>accepted := accepted e @ [r]\<rparr> else e)"
  have e1: "hears q b e1" using e by (simp add: e1_def hears_def)
  have st: "hears q b (e1\<lparr>accept_fail_streak := x\<rparr>)" "hears q b (e1\<lparr>closed := y\<rparr>)" for x y
    using e1 by (simp_all add: hears_def)
  show ?thesis
    unfolding complete_accept_def Let_def e1_def [symmetric] submit_accept_def
    using hears_submit e1 st hears.submits(3) [OF new [OF st(1)]] recv
    by (auto simp: case_prod_unfold Let_def)
qed

lemma hears_other:
  assumes "hears q b e" "op \<noteq> Wakeup"
  shows "hears q b (on_cqe opt env op r d e)"
proof -
  have "hears q b (e\<lparr>ops := remove1 op (ops e)\<rparr>)" using assms by (auto simp: hears_def in_set_remove1)
  then show ?thesis using assms(2)
    by (cases op) (simp_all add: on_cqe_def Let_def hears.complete_rsp_notify hears.complete_recv
        hears.complete_send hears.complete_stop hears_accept)
qed

text \<open>The completion of the read arms the next one and takes everything that is queued.\<close>

lemma hears_wakeup: "hears \<lparr>obq = []\<rparr> True (on_cqe opt env Wakeup r d e)"
proof -
  let ?e = "submit_eventfd_read (env_now env) (e\<lparr>ops := remove1 Wakeup (ops e)\<rparr>)"
  have "Wakeup \<in> set (ops ?e) \<or> draining ?e"
    using submit_fails [of Wakeup "env_now env" "e\<lparr>ops := remove1 Wakeup (ops e)\<rparr>"]
    by (auto simp: submit_eventfd_read_def)
  then have "hears \<lparr>obq = []\<rparr> True (?e\<lparr>outbox := \<lparr>obq = []\<rparr>\<rparr>)" by (simp add: hears_def)
  from hears.outbox_items [OF this, of opt "env_now env" "obq (outbox ?e)"] show ?thesis
    by (cases "outbox ?e") (auto simp: on_cqe_def complete_wakeup_def drain_outbox_def outbox_drain_def Let_def)
qed

subsection \<open>No item is stuck\<close>

definition wake_inv :: "Wake \<Rightarrow> bool" where
  "wake_inv w \<longleftrightarrow>
     wk_pushed w = wk_taken w @ obq (outbox (wk_eng w)) \<and>
     (Wakeup \<in> set (ops (wk_eng w)) \<or> \<not> wk_cqe w \<and> draining (wk_eng w)) \<and>
     (obq (outbox (wk_eng w)) \<noteq> [] \<longrightarrow> 0 < wk_writing w \<or> 0 < wk_count w \<or> wk_cqe w \<or> 0 < wk_lost w)"

lemma inv_engine:
  assumes "wake_inv w" "\<And>q b. hears q b (wk_eng w) \<Longrightarrow> hears q b e"
  shows "wake_inv (w\<lparr>wk_eng := e\<rparr>)"
proof -
  have "hears (outbox (wk_eng w)) (\<not> wk_cqe w) (wk_eng w)" using assms(1) by (auto simp: wake_inv_def hears_def)
  from assms(2) [OF this] assms(1) show ?thesis by (auto simp: wake_inv_def hears_def)
qed

lemma inv_run:
  assumes "wake_run opt w w'" "wake_inv w"
  shows "wake_inv w'"
  using assms(1)
proof cases
  case (signal ok)
  have "wk_count w + 1 \<noteq> 0" if ok
  proof
    assume "wk_count w + 1 = 0"
    then have "wk_count w = - 1" by (simp add: add_eq_0_iff2)
    then show False using signal(3) that by simp
  qed
  with signal assms(2) show ?thesis by (auto simp: wake_inv_def wk_signal_def word_gt_0)
next
  case read
  with assms(2) show ?thesis by (auto simp: wake_inv_def wk_read_def)
next
  case (harvest env)
  with assms(2) hears_wakeup [of opt env 8 "[]" "wk_eng w"] show ?thesis
    by (auto simp: wake_inv_def wk_harvest_def hears_def)
qed

lemma inv_step:
  assumes "wake_step opt w w'" "wake_inv w"
  shows "wake_inv w'"
  using assms(1)
proof cases
  case run
  then show ?thesis by (rule inv_run [OF _ assms(2)])
next
  case (push item)
  with assms(2) show ?thesis by (auto simp: wake_inv_def wk_enqueue_def outbox_push_def)
next
  case (other op env r d)
  then show ?thesis using inv_engine [OF assms(2)] hears_other by blast
next
  case (tail env order)
  then show ?thesis using inv_engine [OF assms(2)] hears.loop_tail by blast
next
  case (reap now order)
  then show ?thesis using inv_engine [OF assms(2)] hears.reap_round by blast
next
  case stop
  then show ?thesis using inv_engine [OF assms(2), of "request_stop (wk_eng w)"]
    by (simp add: hears_def request_stop_def)
next
  case (peer rc)
  then show ?thesis using inv_engine [OF assms(2), of "(wk_eng w)\<lparr>rsp := rc\<rparr>"] by (simp add: hears_def)
qed

lemma inv_init: "wake_inv (mk_WorkerOutbox (eng_init rs sqs now))"
proof -
  have *: "hears \<lparr>obq = []\<rparr> True (snd (submit_op Wakeup now e))" if "outbox e = \<lparr>obq = []\<rparr>" for e
    using that submit_fails [of Wakeup now e] by (auto simp: hears_def)
  have "hears \<lparr>obq = []\<rparr> True (eng_init rs sqs now)"
    unfolding eng_init_def Let_def submit_defs by (simp add: * hears_submit)
  then show ?thesis by (auto simp: wake_inv_def mk_WorkerOutbox_def hears_def)
qed

lemma inv_reached:
  "(wake_step opt)\<^sup>*\<^sup>* (mk_WorkerOutbox (eng_init rs sqs now)) w \<Longrightarrow> wake_inv w"
  by (induction rule: rtranclp_induct) (auto intro: inv_init inv_step)

lemma harvest_empties:
  assumes "wk_cqe w" "wake_inv w"
  shows "wake_run opt w (wk_harvest opt env w) \<and> obq (outbox (wk_eng (wk_harvest opt env w))) = [] \<and>
    wk_taken (wk_harvest opt env w) = wk_pushed w"
  using assms hears_wakeup [of opt env 8 "[]" "wk_eng w"]
  by (auto simp: wk_harvest_def hears_def wake_inv_def intro: wake_run.harvest [OF assms(1), of opt env, unfolded wk_harvest_def])

text \<open>Property C17: no reply is left behind in the outbox. However workers, kernel and engine
  interleave, the engine takes the items in the order in which they were queued, each once, and
  as long as no write to the eventfd fails and the engine is not shutting down, a queued item has
  a worker that is still to write, or a completion that wakes the engine is there or due; with no
  worker left to write, at most two steps, the read and its harvest, take everything.\<close>

theorem outbox_never_stuck:
  assumes "(wake_step opt)\<^sup>*\<^sup>* (mk_WorkerOutbox (eng_init rs sqs now)) w"
  shows "wk_pushed w = wk_taken w @ obq (outbox (wk_eng w)) \<and>
    (wk_lost w = 0 \<and> \<not> draining (wk_eng w) \<and> wk_writing w = 0 \<longrightarrow>
      (\<exists>n \<le> 2. \<exists>w'. (wake_run opt ^^ n) w w' \<and> obq (outbox (wk_eng w')) = [] \<and> wk_taken w' = wk_pushed w))"
proof (intro conjI impI)
  note inv = inv_reached [OF assms]
  then show "wk_pushed w = wk_taken w @ obq (outbox (wk_eng w))" by (simp add: wake_inv_def)
  assume a: "wk_lost w = 0 \<and> \<not> draining (wk_eng w) \<and> wk_writing w = 0"
  consider "obq (outbox (wk_eng w)) = []" | "wk_cqe w" | "0 < wk_count w" "\<not> wk_cqe w"
    using inv a by (auto simp: wake_inv_def)
  then show "\<exists>n \<le> 2. \<exists>w'. (wake_run opt ^^ n) w w' \<and> obq (outbox (wk_eng w')) = [] \<and> wk_taken w' = wk_pushed w"
  proof cases
    case 1
    with inv show ?thesis by (intro exI [of _ 0]) (simp add: wake_inv_def)
  next
    case 2
    with harvest_empties [OF 2 inv] show ?thesis by (intro exI [of _ 1]) auto
  next
    case 3
    have r: "wake_run opt w (wk_read w)" using 3 inv a by (intro wake_run.read) (auto simp: wake_inv_def)
    have "wk_cqe (wk_read w)" "wk_pushed (wk_read w) = wk_pushed w" by (simp_all add: wk_read_def)
    with harvest_empties [OF _ inv_run [OF r inv], of opt] r show ?thesis
      by (intro exI [of _ "Suc (Suc 0)"]) auto
  qed
qed

text \<open>One reply queued and signalled.\<close>

definition one_reply :: Wake where
  "one_reply = wk_signal True (wk_enqueue \<lparr>ob_kind = Close, ob_conn_id = 1, ob_bytes = []\<rparr>
     (mk_WorkerOutbox (eng_init None [] 0)))"

lemma one_reply_reached: "(wake_step opt)\<^sup>*\<^sup>* (mk_WorkerOutbox (eng_init None [] 0)) one_reply"
proof -
  let ?w = "wk_enqueue \<lparr>ob_kind = Close, ob_conn_id = 1, ob_bytes = []\<rparr> (mk_WorkerOutbox (eng_init None [] 0))"
  have "wake_run opt ?w one_reply"
    unfolding one_reply_def by (rule signal) (simp_all add: wk_enqueue_def mk_WorkerOutbox_def)
  then show ?thesis by (meson push run rtranclp.simps)
qed

theorem outbox_never_stuck_witness:
  "\<exists>n \<le> 2. \<exists>w'. (wake_run \<lparr>rx_buf_bytes = 4096, send_backlog_limit = 65536, idle_timeout = 60000, sq_depth = 256\<rparr> ^^ n) one_reply w' \<and>
     obq (outbox (wk_eng w')) = [] \<and> wk_taken w' = [\<lparr>ob_kind = Close, ob_conn_id = 1, ob_bytes = []\<rparr>]"
proof -
  have f: "wk_lost one_reply = 0" "wk_writing one_reply = 0"
    "wk_pushed one_reply = [\<lparr>ob_kind = Close, ob_conn_id = 1, ob_bytes = []\<rparr>]" "\<not> draining (wk_eng one_reply)"
    by (simp_all add: one_reply_def wk_signal_def wk_enqueue_def mk_WorkerOutbox_def eng_init_def Let_def
        submit_defs submit_op_def get_sqe_def)
  from conjunct2 [OF outbox_never_stuck [OF one_reply_reached]] show ?thesis by (simp only: f simp_thms)
qed

end
