(* ===== verification/CLib.thy ===== *)
theory CLib
  imports Common
begin

text \<open>
  What the sources use of the C library to turn numbers into text and back: \<open>atoi\<close>,
  \<open>atoll\<close>, \<open>atof\<close>, \<open>snprintf\<close> with its truncation, and \<open>%.7f\<close>. The main lemma is that a
  printed integer reads back.
\<close>

subsection \<open>Reading integers\<close>

definition is_space :: "char \<Rightarrow> bool" where
  "is_space c \<longleftrightarrow> of_char c = (32 :: nat) \<or> 9 \<le> (of_char c :: nat) \<and> (of_char c :: nat) \<le> 13"

definition is_digit :: "char \<Rightarrow> bool" where
  "is_digit c \<longleftrightarrow> 48 \<le> (of_char c :: nat) \<and> (of_char c :: nat) \<le> 57"

fun digits_value :: "int \<Rightarrow> string \<Rightarrow> int" where
  "digits_value acc [] = acc"
| "digits_value acc (c # cs) =
     (if is_digit c then digits_value (acc * 10 + (int (of_char c) - 48)) cs else acc)"

text \<open>Leading white space, an optional sign, decimal digits.\<close>

definition parse_dec :: "string \<Rightarrow> int" where
  "parse_dec s =
     (case dropWhile is_space s of
        [] \<Rightarrow> 0
      | c # cs \<Rightarrow>
          if c = CHR ''-'' then - digits_value 0 cs
          else if c = CHR ''+'' then digits_value 0 cs
          else digits_value 0 (c # cs))"

text \<open>A value that does not fit the result type is undefined behaviour.\<close>

definition atoi :: "string \<Rightarrow> int res" where
  "atoi s = checked_i32 (parse_dec s)"

definition atoll :: "string \<Rightarrow> int res" where
  "atoll s =
     (let v = parse_dec s in
      if - 9223372036854775808 \<le> v \<and> v \<le> 9223372036854775807 then Inr v else Inl Undefined_behaviour)"

subsection \<open>Reading decimals\<close>

text \<open>
  \<open>atof\<close> on decimal text: digits, a point and digits, without rounding. Exponents and the
  spellings of infinities and NaN, which a DECIMAL column never has, end the number.
\<close>

fun frac_value :: "real \<Rightarrow> string \<Rightarrow> real" where
  "frac_value u [] = 0"
| "frac_value u (c # cs) =
     (if is_digit c then u * of_int (int (of_char c) - 48) + frac_value (u / 10) cs else 0)"

definition unsigned_dec :: "string \<Rightarrow> real" where
  "unsigned_dec s =
     (let rest = dropWhile is_digit s in
      of_int (digits_value 0 s) + (case rest of c # cs \<Rightarrow> if c = CHR ''.'' then frac_value (1 / 10) cs else 0 | [] \<Rightarrow> 0))"

definition atof :: "string \<Rightarrow> dbl" where
  "atof s =
     (case dropWhile is_space s of
        [] \<Rightarrow> Num 0
      | c # cs \<Rightarrow>
          if c = CHR ''-'' then Num (- unsigned_dec cs)
          else if c = CHR ''+'' then Num (unsigned_dec cs)
          else Num (unsigned_dec (c # cs)))"

subsection \<open>Printing\<close>

text \<open>\<open>%s\<close> stops at the first null character; \<open>snprintf\<close> keeps one byte for the terminator.\<close>

definition c_str :: "string \<Rightarrow> string" where
  "c_str s = takeWhile (\<lambda>c. c \<noteq> CHR 0x00) s"

definition snprintf :: "nat \<Rightarrow> string \<Rightarrow> string" where
  "snprintf cap s = take (cap - 1) s"

text \<open>\<open>%.7f\<close> rounds to the nearest multiple of a ten-millionth, halves to even.\<close>

definition round_even :: "real \<Rightarrow> int" where
  "round_even x =
     (let n = \<lfloor>x\<rfloor>; d = x - of_int n in
      if d < 1 / 2 then n else if d > 1 / 2 then n + 1 else if even n then n else n + 1)"

definition fmt7 :: "dbl \<Rightarrow> string" where
  "fmt7 d =
     (case d of
        NaN \<Rightarrow> ''nan''
      | Inf p \<Rightarrow> if p then ''inf'' else ''-inf''
      | Num x \<Rightarrow>
          let n = round_even (\<bar>x\<bar> * 10000000) in
          (if x < 0 then ''-'' else []) @ dec_digits (nat (n div 10000000)) @ ''.'' @ pad_dec 7 (n mod 10000000))"

subsection \<open>Printed numbers read back\<close>

lemma digit_char_code: "d < 10 \<Longrightarrow> (of_char (digit_char d) :: nat) = 48 + d"
  by (simp add: digit_char_def of_char_of)

lemma digit_char_class: "d < 10 \<Longrightarrow> is_digit (digit_char d)" "d < 10 \<Longrightarrow> \<not> is_space (digit_char d)"
  by (simp_all add: is_digit_def is_space_def digit_char_code)

lemma digits_value_snoc:
  "list_all is_digit s \<Longrightarrow> d < 10 \<Longrightarrow>
     digits_value acc (s @ [digit_char d]) = digits_value acc s * 10 + int d"
  by (induction s arbitrary: acc) (simp_all add: digit_char_class digit_char_code)

lemma dec_digits_digits: "list_all is_digit (dec_digits n)"
  by (induction n rule: dec_digits.induct) (subst dec_digits.simps, simp add: digit_char_class)

lemma digits_value_dec: "digits_value 0 (dec_digits n) = int n"
proof (induction n rule: dec_digits.induct)
  case (1 n)
  show ?case
  proof (cases "n < 10")
    case True
    then show ?thesis by (subst dec_digits.simps) (simp add: digit_char_class digit_char_code)
  next
    case False
    then have "digits_value 0 (dec_digits n) = int (n div 10) * 10 + int (n mod 10)"
      using 1 by (subst dec_digits.simps) (simp add: digits_value_snoc dec_digits_digits)
    then show ?thesis by (metis div_mult_mod_eq of_nat_add of_nat_mult of_nat_numeral)
  qed
qed

lemma dec_digits_Cons: "\<exists>d cs. d < 10 \<and> dec_digits n = digit_char d # cs"
proof (induction n rule: dec_digits.induct)
  case (1 n)
  show ?case
  proof (cases "n < 10")
    case True
    then show ?thesis by (subst dec_digits.simps) auto
  next
    case False
    with 1 obtain d cs where "d < 10" "dec_digits (n div 10) = digit_char d # cs" by blast
    then show ?thesis using False by (subst dec_digits.simps) (auto intro: exI [of _ d])
  qed
qed

lemma digit_char_neq: "d < 10 \<Longrightarrow> digit_char d \<noteq> CHR ''-''" "d < 10 \<Longrightarrow> digit_char d \<noteq> CHR ''+''"
  using digit_char_code [of d] by auto

lemma parse_dec_print: "parse_dec (std_to_string i) = i"
proof (cases "i < 0")
  case True
  then show ?thesis
    by (simp add: parse_dec_def std_to_string_def is_space_def digits_value_dec)
next
  case False
  obtain d cs where "d < 10" "dec_digits (nat i) = digit_char d # cs" using dec_digits_Cons by blast
  then show ?thesis using False digits_value_dec [of "nat i"]
    by (simp add: parse_dec_def std_to_string_def digit_char_class digit_char_neq)
qed

lemma atoi_print: "in_i32 i \<Longrightarrow> atoi (std_to_string i) = Inr i"
  by (simp add: atoi_def parse_dec_print checked_i32_def)

lemma length_std_to_string: "in_i32 i \<Longrightarrow> length (std_to_string i) \<le> 11"
  using length_dec_digits [of 10 "nat i"] length_dec_digits [of 10 "nat (- i)"]
  by (auto simp: std_to_string_def i32_defs nat_less_iff)

end
