(* ===== verification/Configuration.thy ===== *)
theory Configuration
  imports UringEngine CLib
begin

text \<open>
  The configuration of the two server processes: \<open>Config\<close> with the defaults of
  \<open>config.hpp\<close>, \<open>load_config\<close> with its validation from \<open>config.cpp\<close>, and what the two
  \<open>main\<close> functions make of it together with the environment variables. Reading TOML is the
  work of a third-party library, a parameter of the model. The lemmas show that a loaded
  configuration is in range, whatever the file holds.
\<close>

subsection \<open>The records\<close>

record ServerCfg =
  srv_listen :: string
  srv_port :: int

record MysqlCfg =
  my_host :: string
  my_port :: int
  my_user :: string
  my_password :: string
  my_database :: string
  my_pool_size :: int

record RedisCfg =
  rd_host :: string
  rd_port :: int
  rd_pool_size :: int

record LogCfg =
  log_level :: string
  log_file :: string

record UringCfg =
  u_sq_depth :: int
  u_cq_depth :: int
  u_workers :: int
  u_rx_buf_bytes :: int
  u_send_backlog_limit_bytes :: int
  u_idle_timeout_ms :: int
  u_accept_backlog :: int

record IpcCfg =
  ipc_mode :: string
  ipc_shm_root :: string
  ipc_shm_prefix :: string
  ipc_instance :: int
  ipc_open_timeout_ms :: int
  ipc_peer_timeout_ms :: int
  ipc_spin_tries :: int
  ipc_dispatch_workers :: int
  ipc_req_ring_slots :: int
  ipc_rsp_ring_slots :: int

record Config =
  cfg_server :: ServerCfg
  cfg_mysql :: MysqlCfg
  cfg_redis :: RedisCfg
  cfg_log :: LogCfg
  cfg_uring :: UringCfg
  cfg_ipc :: IpcCfg

definition default_server :: ServerCfg where
  "default_server = \<lparr>srv_listen = ''0.0.0.0'', srv_port = 8888\<rparr>"

definition default_mysql :: MysqlCfg where
  "default_mysql = \<lparr>my_host = ''127.0.0.1'', my_port = 3306, my_user = ''bike'', my_password = [],
     my_database = ''shared_bike'', my_pool_size = 8\<rparr>"

definition default_redis :: RedisCfg where
  "default_redis = \<lparr>rd_host = ''127.0.0.1'', rd_port = 6379, rd_pool_size = 4\<rparr>"

definition default_log :: LogCfg where
  "default_log = \<lparr>log_level = ''info'', log_file = ''/var/log/bike-server/server.log''\<rparr>"

definition default_uring :: UringCfg where
  "default_uring = \<lparr>u_sq_depth = 256, u_cq_depth = 512, u_workers = 8, u_rx_buf_bytes = 65536,
     u_send_backlog_limit_bytes = 1048576, u_idle_timeout_ms = 60000, u_accept_backlog = 1024\<rparr>"

definition default_ipc :: IpcCfg where
  "default_ipc = \<lparr>ipc_mode = ''ring'', ipc_shm_root = ''/dev/shm'', ipc_shm_prefix = ''bike'',
     ipc_instance = 0, ipc_open_timeout_ms = 10000, ipc_peer_timeout_ms = 5000, ipc_spin_tries = 64,
     ipc_dispatch_workers = 8, ipc_req_ring_slots = 512, ipc_rsp_ring_slots = 256\<rparr>"

definition default_config :: Config where
  "default_config = \<lparr>cfg_server = default_server, cfg_mysql = default_mysql, cfg_redis = default_redis,
     cfg_log = default_log, cfg_uring = default_uring, cfg_ipc = default_ipc\<rparr>"

subsection \<open>Reading the file\<close>

text \<open>
  The TOML library: what a file parses to, and how a node answers \<open>as_table\<close>,
  \<open>value<std::string>\<close> and \<open>value<std::int64_t>\<close>.
\<close>

record 'n Toml =
  parse_file :: "string \<Rightarrow> (string \<rightharpoonup> 'n) option"
  as_table :: "'n \<Rightarrow> (string \<rightharpoonup> 'n) option"
  value_string :: "'n \<Rightarrow> string option"
  value_int64 :: "'n \<Rightarrow> int option"

definition get_or :: "('n \<Rightarrow> 'v option) \<Rightarrow> (string \<rightharpoonup> 'n) \<Rightarrow> string \<Rightarrow> 'v \<Rightarrow> 'v" where
  "get_or val t key def =
     (case t key of None \<Rightarrow> def | Some node \<Rightarrow> (case val node of None \<Rightarrow> def | Some v \<Rightarrow> v))"

text \<open>A section of the file, when it is a table.\<close>

definition section_of :: "'n Toml \<Rightarrow> (string \<rightharpoonup> 'n) \<Rightarrow> string \<Rightarrow> (string \<rightharpoonup> 'n) option" where
  "section_of T doc name = (case doc name of None \<Rightarrow> None | Some node \<Rightarrow> as_table T node)"

text \<open>Reading an \<open>int\<close> field goes through \<open>std::int64_t\<close> and narrows the result.\<close>

definition get_int :: "'n Toml \<Rightarrow> (string \<rightharpoonup> 'n) \<Rightarrow> string \<Rightarrow> int \<Rightarrow> int" where
  "get_int T t key def = narrow_i32 (get_or (value_int64 T) t key def)"

definition read_server :: "'n Toml \<Rightarrow> (string \<rightharpoonup> 'n) \<Rightarrow> ServerCfg \<Rightarrow> ServerCfg" where
  "read_server T doc c =
     (case section_of T doc ''server'' of
        None \<Rightarrow> c
      | Some s \<Rightarrow>
          \<lparr>srv_listen = get_or (value_string T) s ''listen'' (srv_listen c),
           srv_port = get_int T s ''port'' (srv_port c)\<rparr>)"

definition read_mysql :: "'n Toml \<Rightarrow> (string \<rightharpoonup> 'n) \<Rightarrow> MysqlCfg \<Rightarrow> MysqlCfg" where
  "read_mysql T doc c =
     (case section_of T doc ''mysql'' of
        None \<Rightarrow> c
      | Some m \<Rightarrow>
          \<lparr>my_host = get_or (value_string T) m ''host'' (my_host c),
           my_port = get_int T m ''port'' (my_port c),
           my_user = get_or (value_string T) m ''user'' (my_user c),
           my_password = get_or (value_string T) m ''password'' (my_password c),
           my_database = get_or (value_string T) m ''database'' (my_database c),
           my_pool_size = get_int T m ''pool_size'' (my_pool_size c)\<rparr>)"

definition read_redis :: "'n Toml \<Rightarrow> (string \<rightharpoonup> 'n) \<Rightarrow> RedisCfg \<Rightarrow> RedisCfg" where
  "read_redis T doc c =
     (case section_of T doc ''redis'' of
        None \<Rightarrow> c
      | Some r \<Rightarrow>
          \<lparr>rd_host = get_or (value_string T) r ''host'' (rd_host c),
           rd_port = get_int T r ''port'' (rd_port c),
           rd_pool_size = get_int T r ''pool_size'' (rd_pool_size c)\<rparr>)"

definition read_log :: "'n Toml \<Rightarrow> (string \<rightharpoonup> 'n) \<Rightarrow> LogCfg \<Rightarrow> LogCfg" where
  "read_log T doc c =
     (case section_of T doc ''log'' of
        None \<Rightarrow> c
      | Some l \<Rightarrow>
          \<lparr>log_level = get_or (value_string T) l ''level'' (log_level c),
           log_file = get_or (value_string T) l ''file'' (log_file c)\<rparr>)"

definition read_uring :: "'n Toml \<Rightarrow> (string \<rightharpoonup> 'n) \<Rightarrow> UringCfg \<Rightarrow> UringCfg" where
  "read_uring T doc c =
     (case section_of T doc ''uring'' of
        None \<Rightarrow> c
      | Some u \<Rightarrow>
          \<lparr>u_sq_depth = get_int T u ''sq_depth'' (u_sq_depth c),
           u_cq_depth = get_int T u ''cq_depth'' (u_cq_depth c),
           u_workers = get_int T u ''workers'' (u_workers c),
           u_rx_buf_bytes = get_or (value_int64 T) u ''rx_buf_bytes'' (u_rx_buf_bytes c),
           u_send_backlog_limit_bytes =
             get_or (value_int64 T) u ''send_backlog_limit_bytes'' (u_send_backlog_limit_bytes c),
           u_idle_timeout_ms = get_int T u ''idle_timeout_ms'' (u_idle_timeout_ms c),
           u_accept_backlog = get_int T u ''accept_backlog'' (u_accept_backlog c)\<rparr>)"

definition read_ipc :: "'n Toml \<Rightarrow> (string \<rightharpoonup> 'n) \<Rightarrow> IpcCfg \<Rightarrow> IpcCfg" where
  "read_ipc T doc c =
     (case section_of T doc ''ipc'' of
        None \<Rightarrow> c
      | Some i \<Rightarrow>
          \<lparr>ipc_mode = get_or (value_string T) i ''mode'' (ipc_mode c),
           ipc_shm_root = get_or (value_string T) i ''shm_root'' (ipc_shm_root c),
           ipc_shm_prefix = get_or (value_string T) i ''shm_prefix'' (ipc_shm_prefix c),
           ipc_instance = get_int T i ''instance'' (ipc_instance c),
           ipc_open_timeout_ms = get_int T i ''open_timeout_ms'' (ipc_open_timeout_ms c),
           ipc_peer_timeout_ms = get_int T i ''peer_timeout_ms'' (ipc_peer_timeout_ms c),
           ipc_spin_tries = get_int T i ''spin_tries'' (ipc_spin_tries c),
           ipc_dispatch_workers = get_int T i ''dispatch_workers'' (ipc_dispatch_workers c),
           ipc_req_ring_slots = get_int T i ''req_ring_slots'' (ipc_req_ring_slots c),
           ipc_rsp_ring_slots = get_int T i ''rsp_ring_slots'' (ipc_rsp_ring_slots c)\<rparr>)"

subsection \<open>Validation\<close>

text \<open>\<open>bad\<close> throws \<open>std::runtime_error\<close>: the first violated bound ends the validation.\<close>

definition bad_if :: "bool \<Rightarrow> 'a res \<Rightarrow> 'a res" where
  "bad_if c r = (if c then Inl Runtime_error else r)"

definition validate_uring :: "UringCfg \<Rightarrow> UringCfg res" where
  "validate_uring u =
     bad_if (u_sq_depth u < 16) (
     let sq = (if u_sq_depth u > 65536 then 65536 else u_sq_depth u) in
     bad_if (u_cq_depth u < 16) (
     let cq = (if u_cq_depth u < sq then sq else u_cq_depth u);
         cq' = (if cq > 131072 then 131072 else cq) in
     bad_if (u_workers u < 1) (
     let wk = (if u_workers u > 1024 then 1024 else u_workers u) in
     bad_if (u_rx_buf_bytes u < 4096) (
     let rx = (if u_rx_buf_bytes u > 16 * 1024 * 1024 then 16 * 1024 * 1024 else u_rx_buf_bytes u) in
     bad_if (u_send_backlog_limit_bytes u < 1) (
     bad_if (u_idle_timeout_ms u < 0) (
     let idle = (if u_idle_timeout_ms u > 3600000 then 3600000 else u_idle_timeout_ms u) in
     bad_if (u_accept_backlog u < 1) (
     let ab = (if u_accept_backlog u > 65535 then 65535 else u_accept_backlog u) in
     Inr (u\<lparr>u_sq_depth := sq, u_cq_depth := cq', u_workers := wk, u_rx_buf_bytes := rx,
            u_idle_timeout_ms := idle, u_accept_backlog := ab\<rparr>))))))))"

definition validate_ipc :: "IpcCfg \<Rightarrow> unit res" where
  "validate_ipc ipc =
     bad_if (ipc_mode ipc \<noteq> ''ring'' \<and> ipc_mode ipc \<noteq> ''inprocess'') (
     bad_if (ipc_shm_prefix ipc = []) (
     bad_if (ipc_instance ipc < 0 \<or> ipc_instance ipc > 99) (
     bad_if (ipc_open_timeout_ms ipc < 100) (
     bad_if (ipc_peer_timeout_ms ipc < 100) (
     bad_if (ipc_spin_tries ipc < 0 \<or> ipc_spin_tries ipc > 10000) (
     bad_if (ipc_dispatch_workers ipc < 1 \<or> ipc_dispatch_workers ipc > 1024) (
     bad_if (ipc_req_ring_slots ipc \<noteq> sint (kSlotCount kReqBits)) (
     bad_if (ipc_rsp_ring_slots ipc \<noteq> sint (kSlotCount kRspBits)) (
     Inr ())))))))))"

definition load_config :: "'n Toml \<Rightarrow> string \<Rightarrow> Config res" where
  "load_config T path =
     (case parse_file T path of
        None \<Rightarrow> Inl Runtime_error
      | Some doc \<Rightarrow>
          let srv = read_server T doc default_server in
          bad_if (srv_port srv < 1 \<or> srv_port srv > 65535) (
          case validate_uring (read_uring T doc default_uring) of
            Inl e \<Rightarrow> Inl e
          | Inr ur \<Rightarrow>
              let ipc = read_ipc T doc default_ipc in
              (case validate_ipc ipc of
                 Inl e \<Rightarrow> Inl e
               | Inr _ \<Rightarrow>
                   Inr \<lparr>cfg_server = srv, cfg_mysql = read_mysql T doc default_mysql,
                        cfg_redis = read_redis T doc default_redis, cfg_log = read_log T doc default_log,
                        cfg_uring = ur, cfg_ipc = ipc\<rparr>)))"

subsection \<open>Environment variables\<close>

definition override_instance :: "(string \<rightharpoonup> string) \<Rightarrow> Config \<Rightarrow> Config res" where
  "override_instance getenv cfg =
     (case getenv ''BIKE_INSTANCE'' of
        None \<Rightarrow> Inr cfg
      | Some s \<Rightarrow>
          (case atoi s of
             Inl e \<Rightarrow> Inl e
           | Inr v \<Rightarrow>
               if v \<ge> 0 \<and> v \<le> 99 then Inr (cfg\<lparr>cfg_ipc := (cfg_ipc cfg)\<lparr>ipc_instance := v\<rparr>\<rparr>) else Inr cfg))"

definition override_workers :: "(string \<rightharpoonup> string) \<Rightarrow> int \<Rightarrow> int res" where
  "override_workers getenv n =
     (case getenv ''BIKE_GATEWAY_WORKERS'' of
        None \<Rightarrow> Inr n
      | Some s \<Rightarrow> (case atoi s of Inl e \<Rightarrow> Inl e | Inr v \<Rightarrow> if v > 0 then Inr v else Inr n))"

definition override_log_file :: "(string \<rightharpoonup> string) \<Rightarrow> Config \<Rightarrow> Config" where
  "override_log_file getenv cfg =
     (case getenv ''BIKE_LOG_FILE'' of
        None \<Rightarrow> cfg
      | Some s \<Rightarrow> if s \<noteq> [] then cfg\<lparr>cfg_log := (cfg_log cfg)\<lparr>log_file := s\<rparr>\<rparr> else cfg)"

text \<open>The \<open>mlock\<close> switch of the ring files.\<close>

definition override_mlock :: "(string \<rightharpoonup> string) \<Rightarrow> bool res" where
  "override_mlock getenv =
     (case getenv ''BIKE_IPC_MLOCK'' of
        None \<Rightarrow> Inr True
      | Some s \<Rightarrow> (case atoi s of Inl e \<Rightarrow> Inl e | Inr v \<Rightarrow> Inr (v \<noteq> 0)))"

subsection \<open>What a loaded configuration satisfies\<close>

lemma bad_if_Inr [simp]: "bad_if c r = Inr x \<longleftrightarrow> \<not> c \<and> r = Inr x"
  by (simp add: bad_if_def)

definition uring_in_range :: "UringCfg \<Rightarrow> bool" where
  "uring_in_range u \<longleftrightarrow> 16 \<le> u_sq_depth u \<and> u_sq_depth u \<le> 65536 \<and>
     u_sq_depth u \<le> u_cq_depth u \<and> u_cq_depth u \<le> 131072 \<and>
     1 \<le> u_workers u \<and> u_workers u \<le> 1024 \<and>
     4096 \<le> u_rx_buf_bytes u \<and> u_rx_buf_bytes u \<le> 16777216 \<and> 1 \<le> u_send_backlog_limit_bytes u \<and>
     0 \<le> u_idle_timeout_ms u \<and> u_idle_timeout_ms u \<le> 3600000 \<and>
     1 \<le> u_accept_backlog u \<and> u_accept_backlog u \<le> 65535"

definition ipc_in_range :: "IpcCfg \<Rightarrow> bool" where
  "ipc_in_range i \<longleftrightarrow> ipc_mode i \<in> {''ring'', ''inprocess''} \<and> ipc_shm_prefix i \<noteq> [] \<and>
     ipc_instance i \<in> {0..99} \<and> 100 \<le> ipc_open_timeout_ms i \<and> 100 \<le> ipc_peer_timeout_ms i \<and>
     ipc_spin_tries i \<in> {0..10000} \<and> ipc_dispatch_workers i \<in> {1..1024} \<and>
     ipc_req_ring_slots i = 2 ^ kReqBits \<and> ipc_rsp_ring_slots i = 2 ^ kRspBits"

definition config_in_range :: "Config \<Rightarrow> bool" where
  "config_in_range cfg \<longleftrightarrow> srv_port (cfg_server cfg) \<in> {1..65535} \<and>
     uring_in_range (cfg_uring cfg) \<and> ipc_in_range (cfg_ipc cfg)"

lemma clamp_min: "(if x > b then b else x) = min b (x :: int)"
  by simp

lemma clamp_max: "(if x < b then b else x) = max b (x :: int)"
  by simp

lemma validate_uring_range:
  assumes "validate_uring u = Inr u'"
  shows "uring_in_range u'"
proof -
  have "\<not> u_sq_depth u < 16" "\<not> u_cq_depth u < 16" "\<not> u_workers u < 1" "\<not> u_rx_buf_bytes u < 4096"
    "\<not> u_send_backlog_limit_bytes u < 1" "\<not> u_idle_timeout_ms u < 0" "\<not> u_accept_backlog u < 1"
    using assms by (simp_all add: validate_uring_def Let_def)
  moreover have "u' = u\<lparr>u_sq_depth := min 65536 (u_sq_depth u),
      u_cq_depth := min 131072 (max (min 65536 (u_sq_depth u)) (u_cq_depth u)),
      u_workers := min 1024 (u_workers u), u_rx_buf_bytes := (if u_rx_buf_bytes u > 16 * 1024 * 1024 then 16 * 1024 * 1024 else u_rx_buf_bytes u),
      u_idle_timeout_ms := min 3600000 (u_idle_timeout_ms u),
      u_accept_backlog := min 65535 (u_accept_backlog u)\<rparr>"
    using assms by (simp add: validate_uring_def Let_def clamp_min clamp_max)
  ultimately show ?thesis by (simp add: uring_in_range_def)
qed

lemma validate_uring_id:
  "uring_in_range u \<Longrightarrow> validate_uring u = Inr u"
  by (simp add: validate_uring_def Let_def uring_in_range_def bad_if_def)

lemma slot_counts: "sint (kSlotCount kReqBits) = 512" "sint (kSlotCount kRspBits) = 256"
  by (simp_all add: kSlotCount_def kReqBits_def kRspBits_def)

lemma ring_powers: "(2 :: int) ^ kReqBits = 512" "(2 :: int) ^ kRspBits = 256"
  by (simp_all add: kReqBits_def kRspBits_def)

lemma validate_ipc_range: "validate_ipc i = Inr () \<longleftrightarrow> ipc_in_range i"
  by (auto simp: validate_ipc_def ipc_in_range_def slot_counts ring_powers)

lemma load_config_cases:
  assumes "load_config T path = Inr cfg"
  obtains doc where "parse_file T path = Some doc"
    "cfg_server cfg = read_server T doc default_server"
    "validate_uring (read_uring T doc default_uring) = Inr (cfg_uring cfg)"
    "cfg_ipc cfg = read_ipc T doc default_ipc" "validate_ipc (cfg_ipc cfg) = Inr ()"
    "srv_port (cfg_server cfg) \<in> {1..65535}"
  using assms by (fastforce simp: load_config_def Let_def split: option.splits sum.splits)

text \<open>
  Property C36: a configuration that loads is in range, whatever the file holds: the port, the
  depths of the queues, the number of workers, the buffer sizes and timeouts are within their
  documented limits and the ring sizes are those the two processes were compiled with. Validating
  the engine's section again changes nothing.
\<close>

theorem load_config_in_range:
  assumes "load_config T path = Inr cfg"
  shows "config_in_range cfg \<and> validate_uring (cfg_uring cfg) = Inr (cfg_uring cfg)"
proof -
  obtain doc where "validate_uring (read_uring T doc default_uring) = Inr (cfg_uring cfg)"
    "validate_ipc (cfg_ipc cfg) = Inr ()" "srv_port (cfg_server cfg) \<in> {1..65535}"
    by (rule load_config_cases [OF assms])
  then show ?thesis
    by (simp add: config_in_range_def validate_ipc_range validate_uring_id validate_uring_range)
qed

text \<open>A TOML library whose nodes are integers, strings and tables.\<close>

datatype demo_node = NInt int | NStr string | NTable "(string \<times> demo_node) list"

definition demo_toml :: "(string \<times> demo_node) list \<Rightarrow> demo_node Toml" where
  "demo_toml doc = \<lparr>parse_file = (\<lambda>_. Some (map_of doc)),
     as_table = (\<lambda>n. case n of NTable kvs \<Rightarrow> Some (map_of kvs) | _ \<Rightarrow> None),
     value_string = (\<lambda>n. case n of NStr s \<Rightarrow> Some s | _ \<Rightarrow> None),
     value_int64 = (\<lambda>n. case n of NInt i \<Rightarrow> Some i | _ \<Rightarrow> None)\<rparr>"

lemmas config_defs = load_config_def read_server_def read_mysql_def read_redis_def read_log_def
  read_uring_def read_ipc_def section_of_def get_int_def get_or_def default_config_def default_server_def
  default_mysql_def default_redis_def default_log_def default_uring_def default_ipc_def
  validate_uring_def validate_ipc_def bad_if_def slot_counts demo_toml_def narrow_i32_def

lemma load_config_empty: "load_config (demo_toml []) path = Inr default_config"
  by (simp add: config_defs)

text \<open>A port beyond the range of \<open>int\<close> is narrowed before it is checked.\<close>

lemma port_wraps:
  "\<exists>cfg. load_config (demo_toml [(''server'', NTable [(''port'', NInt 4294976184)])]) path = Inr cfg \<and>
     srv_port (cfg_server cfg) = 8888"
  by (simp add: config_defs)

theorem load_config_in_range_witness:
  "load_config (demo_toml []) [] = Inr default_config \<and> config_in_range default_config"
  using load_config_in_range [OF load_config_empty] load_config_empty by blast

text \<open>
  A depth of the submission queue between 16 and 127 passes the validation of the
  file, and the engine refuses to start with it.
\<close>

theorem small_sq_depth_accepted:
  assumes "parse_file T path = Some doc" "doc ''server'' = None" "doc ''ipc'' = None"
    and "section_of T doc ''uring'' = Some u" "u ''sq_depth'' = Some n" "value_int64 T n = Some d"
    and "\<forall>k. k \<noteq> ''sq_depth'' \<longrightarrow> u k = None" "16 \<le> d" "d < 128"
    and "sq_depth opt = d"
  shows "\<exists>cfg. load_config T path = Inr cfg \<and> u_sq_depth (cfg_uring cfg) = d \<and>
    validate_sq_capacity opt = Inl Runtime_error"
proof -
  have "narrow_i32 d = d" using assms(8,9) by (intro narrow_i32_id) (simp add: i32_defs)
  moreover have "read_uring T doc default_uring = default_uring\<lparr>u_sq_depth := narrow_i32 d\<rparr>"
    using assms(4-7) by (simp add: read_uring_def get_int_def get_or_def default_uring_def narrow_i32_def)
  ultimately show ?thesis
    using assms by (simp add: load_config_def read_server_def read_ipc_def section_of_def Let_def
        default_server_def default_ipc_def bad_if_def validate_uring_def validate_ipc_def
        default_uring_def slot_counts validate_sq_capacity_def kMinSqDepth_def)
qed

theorem small_sq_depth_accepted_witness:
  "\<exists>cfg. load_config (demo_toml [(''uring'', NTable [(''sq_depth'', NInt 64)])]) [] = Inr cfg \<and>
     u_sq_depth (cfg_uring cfg) = 64 \<and>
     validate_sq_capacity \<lparr>rx_buf_bytes = 65536, send_backlog_limit = 1048576, idle_timeout = 60000, sq_depth = 64\<rparr>
       = Inl Runtime_error"
  by (rule small_sq_depth_accepted
      [where doc = "map_of [(''uring'', NTable [(''sq_depth'', NInt 64)])]" and u = "map_of [(''sq_depth'', NInt 64)]"
        and n = "NInt 64"])
    (simp_all add: demo_toml_def section_of_def)

end
