(* ===== verification/ShmRegion.thy ===== *)
theory ShmRegion
  imports SpscRing
begin

text \<open>
  Creating, recovering and opening the two shared-memory files
  (server/src/ipc/shm_region.cpp). A file is its size, its typed header, its ring headers
  and whether another creator holds its lock. The kernel is an argument: which calls fail,
  which pids are alive and the clock. Mapping zero bytes fails, as \<open>mmap\<close> documents.
\<close>

record ShmFileHeader =
  fh_magic :: u32
  fh_version :: u32
  fh_ring_count :: u32
  fh_slot_count :: u32
  fh_slot_size :: u32
  fh_total_bytes :: u64
  fh_created_ns :: u64

record ShmFile =
  f_size :: nat
  f_header :: ShmFileHeader
  f_hdrs :: "RingHeader list"
  f_locked :: bool

record Params =
  prefix_of :: string
  instance_no :: int
  workers :: nat

record Kernel =
  shm_open_fails :: bool
  ftruncate_fails :: bool
  fstat_fails :: bool
  mmap_fails :: bool
  flock_fails :: bool
  alive_pid :: "u32 \<Rightarrow> bool"
  clock_ns :: u64

type_synonym shm_fs = "string \<rightharpoonup> ShmFile"

definition zero_header :: ShmFileHeader where
  "zero_header = \<lparr>fh_magic = 0, fh_version = 0, fh_ring_count = 0, fh_slot_count = 0,
     fh_slot_size = 0, fh_total_bytes = 0, fh_created_ns = 0\<rparr>"

definition zero_ring_header :: RingHeader where
  "zero_ring_header = \<lparr>head = 0, producer_pid = 0, producer_heartbeat_ns = 0,
     tail = 0, consumer_pid = 0, consumer_heartbeat_ns = 0\<rparr>"

definition shm_name_of :: "Params \<Rightarrow> string \<Rightarrow> string" where
  "shm_name_of p suffix = ''/'' @ prefix_of p @ std_to_string (instance_no p) @ suffix"

definition do_mmap :: "Kernel \<Rightarrow> nat \<Rightarrow> unit res" where
  "do_mmap kn bytes = (if mmap_fails kn \<or> bytes = 0 then Inl Runtime_error else Inr ())"

definition write_headers :: "Kernel \<Rightarrow> nat \<Rightarrow> u32 \<Rightarrow> nat \<Rightarrow> nat \<Rightarrow> ShmFile \<Rightarrow> ShmFile" where
  "write_headers kn ring_count slot_count slot_size tot f =
     f\<lparr>f_header := \<lparr>fh_magic = kShmMagic, fh_version = kShmVersion,
                    fh_ring_count = word_of_nat ring_count, fh_slot_count = slot_count,
                    fh_slot_size = word_of_nat slot_size, fh_total_bytes = word_of_nat tot,
                    fh_created_ns = clock_ns kn\<rparr>,
       f_hdrs := replicate ring_count zero_ring_header\<rparr>"

definition lock_file_exclusive :: "Kernel \<Rightarrow> ShmFile \<Rightarrow> unit res" where
  "lock_file_exclusive kn f =
     (if f_locked f then Inl Runtime_error
      else if flock_fails kn then Inl Runtime_error else Inr ())"

definition kInUseHbLimitNs :: u64 where "kInUseHbLimitNs = 3 * 1000000000"

definition pid_alive :: "Kernel \<Rightarrow> u32 \<Rightarrow> bool" where
  "pid_alive kn pid = (if pid = 0 then False else alive_pid kn pid)"

text \<open>The peer is judged by the first ring header of the file.\<close>

definition peer_in_use :: "Kernel \<Rightarrow> ShmFile \<Rightarrow> bool \<Rightarrow> bool" where
  "peer_in_use kn f peer_is_producer =
     (let h0 = hd (f_hdrs f);
          pid = (if peer_is_producer then producer_pid h0 else consumer_pid h0) in
      if \<not> pid_alive kn pid then False
      else
        let hb = (if peer_is_producer then producer_heartbeat_ns h0 else consumer_heartbeat_ns h0) in
        if hb = 0 then False else clock_ns kn - hb < kInUseHbLimitNs)"

text \<open>\<open>shm_create\<close> returns False when the name exists; a failed \<open>ftruncate\<close> removes the
  name again, a failed \<open>mmap\<close> leaves the new file behind.\<close>

definition shm_create :: "Kernel \<Rightarrow> string \<Rightarrow> nat \<Rightarrow> shm_fs \<Rightarrow> bool res \<times> shm_fs" where
  "shm_create kn name tot fs =
     (if name \<in> dom fs then (Inr False, fs)
      else if shm_open_fails kn then (Inl Runtime_error, fs)
      else if ftruncate_fails kn then (Inl Runtime_error, fs)
      else
        let fs' = fs(name \<mapsto> \<lparr>f_size = tot, f_header = zero_header, f_hdrs = [], f_locked = False\<rparr>)
        in case do_mmap kn tot of Inl e \<Rightarrow> (Inl e, fs') | Inr _ \<Rightarrow> (Inr True, fs'))"

definition shm_open_existing :: "Kernel \<Rightarrow> string \<Rightarrow> shm_fs \<Rightarrow> nat res" where
  "shm_open_existing kn name fs =
     (case fs name of None \<Rightarrow> Inl Runtime_error
      | Some f \<Rightarrow>
          if shm_open_fails kn then Inl Runtime_error
          else if fstat_fails kn then Inl Runtime_error
          else case do_mmap kn (f_size f) of Inl e \<Rightarrow> Inl e | Inr _ \<Rightarrow> Inr (f_size f))"

definition validate_file :: "ShmFile \<Rightarrow> nat \<Rightarrow> nat \<Rightarrow> u32 \<Rightarrow> nat \<Rightarrow> nat \<Rightarrow> bool" where
  "validate_file f bytes ring_count slot_count slot_size tot =
     (if bytes \<noteq> tot then False
      else fh_magic (f_header f) = kShmMagic \<and> fh_version (f_header f) = kShmVersion \<and>
           fh_ring_count (f_header f) = word_of_nat ring_count \<and>
           fh_slot_count (f_header f) = slot_count \<and>
           fh_slot_size (f_header f) = word_of_nat slot_size \<and>
           fh_total_bytes (f_header f) = word_of_nat tot)"

definition reinit_file :: "Kernel \<Rightarrow> nat \<Rightarrow> u32 \<Rightarrow> nat \<Rightarrow> nat \<Rightarrow> ShmFile \<Rightarrow> ShmFile res" where
  "reinit_file kn ring_count slot_count slot_size tot f =
     (if ftruncate_fails kn then Inl Runtime_error
      else Inr (write_headers kn ring_count slot_count slot_size tot (f\<lparr>f_size := tot\<rparr>)))"

text \<open>
  \<open>map_all\<close> treats its two files alike; \<open>map_file\<close> is that treatment, for the creator
  and for the opener. The result carries the namespace also when it throws, since a throw
  keeps what was done before it.
\<close>

definition recover_file ::
  "Kernel \<Rightarrow> string \<Rightarrow> nat \<Rightarrow> u32 \<Rightarrow> nat \<Rightarrow> nat \<Rightarrow> bool \<Rightarrow> bool \<Rightarrow> nat \<Rightarrow> shm_fs \<Rightarrow> unit res \<times> shm_fs" where
  "recover_file kn name n slot_count slot_size tot peer_is_producer fresh bytes fs =
     (let f = the (fs name) in
      case lock_file_exclusive kn f of Inl e \<Rightarrow> (Inl e, fs)
      | Inr _ \<Rightarrow>
          if fresh then (Inr (), fs(name \<mapsto> write_headers kn n slot_count slot_size tot f))
          else if \<not> validate_file f bytes n slot_count slot_size tot then
            (case (if bytes \<noteq> tot then do_mmap kn tot else Inr ()) of Inl e \<Rightarrow> (Inl e, fs)
             | Inr _ \<Rightarrow>
                 (case reinit_file kn n slot_count slot_size tot f of Inl e \<Rightarrow> (Inl e, fs)
                  | Inr f' \<Rightarrow> (Inr (), fs(name \<mapsto> f'))))
          else if peer_in_use kn f peer_is_producer then (Inl Runtime_error, fs)
          else
            (case reinit_file kn n slot_count slot_size tot f of Inl e \<Rightarrow> (Inl e, fs)
             | Inr f' \<Rightarrow> (Inr (), fs(name \<mapsto> f'))))"

definition map_file ::
  "Kernel \<Rightarrow> bool \<Rightarrow> string \<Rightarrow> nat \<Rightarrow> u32 \<Rightarrow> nat \<Rightarrow> nat \<Rightarrow> bool \<Rightarrow> shm_fs \<Rightarrow> unit res \<times> shm_fs" where
  "map_file kn creator_side name n slot_count slot_size tot peer_is_producer fs =
     (if creator_side then
        case shm_create kn name tot fs of
          (Inl e, fs') \<Rightarrow> (Inl e, fs')
        | (Inr True, fs') \<Rightarrow>
            recover_file kn name n slot_count slot_size tot peer_is_producer True tot fs'
        | (Inr False, fs') \<Rightarrow>
            (case shm_open_existing kn name fs' of Inl e \<Rightarrow> (Inl e, fs')
             | Inr bytes \<Rightarrow>
                 recover_file kn name n slot_count slot_size tot peer_is_producer False bytes fs')
      else
        case shm_open_existing kn name fs of Inl e \<Rightarrow> (Inl e, fs)
        | Inr bytes \<Rightarrow>
            if \<not> validate_file (the (fs name)) bytes n slot_count slot_size tot
            then (Inl Runtime_error, fs) else (Inr (), fs))"

definition req_total_bytes :: "Params \<Rightarrow> nat" where
  "req_total_bytes p =
     layout_total_bytes (compute_file_layout (workers p) (kRegionBytes kReqSlotSize kReqBits))"

definition rsp_total_bytes :: nat where
  "rsp_total_bytes = layout_total_bytes (compute_file_layout 1 (kRegionBytes kRspSlotSize kRspBits))"

definition map_all :: "Kernel \<Rightarrow> Params \<Rightarrow> bool \<Rightarrow> shm_fs \<Rightarrow> unit res \<times> shm_fs" where
  "map_all kn p creator_side fs =
     (case map_file kn creator_side (shm_name_of p ''_req'') (workers p) (kSlotCount kReqBits)
             kReqSlotSize (req_total_bytes p) True fs of
        (Inl e, fs') \<Rightarrow> (Inl e, fs')
      | (Inr _, fs') \<Rightarrow>
          map_file kn creator_side (shm_name_of p ''_rsp'') 1 (kSlotCount kRspBits)
            kRspSlotSize rsp_total_bytes False fs')"

definition create_or_recover :: "Kernel \<Rightarrow> Params \<Rightarrow> shm_fs \<Rightarrow> unit res \<times> shm_fs" where
  "create_or_recover kn p fs = map_all kn p True fs"

text \<open>
  \<open>open\<close> retries every 100 ms until its deadline: one element of the list is the kernel
  and the namespace that one attempt meets, and whether the deadline has passed by then.
\<close>

fun open_region :: "Params \<Rightarrow> (Kernel \<times> shm_fs \<times> bool) list \<Rightarrow> unit res option" where
  "open_region p [] = None"
| "open_region p ((kn, fs, late) # rest) =
     (case fst (map_all kn p False fs) of
        Inr _ \<Rightarrow> Some (Inr ())
      | Inl e \<Rightarrow> if late then Some (Inl Runtime_error) else open_region p rest)"

text \<open>Attached views: the offsets of a ring's header and of its first slot in the file.\<close>

record View =
  view_hdr :: nat
  view_slots :: nat

definition attach_req_views :: "Params \<Rightarrow> View list" where
  "attach_req_views p =
     (let l = compute_file_layout (workers p) (kRegionBytes kReqSlotSize kReqBits) in
      map (\<lambda>i. \<lparr>view_hdr = headers_offset l + i * sizeof_RingHeader,
                view_slots = slots_offset l + i * unat (kSlotCount kReqBits) * kReqSlotSize\<rparr>)
        [0..<workers p])"

definition attach_rsp_view :: View where
  "attach_rsp_view =
     (let l = compute_file_layout 1 (kRegionBytes kRspSlotSize kRspBits) in
      \<lparr>view_hdr = headers_offset l, view_slots = slots_offset l\<rparr>)"

definition req_notify_path :: "string \<Rightarrow> Params \<Rightarrow> string" where
  "req_notify_path shm_root p = shm_root @ ''/'' @ prefix_of p @ std_to_string (instance_no p) @ ''_req_notify''"

definition rsp_notify_path :: "string \<Rightarrow> Params \<Rightarrow> string" where
  "rsp_notify_path shm_root p = shm_root @ ''/'' @ prefix_of p @ std_to_string (instance_no p) @ ''_rsp_notify''"

subsection \<open>Lemmas\<close>

text \<open>A file as the creator leaves it: right size, valid header, every ring empty.\<close>

definition fresh_file :: "ShmFile \<Rightarrow> nat \<Rightarrow> u32 \<Rightarrow> nat \<Rightarrow> nat \<Rightarrow> bool" where
  "fresh_file f n slot_count slot_size tot \<longleftrightarrow> f_size f = tot \<and>
     validate_file f tot n slot_count slot_size tot \<and> f_hdrs f = replicate n zero_ring_header"

lemma fresh_write_headers:
  "f_size f = tot \<Longrightarrow> fresh_file (write_headers kn n sc sz tot f) n sc sz tot"
  by (simp add: fresh_file_def write_headers_def validate_file_def)

lemma fresh_reinit:
  "reinit_file kn n sc sz tot f = Inr f' \<Longrightarrow> fresh_file f' n sc sz tot"
  by (auto simp: reinit_file_def fresh_write_headers split: if_splits)

lemma recover_file_fresh:
  assumes "recover_file kn name n sc sz tot peer fresh bytes fs = (Inr (), fs')"
    "fresh \<Longrightarrow> f_size (the (fs name)) = tot"
  shows "\<exists>f. fs' name = Some f \<and> fresh_file f n sc sz tot \<and> (\<forall>m. m \<noteq> name \<longrightarrow> fs' m = fs m)"
  using assms
  by (auto simp: recover_file_def Let_def fresh_write_headers
      split: sum.splits if_splits dest!: fresh_reinit)

lemma shm_create_cases:
  "shm_create kn name tot fs = (Inr True, fs') \<Longrightarrow>
     fs' = fs(name \<mapsto> \<lparr>f_size = tot, f_header = zero_header, f_hdrs = [], f_locked = False\<rparr>)"
  "shm_create kn name tot fs = (Inr False, fs') \<Longrightarrow> fs' = fs \<and> name \<in> dom fs"
  by (auto simp: shm_create_def Let_def split: if_splits sum.splits)

lemma shm_create_existing: "fs name = Some f \<Longrightarrow> shm_create kn name tot fs = (Inr False, fs)"
  by (simp add: shm_create_def dom_def)

lemma map_file_creator:
  assumes "map_file kn True name n sc sz tot peer fs = (Inr (), fs')"
  shows "\<exists>f. fs' name = Some f \<and> fresh_file f n sc sz tot \<and> (\<forall>m. m \<noteq> name \<longrightarrow> fs' m = fs m)"
proof -
  obtain c fs1 where c: "shm_create kn name tot fs = (c, fs1)" by fastforce
  show ?thesis
  proof (cases c)
    case (Inl e)
    with assms c show ?thesis by (simp add: map_file_def)
  next
    case (Inr b)
    show ?thesis
    proof (cases b)
      case True
      with assms c Inr shm_create_cases(1) [of kn name tot fs fs1] show ?thesis
        by (auto simp: map_file_def dest!: recover_file_fresh)
    next
      case False
      with assms c Inr shm_create_cases(2) [of kn name tot fs fs1] show ?thesis
        by (auto simp: map_file_def split: sum.splits dest!: recover_file_fresh)
    qed
  qed
qed

lemma shm_names_distinct: "shm_name_of p ''_req'' \<noteq> shm_name_of p ''_rsp''"
  by (simp add: shm_name_of_def)

lemma map_all_creator:
  assumes "map_all kn p True fs = (Inr (), fs')"
  shows "\<exists>f. fs' (shm_name_of p ''_req'') = Some f \<and>
      fresh_file f (workers p) (kSlotCount kReqBits) kReqSlotSize (req_total_bytes p)"
    and "\<exists>f. fs' (shm_name_of p ''_rsp'') = Some f \<and>
      fresh_file f 1 (kSlotCount kRspBits) kRspSlotSize rsp_total_bytes"
  using assms shm_names_distinct [of p]
  by (auto simp: map_all_def split: prod.splits sum.splits dest!: map_file_creator)

definition kernel_ok :: "Kernel \<Rightarrow> bool" where
  "kernel_ok kn \<longleftrightarrow> \<not> shm_open_fails kn \<and> \<not> ftruncate_fails kn \<and> \<not> fstat_fails kn \<and>
     \<not> mmap_fails kn \<and> \<not> flock_fails kn"

lemma map_file_opener:
  assumes "fs name = Some f" "fresh_file f n sc sz tot" "0 < tot" "kernel_ok kn"
  shows "map_file kn False name n sc sz tot peer fs = (Inr (), fs)"
  using assms
  by (simp add: map_file_def shm_open_existing_def do_mmap_def kernel_ok_def fresh_file_def)

lemma align_up_bounds: "0 < a \<Longrightarrow> v \<le> align_up v a" "0 < a \<Longrightarrow> align_up v a < v + a" "a dvd align_up v a"
proof -
  assume a: "0 < a"
  have "(v + a - 1) div a * a + (v + a - 1) mod a = v + a - 1" by (rule div_mult_mod_eq)
  moreover have "(v + a - 1) mod a < a" using a by simp
  ultimately show "v \<le> align_up v a" "align_up v a < v + a"
    using a unfolding align_up_def by linarith+
qed (simp add: align_up_def)

lemma align_up_mono: "u \<le> v \<Longrightarrow> align_up u a \<le> align_up v a"
  by (simp add: align_up_def div_le_mono)

lemma layout_mono:
  assumes "m < n" "0 < b"
  shows "layout_total_bytes (compute_file_layout m b) < layout_total_bytes (compute_file_layout n b)"
proof -
  have "align_up (sizeof_ShmFileHeader + m * sizeof_RingHeader) kPageAlign
      \<le> align_up (sizeof_ShmFileHeader + n * sizeof_RingHeader) kPageAlign"
    using assms by (intro align_up_mono) simp
  moreover have "m * b < n * b" using assms by simp
  ultimately show ?thesis
    unfolding compute_file_layout_def Let_def by (simp only: RingFileLayout.simps add_le_less_mono)
qed

lemma kRegionBytes_pos [simp]:
  "0 < kRegionBytes kReqSlotSize kReqBits" "0 < kRegionBytes kRspSlotSize kRspBits"
  by (simp_all add: kRegionBytes_def kReqSlotSize_def kReqBits_def kRspSlotSize_def kRspBits_def
      kSlotCount_def)

lemma total_pos [simp]: "0 < req_total_bytes p" "0 < rsp_total_bytes"
  using align_up_bounds(1) [of kPageAlign "sizeof_ShmFileHeader + workers p * sizeof_RingHeader"]
  by (auto simp: req_total_bytes_def rsp_total_bytes_def compute_file_layout_def Let_def
      kPageAlign_def sizeof_ShmFileHeader_def)

lemma created_opens:
  assumes "create_or_recover kn p fs = (Inr (), fs')" "kernel_ok kn'"
  shows "map_all kn' p False fs' = (Inr (), fs')"
proof -
  from assms(1) have "map_all kn p True fs = (Inr (), fs')" by (simp add: create_or_recover_def)
  from map_all_creator [OF this] obtain f g where
    f: "fs' (shm_name_of p ''_req'') = Some f"
      "fresh_file f (workers p) (kSlotCount kReqBits) kReqSlotSize (req_total_bytes p)" and
    g: "fs' (shm_name_of p ''_rsp'') = Some g"
      "fresh_file g 1 (kSlotCount kRspBits) kRspSlotSize rsp_total_bytes" by auto
  show ?thesis
    by (simp add: map_all_def map_file_opener [where fs = fs', OF f(1) f(2) total_pos(1) assms(2)]
        map_file_opener [where fs = fs', OF g(1) g(2) total_pos(2) assms(2)] del: One_nat_def)
qed

text \<open>A gateway that starts first keeps trying until the region is there.\<close>

lemma open_region_waits:
  assumes "map_all kn p False fs = (Inr (), fs)" "\<forall>(k, f, late) \<in> set before. \<not> late"
  shows "open_region p (before @ (kn, fs, late) # rest) = Some (Inr ())"
  using assms(2)
proof (induction before)
  case Nil
  then show ?case using assms(1) by simp
next
  case (Cons b bs)
  obtain k f l where "b = (k, f, l)" by (cases b) auto
  then show ?case using Cons by (auto split: sum.split)
qed

subsection \<open>Properties\<close>

text \<open>After the dispatch process has created or recovered the region, a gateway
  with the same parameters opens it, and every ring it attaches to is empty with its counters
  at zero, whatever stale files were there before.\<close>

theorem create_then_open:
  assumes "create_or_recover kn p fs = (Inr (), fs')" "kernel_ok kn'"
  shows "map_all kn' p False fs' = (Inr (), fs') \<and>
    (\<forall>name \<in> {shm_name_of p ''_req'', shm_name_of p ''_rsp''}.
       \<forall>h \<in> set (f_hdrs (the (fs' name))). h = zero_ring_header)"
  using created_opens [OF assms] map_all_creator [of kn p fs fs'] assms(1)
  by (auto simp: create_or_recover_def fresh_file_def)

text \<open>Processes configured with different worker numbers never share a region: the
  gateway refuses a region that was created for another number of request rings.\<close>

theorem open_wrong_workers:
  assumes "create_or_recover kn p fs = (Inr (), fs')" "workers p \<noteq> n"
  shows "fst (map_all kn' (p\<lparr>workers := n\<rparr>) False fs') = Inl Runtime_error"
proof -
  from assms(1) have "map_all kn p True fs = (Inr (), fs')" by (simp add: create_or_recover_def)
  from map_all_creator(1) [OF this] obtain f where
    f: "fs' (shm_name_of p ''_req'') = Some f" "f_size f = req_total_bytes p"
    by (auto simp: fresh_file_def)
  have ne: "req_total_bytes p \<noteq> req_total_bytes (p\<lparr>workers := n\<rparr>)"
    using layout_mono [of n "workers p", OF _ kRegionBytes_pos(1)] assms(2)
      layout_mono [of "workers p" n, OF _ kRegionBytes_pos(1)]
    by (cases "n < workers p") (simp_all add: req_total_bytes_def)
  have "shm_name_of (p\<lparr>workers := n\<rparr>) ''_req'' = shm_name_of p ''_req''"
    by (simp add: shm_name_of_def)
  with f ne have "fst (map_file kn' False (shm_name_of (p\<lparr>workers := n\<rparr>) ''_req'') n
      (kSlotCount kReqBits) kReqSlotSize (req_total_bytes (p\<lparr>workers := n\<rparr>)) True fs') = Inl Runtime_error"
    by (simp add: map_file_def shm_open_existing_def do_mmap_def validate_file_def)
  then show ?thesis by (auto simp: map_all_def split: prod.splits sum.splits)
qed


text \<open>An empty left-over file is not recovered. When a creator died between creating
  the name and sizing it, every later creation throws at \<open>mmap\<close>, on any kernel, and changes
  nothing, so that the restart loop never ends by itself.\<close>

theorem empty_file_not_recovered:
  assumes "fs (shm_name_of p ''_req'') = Some f" "f_size f = 0"
  shows "create_or_recover kn p fs = (Inl Runtime_error, fs)"
  using assms
  by (simp add: create_or_recover_def map_all_def map_file_def shm_create_existing
      shm_open_existing_def do_mmap_def)

text \<open>The rings of a file do not overlap. Headers lie between the file header and
  the slots, the slot areas start on a page boundary, follow each other without overlap and
  end with the file.\<close>

theorem layout_disjoint:
  assumes "l = compute_file_layout n b" "i < j" "j < n"
  shows "kPageAlign dvd slots_offset l \<and>
    headers_offset l + n * sizeof_RingHeader \<le> slots_offset l \<and>
    slots_offset l + i * ring_stride l + b \<le> slots_offset l + j * ring_stride l \<and>
    slots_offset l + j * ring_stride l + b \<le> layout_total_bytes l"
proof -
  have step: "x < y \<Longrightarrow> x * b + b \<le> y * b" for x y :: nat
    using mult_le_mono1 [of "Suc x" y b] by simp
  show ?thesis
    using assms step [of i j] step [of j n] align_up_bounds(3) [of kPageAlign]
      align_up_bounds(1) [of kPageAlign "sizeof_ShmFileHeader + n * sizeof_RingHeader"]
    by (simp add: compute_file_layout_def Let_def kPageAlign_def)
qed

subsection \<open>Witnesses\<close>

definition demo_kernel :: Kernel where
  "demo_kernel = \<lparr>shm_open_fails = False, ftruncate_fails = False, fstat_fails = False,
     mmap_fails = False, flock_fails = False, alive_pid = (\<lambda>_. True), clock_ns = 5000000000\<rparr>"

definition demo_params :: Params where
  "demo_params = \<lparr>prefix_of = ''bike'', instance_no = 0, workers = 2\<rparr>"

lemma demo_create:
  "\<exists>fs'. create_or_recover demo_kernel p Map.empty = (Inr (), fs')"
proof -
  have "map_file demo_kernel True name n sc sz tot peer fs =
      (Inr (), fs(name \<mapsto> write_headers demo_kernel n sc sz tot
        \<lparr>f_size = tot, f_header = zero_header, f_hdrs = [], f_locked = False\<rparr>))"
    if "0 < tot" "fs name = None" for name n sc sz tot peer fs
    using that
    by (simp add: map_file_def shm_create_def demo_kernel_def do_mmap_def recover_file_def
        lock_file_exclusive_def dom_def)
  then show ?thesis
    using shm_names_distinct [of p] by (simp add: create_or_recover_def map_all_def)
qed

theorem create_then_open_witness:
  "\<exists>fs'. create_or_recover demo_kernel demo_params Map.empty = (Inr (), fs') \<and>
     map_all demo_kernel demo_params False fs' = (Inr (), fs')"
proof -
  obtain fs' where c: "create_or_recover demo_kernel demo_params Map.empty = (Inr (), fs')"
    using demo_create by blast
  have "kernel_ok demo_kernel" by (simp add: kernel_ok_def demo_kernel_def)
  from create_then_open [OF c this] c show ?thesis by blast
qed

theorem open_wrong_workers_witness:
  "\<exists>fs'. create_or_recover demo_kernel demo_params Map.empty = (Inr (), fs') \<and>
     fst (map_all demo_kernel (demo_params\<lparr>workers := 3\<rparr>) False fs') = Inl Runtime_error"
proof -
  obtain fs' where c: "create_or_recover demo_kernel demo_params Map.empty = (Inr (), fs')"
    using demo_create by blast
  have "workers demo_params \<noteq> 3" by (simp add: demo_params_def)
  from open_wrong_workers [OF c this, of demo_kernel] c show ?thesis by blast
qed

definition demo_file :: ShmFile where
  "demo_file = (write_headers demo_kernel 2 (kSlotCount kReqBits) kReqSlotSize
     (req_total_bytes demo_params) \<lparr>f_size = req_total_bytes demo_params, f_header = zero_header,
       f_hdrs = [], f_locked = False\<rparr>)
     \<lparr>f_hdrs := [zero_ring_header\<lparr>producer_pid := 42, producer_heartbeat_ns := 4000000000\<rparr>]\<rparr>"


theorem empty_file_not_recovered_witness:
  "create_or_recover demo_kernel demo_params [shm_name_of demo_params ''_req'' \<mapsto> demo_file\<lparr>f_size := 0\<rparr>]
     = (Inl Runtime_error, [shm_name_of demo_params ''_req'' \<mapsto> demo_file\<lparr>f_size := 0\<rparr>])"
  by (rule empty_file_not_recovered [where f = "demo_file\<lparr>f_size := 0\<rparr>"]) simp_all

theorem layout_disjoint_witness:
  "slots_offset (compute_file_layout 8 2097152) + 3 * 2097152 + 2097152
     \<le> slots_offset (compute_file_layout 8 2097152) + 5 * 2097152"
  using layout_disjoint [of "compute_file_layout 8 2097152" 8 2097152 3 5]
  by (simp add: compute_file_layout_def Let_def)

end
