(* ===== verification/Dispatch.thy ===== *)
theory Dispatch
  imports RingEnds
begin

text \<open>
  The dispatch process (server/src/dispatch/dispatch_main.cpp): the callback that turns a
  request slot into a task of the business thread pool, the task that runs the handler and
  posts the stamped reply, the flush of replies into the response ring, and one round of
  the reader loop with heartbeats and peer detection.
\<close>

subsection \<open>Tasks\<close>

record Task =
  tk_conn_id :: u64
  tk_eid :: u16
  tk_seq :: u32
  tk_one_way :: bool
  tk_payload :: bytes

record 'c Disp =
  d_tasks :: "Task list"
  d_inflight :: u32
  d_consumed :: u64
  d_replies :: ReplyQueue
  d_ctx :: 'c

text \<open>The callback; \<open>alloc_fails\<close> and \<open>post_fails\<close> say where memory runs out.\<close>

definition on_request :: "(Slot \<Rightarrow> bool) \<Rightarrow> (Slot \<Rightarrow> bool) \<Rightarrow> Slot \<Rightarrow> 'c Disp \<Rightarrow> 'c Disp" where
  "on_request alloc_fails post_fails slot d =
     (let pk = pkt slot in
      if unat (payload_len pk) > kPayloadMax kReqSlotSize then d
      else if alloc_fails slot then d
      else
        let task = \<lparr>tk_conn_id = conn_id pk, tk_eid = pkt_event_id pk, tk_seq = pkt_seq pk,
                    tk_one_way = (flags pk AND kFlagOneWay \<noteq> 0),
                    tk_payload = take (unat (payload_len pk)) (payload slot)\<rparr>;
            d1 = d\<lparr>d_inflight := d_inflight d + 1\<rparr>;
            d2 = (if post_fails slot then d1\<lparr>d_inflight := d_inflight d1 - 1\<rparr>
                  else d1\<lparr>d_tasks := d_tasks d1 @ [task]\<rparr>)
        in d2\<lparr>d_consumed := d_consumed d2 + 1\<rparr>)"

text \<open>The body of a task. A handler that throws leaves no reply; on every path the quota is
  returned after the reply, if any, has been queued.\<close>

definition run_task :: "'c Router \<Rightarrow> Task \<Rightarrow> 'c Disp \<Rightarrow> 'c Disp" where
  "run_task rt tk d =
     (case router_dispatch rt (tk_eid tk) (tk_payload tk) (d_ctx d) of
        (Inl e, ctx) \<Rightarrow> d\<lparr>d_ctx := ctx, d_inflight := d_inflight d - 1\<rparr>
      | (Inr frame, ctx) \<Rightarrow>
          let d1 = d\<lparr>d_ctx := ctx\<rparr>;
              d2 = (if \<not> tk_one_way tk \<and> frame \<noteq> [] then
                      (case stamp_seq frame (tk_seq tk) of
                         (True, frame') \<Rightarrow>
                           d1\<lparr>d_replies := reply_push \<lparr>rp_conn_id = tk_conn_id tk, rp_seq = tk_seq tk,
                               rp_one_way = tk_one_way tk, rp_frame = frame'\<rparr> (d_replies d1)\<rparr>
                       | (False, frame') \<Rightarrow> d1)
                    else d1)
          in d2\<lparr>d_inflight := d_inflight d2 - 1\<rparr>)"

text \<open>The thread pool takes the oldest task.\<close>

definition pool_step :: "'c Router \<Rightarrow> 'c Disp \<Rightarrow> 'c Disp" where
  "pool_step rt d =
     (case d_tasks d of [] \<Rightarrow> d | tk # tks \<Rightarrow> run_task rt tk (d\<lparr>d_tasks := tks\<rparr>))"

fun pool_run :: "nat \<Rightarrow> 'c Router \<Rightarrow> 'c Disp \<Rightarrow> 'c Disp" where
  "pool_run 0 rt d = d"
| "pool_run (Suc n) rt d = pool_run n rt (pool_step rt d)"

subsection \<open>Flushing replies\<close>

definition reply_packet :: "ReplyItem \<Rightarrow> IpcPacket" where
  "reply_packet it = packet0\<lparr>conn_id := rp_conn_id it, pkt_seq := rp_seq it,
     payload_len := word_of_nat (length (rp_frame it))\<rparr>"

text \<open>
  The loop of \<open>flush_replies\<close>. Before each round the gateway may have released slots of
  the response ring: an event is the number it releases and whether, in that round, the
  process is stopping or the deadline has passed. The result, None while the loop is still
  spinning on a full ring when the events end, has the replies dropped, the number of
  filled and unpublished slots, and what the gateway consumed meanwhile.
\<close>

record FlushResult =
  fl_dropped :: "ReplyItem list"
  fl_pending :: u32
  fl_ring :: Ring
  fl_prod :: Producer
  fl_taken :: "msg list"

definition peer_release :: "nat \<Rightarrow> Ring \<Rightarrow> msg list \<times> Ring" where
  "peer_release n r =
     (let m = min n (length (contents kRspBits r)) in
      (take m (contents kRspBits r), r\<lparr>hdr := (hdr r)\<lparr>tail := tail (hdr r) + word_of_nat m\<rparr>\<rparr>))"

fun flush_loop ::
  "(nat \<times> bool) list \<Rightarrow> ReplyItem list \<Rightarrow> u32 \<Rightarrow> Ring \<Rightarrow> Producer \<Rightarrow> msg list \<Rightarrow> FlushResult res option" where
  "flush_loop evs [] pend r p taken =
     Some (Inr \<lparr>fl_dropped = [], fl_pending = pend, fl_ring = r, fl_prod = p, fl_taken = taken\<rparr>)"
| "flush_loop [] (it # its) pend r p taken = None"
| "flush_loop ((n, stop) # evs) (it # its) pend r0 p taken0 =
     (let (t, r) = peer_release n r0; taken = taken0 @ t in
      case begin_write kRspBits r p of
        (None, p1) \<Rightarrow>
          (case publish pend r p1 of
             Inl e \<Rightarrow> Some (Inl e)
           | Inr (r2, p2) \<Rightarrow>
               if stop then Some (Inr \<lparr>fl_dropped = it # its, fl_pending = 0, fl_ring = r2,
                                       fl_prod = p2, fl_taken = taken\<rparr>)
               else flush_loop evs (it # its) 0 r2 p2 taken)
      | (Some j, p1) \<Rightarrow>
          if length (rp_frame it) > kPayloadMax kRspSlotSize
          then flush_loop evs its pend r p1 taken
          else
            (case fill_at j (reply_packet it) (rp_frame it) r of
               Inl e \<Rightarrow> Some (Inl e)
             | Inr r2 \<Rightarrow> flush_loop evs its (pend + 1) r2 p1 taken))"

text \<open>The whole of \<open>flush_replies\<close>; the last component says whether the gateway is notified.\<close>

definition flush_replies ::
  "(nat \<times> bool) list \<Rightarrow> ReplyQueue \<Rightarrow> Ring \<Rightarrow> Producer \<Rightarrow> (FlushResult \<times> ReplyQueue \<times> bool) res option" where
  "flush_replies evs q r p =
     (case reply_drain q [] of (n, items, q') \<Rightarrow>
        if items = [] then
          Some (Inr (\<lparr>fl_dropped = [], fl_pending = 0, fl_ring = r, fl_prod = p, fl_taken = []\<rparr>, q', False))
        else
          let was_empty = producer_empty r p in
          (case flush_loop evs items 0 r p [] of
             None \<Rightarrow> None
           | Some (Inl e) \<Rightarrow> Some (Inl e)
           | Some (Inr fl) \<Rightarrow>
               if fl_pending fl > 0 then
                 (case publish (fl_pending fl) (fl_ring fl) (fl_prod fl) of
                    Inl e \<Rightarrow> Some (Inl e)
                  | Inr (r', p') \<Rightarrow>
                      Some (Inr (fl\<lparr>fl_pending := 0, fl_ring := r', fl_prod := p'\<rparr>, q', was_empty)))
               else Some (Inr (fl, q', was_empty))))"

subsection \<open>The reader loop\<close>

record Reader =
  rd_rings :: "(Ring \<times> Consumer) list"
  rd_last_hb :: u64
  rd_peer_seen :: bool
  rd_stopping :: bool

definition poll_slice_ms :: "u32 \<Rightarrow> nat \<Rightarrow> nat" where
  "poll_slice_ms inflight queued = (if inflight > 0 \<or> queued > 0 then 5 else 200)"

text \<open>The part of a round that runs at most once a second: heartbeats on all rings, then
  giving up when a gateway that was seen alive has gone silent.\<close>

definition heartbeat_round :: "u64 \<Rightarrow> nat \<Rightarrow> Ring \<Rightarrow> Reader \<Rightarrow> Ring \<times> Reader" where
  "heartbeat_round now peer_timeout_ms rsp rd =
     (if now - rd_last_hb rd \<ge> 1000000000 then
        let rsp' = producer_heartbeat now rsp;
            rd1 = rd\<lparr>rd_last_hb := now, rd_rings := ring_source_heartbeat_all now (rd_rings rd)\<rparr>;
            alive = producer_alive now peer_timeout_ms (rd_rings rd1) in
        (rsp', if alive then rd1\<lparr>rd_peer_seen := True\<rparr>
               else if rd_peer_seen rd1 then rd1\<lparr>rd_stopping := True\<rparr> else rd1)
      else (rsp, rd))"

subsection \<open>Lemmas on flushing\<close>

definition reply_msg :: "ReplyItem \<Rightarrow> msg" where
  "reply_msg it = (reply_packet it, rp_frame it)"

definition reply_fits :: "ReplyItem \<Rightarrow> bool" where
  "reply_fits it \<longleftrightarrow> length (rp_frame it) \<le> kPayloadMax kRspSlotSize"

abbreviation rsp_ok :: "Ring \<Rightarrow> Producer \<Rightarrow> bool" where
  "rsp_ok \<equiv> producer_ok kRspBits kRspSlotSize"

lemma reply_msg_fits:
  "reply_fits it \<Longrightarrow> msg_fits kRspSlotSize (reply_packet it) (rp_frame it)"
  by (simp add: reply_fits_def msg_fits_def reply_packet_def kPayloadMax_def kRspSlotSize_def
      sizeof_IpcPacket_def unsigned_of_nat take_bit_nat_eq_self)

lemma peer_release_ok:
  assumes "rsp_ok r p" "peer_release n r = (t, r')"
  shows "rsp_ok r' p" "contents kRspBits r = t @ contents kRspBits r'"
    "staged kRspBits r' p = staged kRspBits r p"
proof -
  let ?m = "min n (length (contents kRspBits r))"
  have c: "consumer_ok kRspBits kRspSlotSize r (mk_Consumer r)"
    using assms(1) by (auto simp: consumer_ok_def producer_ok_def mk_Consumer_def used_def)
  have m: "unat (word_of_nat ?m :: u32) = ?m"
  proof -
    have "?m < 4294967296"
      by (rule le_less_trans [OF min.cobounded2]) (simp add: length_contents)
    then show ?thesis by (simp add: unsigned_of_nat take_bit_nat_eq_self)
  qed
  have "release (word_of_nat ?m) r (mk_Consumer r) = (r', \<lparr>tail_local = tail (hdr r) + word_of_nat ?m\<rparr>)"
    and t: "t = take ?m (contents kRspBits r)"
    using assms(2) by (auto simp: peer_release_def release_def mk_Consumer_def Let_def)
  from release_ok [OF c _ this(1)] m assms(1)
  show "rsp_ok r' p" "contents kRspBits r = t @ contents kRspBits r'"
    "staged kRspBits r' p = staged kRspBits r p"
    by (simp_all add: t)
qed

lemma reserve_fill:
  assumes ok: "producer_ok k ss r p" and bw: "begin_write k r p = (Some j, p1)"
    and fits: "msg_fits ss pk pl"
  obtains r2 where "fill_at j pk pl r = Inr r2" "producer_ok k ss r2 p1"
    "contents k r2 = contents k r" "staged k r2 p1 = staged k r p @ [(pk, pl)]"
    "unpublished p1 = unpublished p + 1"
proof -
  have le: "used r p \<le> 2 ^ k" using ok by (simp add: producer_ok_def)
  note w = begin_write_at_used [OF ok, of 0, simplified, OF le]
  have lt: "used r p < 2 ^ k" and j: "j = slot_ix k (tail (hdr r) + word_of_nat (used r p))"
    and p1: "p1 = p\<lparr>unpublished := unpublished p + 1, head_local := head_local p + 1\<rparr>"
    using bw w le by (auto simp: begin_write_def split: if_splits)
  note res = reserve_ok [OF ok lt p1]
  have u: "0 < used r p1" "used r p1 - 1 = used r p" using res(2) by simp_all
  obtain r2 where r2: "fill_at j pk pl r = Inr r2" "hdr r2 = hdr r" "producer_ok k ss r2 p1"
    "contents k r2 @ staged k r2 p1 = (contents k r @ staged k r p1)[used r p := (pk, pl)]"
    using fill_at_ok [OF res(1) fits u(1), of j] j u(2) by metis
  have len: "length (contents k r2) = length (contents k r)"
    using r2(2) by (simp add: length_contents)
  have ul: "used r p = length (contents k r) + length (staged k r p)" by (rule used_lengths)
  have pre: "take (length (staged k r p)) (staged k r p1) = staged k r p"
    using res(3) by (simp add: staged_def take_seg)
  have "staged k r p1 = take (length (staged k r p)) (staged k r p1)
      @ [staged k r p1 ! length (staged k r p)]"
    by (subst take_Suc_conv_app_nth [symmetric]) (simp_all add: res(3))
  then obtain m where m: "staged k r p1 = staged k r p @ [m]" unfolding pre by blast
  then have "contents k r2 @ staged k r2 p1 = contents k r @ staged k r p @ [(pk, pl)]"
    using r2(4) by (simp add: ul list_update_append)
  with len have "contents k r2 = contents k r" "staged k r2 p1 = staged k r p @ [(pk, pl)]"
    by (simp_all add: append_eq_append_conv)
  then show thesis using that [OF r2(1) r2(3)] p1 by simp
qed

lemma publish_full:
  assumes ok: "rsp_ok r p" and pend: "pend = unpublished p"
  obtains r2 p2 where "publish pend r p = Inr (r2, p2)" "rsp_ok r2 p2"
    "contents kRspBits r2 = contents kRspBits r @ staged kRspBits r p" "staged kRspBits r2 p2 = []"
    "unpublished p2 = 0"
  using publish_ok [OF ok] pend by metis

text \<open>Nothing is lost, duplicated or reordered on the way into the response ring: what the
  gateway took and what the ring holds afterwards is what the ring held and the flushed
  replies, and only a tail of the replies is dropped.\<close>

lemma flush_loop_ok:
  assumes "rsp_ok r p" "pend = unpublished p" "\<forall>it\<in>set items. reply_fits it"
    "flush_loop evs items pend r p taken = Some res"
  shows "\<exists>fl done. res = Inr fl \<and> items = done @ fl_dropped fl \<and>
    rsp_ok (fl_ring fl) (fl_prod fl) \<and> fl_pending fl = unpublished (fl_prod fl) \<and>
    fl_taken fl @ contents kRspBits (fl_ring fl) @ staged kRspBits (fl_ring fl) (fl_prod fl)
      = taken @ contents kRspBits r @ staged kRspBits r p @ map reply_msg done"
  using assms
proof (induction evs items pend r p taken rule: flush_loop.induct)
  case (1 evs pend r p taken)
  then show ?case by auto
next
  case (2 it its pend r p taken)
  then show ?case by simp
next
  case (3 n stop evs it its pend r0 p taken0)
  obtain t r where pr: "peer_release n r0 = (t, r)" by fastforce
  note r = peer_release_ok [OF 3(4) pr]
  obtain w p1 where bw: "begin_write kRspBits r p = (w, p1)" by fastforce
  show ?case
  proof (cases w)
    case None
    then have p1: "p1 = p" using bw begin_write_None by metis
    obtain r2 p2 where pub: "publish pend r p = Inr (r2, p2)" "rsp_ok r2 p2"
      "contents kRspBits r2 = contents kRspBits r @ staged kRspBits r p"
      "staged kRspBits r2 p2 = []" "unpublished p2 = 0"
      using publish_full [OF r(1) 3(5)] by metis
    show ?thesis
    proof (cases stop)
      case True
      then show ?thesis using 3(7) pr bw None p1 pub r by auto
    next
      case False
      then have "flush_loop evs (it # its) 0 r2 p2 (taken0 @ t) = Some res"
        using 3(7) pr bw None p1 pub by simp
      from "3.IH"(1) [OF refl pr [symmetric] refl bw [symmetric] None _ refl False pub(2) _ _ this]
      show ?thesis using pub p1 3(6) r by auto
    qed
  next
    case (Some j)
    obtain r2 where rf: "fill_at j (reply_packet it) (rp_frame it) r = Inr r2" "rsp_ok r2 p1"
      "contents kRspBits r2 = contents kRspBits r"
      "staged kRspBits r2 p1 = staged kRspBits r p @ [reply_msg it]" "unpublished p1 = unpublished p + 1"
      using reserve_fill [OF r(1) bw [unfolded Some] reply_msg_fits, of it] 3(6)
      by (auto simp: reply_msg_def)
    have big: "\<not> length (rp_frame it) > kPayloadMax kRspSlotSize"
      using 3(6) by (simp add: reply_fits_def)
    then have "flush_loop evs its (pend + 1) r2 p1 (taken0 @ t) = Some res"
      using 3(7) pr bw Some rf(1) by simp
    from "3.IH"(3) [OF refl pr [symmetric] refl bw [symmetric] Some big rf(1) rf(2) _ _ this]
    obtain fl dn where "res = Inr fl" "its = dn @ fl_dropped fl"
      "rsp_ok (fl_ring fl) (fl_prod fl)" "fl_pending fl = unpublished (fl_prod fl)"
      "fl_taken fl @ contents kRspBits (fl_ring fl) @ staged kRspBits (fl_ring fl) (fl_prod fl)
        = (taken0 @ t) @ contents kRspBits r2 @ staged kRspBits r2 p1 @ map reply_msg dn"
      using rf(5) 3(5,6) by auto
    then show ?thesis using rf r by (intro exI [of _ fl] exI [of _ "it # dn"]) simp
  qed
qed

lemma used_peer_release:
  assumes "rsp_ok r p" "peer_release n r = (t, r')"
  shows "used r' p \<le> used r p"
  using peer_release_ok(2,3) [OF assms] used_lengths [of r p kRspBits] used_lengths [of r' p kRspBits]
  by simp

lemma begin_write_room:
  assumes "producer_ok k ss r p" "used r p < 2 ^ k"
  obtains j p1 where "begin_write k r p = (Some j, p1)"
  using begin_write_at_used [OF assms(1), of 0] assms(2) by (simp add: begin_write_def)

lemma flush_loop_room:
  assumes "rsp_ok r p" "\<forall>it\<in>set items. reply_fits it" "length items \<le> length evs"
    "used r p + length items \<le> 2 ^ kRspBits"
  shows "\<exists>fl. flush_loop evs items pend r p taken = Some (Inr fl) \<and> fl_dropped fl = []"
  using assms
proof (induction evs items pend r p taken rule: flush_loop.induct)
  case (3 n stop evs it its pend r0 p taken0)
  obtain t r where pr: "peer_release n r0 = (t, r)" by fastforce
  note r = peer_release_ok [OF 3(4) pr]
  have u: "used r p \<le> used r0 p" by (rule used_peer_release [OF 3(4) pr])
  then have lt: "used r p < 2 ^ kRspBits" using 3(7) by simp
  obtain j p1 where bw: "begin_write kRspBits r p = (Some j, p1)"
    using begin_write_room [OF r(1) lt] by blast
  obtain r2 where rf: "fill_at j (reply_packet it) (rp_frame it) r = Inr r2" "rsp_ok r2 p1"
    "contents kRspBits r2 = contents kRspBits r"
    "staged kRspBits r2 p1 = staged kRspBits r p @ [(reply_packet it, rp_frame it)]"
    using reserve_fill [OF r(1) bw reply_msg_fits, of it] 3(5) by auto
  have big: "\<not> length (rp_frame it) > kPayloadMax kRspSlotSize"
    using 3(5) by (simp add: reply_fits_def)
  have "used r2 p1 = used r p + 1"
    using rf(3,4) used_lengths [of r2 p1 kRspBits] used_lengths [of r p kRspBits] by simp
  then show ?case
    using "3.IH"(3) [OF refl pr [symmetric] refl bw [symmetric] refl big rf(1) rf(2)] 3(5-7) u pr bw big rf(1)
    by auto
qed simp_all

lemma reply_drain_items: "reply_drain q [] = (length (rpq q), rpq q, q\<lparr>rpq := []\<rparr>)"
  by (simp add: reply_drain_def Let_def)

lemma flush_replies_ok:
  assumes ok: "rsp_ok r p" and up: "unpublished p = 0" and fit: "\<forall>it\<in>set (rpq q). reply_fits it"
    and fr: "flush_replies evs q r p = Some res"
  shows "\<exists>fl q' nt done. res = Inr (fl, q', nt) \<and> rpq q' = [] \<and> rpq q = done @ fl_dropped fl \<and>
    rsp_ok (fl_ring fl) (fl_prod fl) \<and> unpublished (fl_prod fl) = 0 \<and>
    fl_taken fl @ contents kRspBits (fl_ring fl) = contents kRspBits r @ map reply_msg done"
proof (cases "rpq q = []")
  case True
  then show ?thesis using fr ok up by (auto simp: flush_replies_def reply_drain_items)
next
  case False
  have st: "staged kRspBits r p = []" using ok up by (simp add: producer_ok_def staged_def)
  obtain lr where l: "flush_loop evs (rpq q) 0 r p [] = Some lr"
    using fr False
    by (cases "flush_loop evs (rpq q) 0 r p []") (auto simp: flush_replies_def reply_drain_items Let_def)
  obtain fl dn where fl: "lr = Inr fl" "rpq q = dn @ fl_dropped fl" "rsp_ok (fl_ring fl) (fl_prod fl)"
    "fl_pending fl = unpublished (fl_prod fl)"
    "fl_taken fl @ contents kRspBits (fl_ring fl) @ staged kRspBits (fl_ring fl) (fl_prod fl)
      = contents kRspBits r @ map reply_msg dn"
    using flush_loop_ok [OF ok up [symmetric] fit l] st by auto
  show ?thesis
  proof (cases "fl_pending fl > 0")
    case True
    obtain r' p' where "publish (fl_pending fl) (fl_ring fl) (fl_prod fl) = Inr (r', p')"
      "rsp_ok r' p'" "unpublished p' = 0"
      "contents kRspBits r' = contents kRspBits (fl_ring fl) @ staged kRspBits (fl_ring fl) (fl_prod fl)"
      using publish_full [OF fl(3,4)] by metis
    with fr False l fl True show ?thesis
      by (auto simp: flush_replies_def reply_drain_items Let_def)
  next
    case no: False
    then have "unpublished (fl_prod fl) = 0" using fl(4) by (simp add: word_gt_0)
    moreover from this have "staged kRspBits (fl_ring fl) (fl_prod fl) = []"
      using fl(3) by (simp add: producer_ok_def staged_def)
    ultimately show ?thesis
      using fr False l fl no by (auto simp: flush_replies_def reply_drain_items Let_def)
  qed
qed

subsection \<open>Lemmas on tasks\<close>

text \<open>The quota counts the queued tasks, modulo the width of the counter.\<close>

definition quota_ok :: "'c Disp \<Rightarrow> bool" where
  "quota_ok d \<longleftrightarrow> d_inflight d = word_of_nat (length (d_tasks d))"

lemma quota_on_request: "quota_ok d \<Longrightarrow> quota_ok (on_request af pf slot d)"
  by (simp add: quota_ok_def on_request_def Let_def)

lemma run_task_inflight: "d_inflight (run_task rt tk d) = d_inflight d - 1"
  by (auto simp: run_task_def Let_def split: prod.splits sum.splits bool.splits)

lemma run_task_tasks: "d_tasks (run_task rt tk d) = d_tasks d"
  by (auto simp: run_task_def Let_def split: prod.splits sum.splits bool.splits)

lemma quota_pool_step: "quota_ok d \<Longrightarrow> quota_ok (pool_step rt d)"
  by (auto simp: quota_ok_def pool_step_def run_task_inflight run_task_tasks split: list.splits)

lemma encode_fits_reply:
  "encode f = Inr b \<Longrightarrow> length b \<le> kPayloadMax kRspSlotSize"
  by (auto simp: encode_Inr frame_fits_def kMaxMessageLen_def kHeaderLen_def kPayloadMax_def
      kRspSlotSize_def sizeof_IpcPacket_def)

lemma run_task_reply:
  assumes "router_dispatch rt (tk_eid tk) (tk_payload tk) (d_ctx d) = (Inr b, ctx)"
    "encode f = Inr b" "\<not> tk_one_way tk"
  shows "rpq (d_replies (run_task rt tk d)) = rpq (d_replies d) @
    [\<lparr>rp_conn_id = tk_conn_id tk, rp_seq = tk_seq tk, rp_one_way = False,
      rp_frame = wire (f\<lparr>fr_seq := tk_seq tk\<rparr>)\<rparr>]"
    and "d_ctx (run_task rt tk d) = ctx"
  using assms by (simp_all add: run_task_def encode_Inr stamp_wire Let_def reply_push_def)

text \<open>What can happen to the queue of tasks: a request slot arrives, a pool thread runs a task.\<close>

datatype disp_event = Arrive Slot | RunTask

fun disp_step :: "(Slot \<Rightarrow> bool) \<Rightarrow> (Slot \<Rightarrow> bool) \<Rightarrow> 'c Router \<Rightarrow> disp_event \<Rightarrow> 'c Disp \<Rightarrow> 'c Disp" where
  "disp_step af pf rt (Arrive slot) d = on_request af pf slot d"
| "disp_step af pf rt RunTask d = pool_step rt d"

lemma quota_disp_step: "quota_ok d \<Longrightarrow> quota_ok (disp_step af pf rt ev d)"
  by (cases ev) (simp_all add: quota_on_request quota_pool_step)

subsection \<open>Properties of the dispatch process\<close>


text \<open>With room nothing is dropped and the flush ends. When the ring's free slots
  suffice for the queued replies, the loop ends after one round per reply and drops none,
  whether or not the process is stopping.\<close>

theorem flush_replies_completes:
  assumes "producer_ok kRspBits kRspSlotSize r p" "unpublished p = 0"
    "\<forall>it\<in>set (rpq q). length (rp_frame it) \<le> kRspPayloadMax"
    "length (contents kRspBits r) + length (rpq q) \<le> 256" "length (rpq q) \<le> length evs"
  shows "\<exists>fl q' nt. flush_replies evs q r p = Some (Inr (fl, q', nt)) \<and> fl_dropped fl = []"
proof -
  have fit: "\<forall>it\<in>set (rpq q). reply_fits it"
    using assms(3) by (simp add: reply_fits_def kRspPayloadMax_def kPayloadMax_def)
  have "used r p = length (contents kRspBits r)"
    using assms(1,2) by (simp add: producer_ok_def used_def length_contents)
  then have u: "used r p + length (rpq q) \<le> 2 ^ kRspBits" using assms(4) by (simp add: kRspBits_def)
  obtain fl where l: "flush_loop evs (rpq q) 0 r p [] = Some (Inr fl)" "fl_dropped fl = []"
    using flush_loop_room [OF assms(1) fit assms(5) u] by blast
  then have "\<exists>res. flush_replies evs q r p = Some res"
    by (auto simp: flush_replies_def reply_drain_items Let_def split: sum.splits)
  then obtain res where fr: "flush_replies evs q r p = Some res" by blast
  from flush_replies_ok [OF assms(1,2) fit fr] obtain fl' q' nt where "res = Inr (fl', q', nt)" by blast
  with fr l show ?thesis
    by (auto simp: flush_replies_def reply_drain_items Let_def split: if_splits sum.splits)
qed

text \<open>Property C39: a reply frame too large for a slot breaks the producer. Its slot stays
  reserved though nothing is counted as pending, so the flush itself succeeds, but the next
  reply that is flushed fails the assertion in \<open>publish\<close>.\<close>

theorem flush_oversized_breaks:
  assumes "producer_ok kRspBits kRspSlotSize r p" "unpublished p = 0"
    "length (contents kRspBits r) < 255" "length (rp_frame big) > kRspPayloadMax"
    "length (rp_frame small) \<le> kRspPayloadMax"
  shows "\<exists>fl q' nt. flush_replies [(0, s)] \<lparr>rpq = [big]\<rparr> r p = Some (Inr (fl, q', nt)) \<and>
    flush_replies [(0, s)] \<lparr>rpq = [small]\<rparr> (fl_ring fl) (fl_prod fl) = Some (Inl Assertion_failed)"
proof -
  have u: "used r p = length (contents kRspBits r)"
    using assms(1,2) by (simp add: producer_ok_def used_def length_contents)
  then have lt: "used r p < 2 ^ kRspBits" using assms(3) by (simp add: kRspBits_def)
  let ?p1 = "p\<lparr>unpublished := unpublished p + 1, head_local := head_local p + 1\<rparr>"
  have bw: "\<exists>j. begin_write kRspBits r p = (Some j, ?p1)"
    using begin_write_at_used [OF assms(1), of 0] lt by (simp add: begin_write_def)
  note res = reserve_ok [OF assms(1) lt refl]
  have "used r ?p1 < 2 ^ kRspBits" using res(2) u assms(3) by (simp add: kRspBits_def)
  then obtain j2 p2 where bw2: "begin_write kRspBits r ?p1 = (Some j2, p2)"
    using begin_write_room [OF res(1)] by blast
  have "reply_fits small" using assms(5) by (simp add: reply_fits_def kRspPayloadMax_def kPayloadMax_def)
  then obtain r2 where rf: "fill_at j2 (reply_packet small) (rp_frame small) r = Inr r2"
    "unpublished p2 = unpublished ?p1 + 1"
    using reserve_fill [OF res(1) bw2 reply_msg_fits] by metis
  have pr: "peer_release 0 r = ([], r)" by (simp add: peer_release_def Let_def)
  have sizes: "kPayloadMax kRspSlotSize = kRspPayloadMax" by (simp add: kPayloadMax_def kRspPayloadMax_def)
  show ?thesis
    using bw bw2 rf assms(2,4,5) pr sizes
    by (auto simp: flush_replies_def reply_drain_items publish_def)
qed

text \<open>Replies are addressed and numbered correctly. When the handler of a two-way
  request returns an encoded frame, exactly one reply is queued; it goes to the connection the
  request came from, fits into a response slot, and decodes to the handler's frame with the
  sequence number of the request.\<close>

theorem run_task_echo:
  assumes "router_dispatch rt (tk_eid tk) (tk_payload tk) (d_ctx d) = (Inr b, ctx)"
    "encode f = Inr b" "\<not> tk_one_way tk"
  shows "\<exists>it. rpq (d_replies (run_task rt tk d)) = rpq (d_replies d) @ [it] \<and>
    rp_conn_id it = tk_conn_id tk \<and> length (rp_frame it) \<le> kRspPayloadMax \<and>
    decode (rp_frame it) = Some (f\<lparr>fr_seq := tk_seq tk\<rparr>, length (rp_frame it))"
proof -
  have fits: "frame_fits f" using assms(2) by (simp add: encode_Inr)
  then have "decode (wire (f\<lparr>fr_seq := tk_seq tk\<rparr>)) = Some (f\<lparr>fr_seq := tk_seq tk\<rparr>,
      length (wire (f\<lparr>fr_seq := tk_seq tk\<rparr>)))"
    using decode_wire [of "f\<lparr>fr_seq := tk_seq tk\<rparr>" "[]"] by (simp add: decode_Some)
  moreover have "length (wire (f\<lparr>fr_seq := tk_seq tk\<rparr>)) \<le> kRspPayloadMax"
    using encode_fits_reply [of "f\<lparr>fr_seq := tk_seq tk\<rparr>"] fits
    by (simp add: encode_Inr kRspPayloadMax_def kPayloadMax_def)
  ultimately show ?thesis using run_task_reply(1) [OF assms] by simp
qed


subsection \<open>Witnesses\<close>

definition demo_rsp_ring :: Ring where
  "demo_rsp_ring = blank_ring kRspBits kRspSlotSize 0xFFFFFFFF"

lemmas demo_rsp_ok = blank_ring_ok [OF bits_ok_consts(2), of kRspSlotSize "0xFFFFFFFF",
    folded demo_rsp_ring_def]

definition demo_reply :: ReplyItem where
  "demo_reply = \<lparr>rp_conn_id = 3, rp_seq = 1, rp_one_way = False, rp_frame = [1, 2, 3]\<rparr>"

definition demo_big_reply :: ReplyItem where
  "demo_big_reply = demo_reply\<lparr>rp_frame := replicate (Suc kRspPayloadMax) 0\<rparr>"

lemma demo_reply_fits: "\<forall>it\<in>set (rpq \<lparr>rpq = [demo_reply]\<rparr>). length (rp_frame it) \<le> kRspPayloadMax"
  by (simp add: demo_reply_def kRspPayloadMax_def kRspSlotSize_def sizeof_IpcPacket_def)

theorem flush_replies_completes_witness:
  "\<exists>fl q' nt. flush_replies [(0, False)] \<lparr>rpq = [demo_reply]\<rparr> demo_rsp_ring (mk_Producer demo_rsp_ring)
     = Some (Inr (fl, q', nt)) \<and> fl_dropped fl = []"
  using flush_replies_completes [OF demo_rsp_ok(1,3) demo_reply_fits, of "[(0, False)]"] demo_rsp_ok(4)
  by simp


theorem flush_oversized_breaks_witness:
  "\<exists>fl q' nt. flush_replies [(0, False)] \<lparr>rpq = [demo_big_reply]\<rparr>
      demo_rsp_ring (mk_Producer demo_rsp_ring) = Some (Inr (fl, q', nt)) \<and>
    flush_replies [(0, False)] \<lparr>rpq = [demo_reply]\<rparr> (fl_ring fl) (fl_prod fl) = Some (Inl Assertion_failed)"
proof (rule flush_oversized_breaks [OF demo_rsp_ok(1,3)])
  show "length (contents kRspBits demo_rsp_ring) < 255" by (simp add: demo_rsp_ok)
  show "length (rp_frame demo_big_reply) > kRspPayloadMax" by (simp add: demo_big_reply_def)
  show "length (rp_frame demo_reply) \<le> kRspPayloadMax"
    by (simp add: demo_reply_def kRspPayloadMax_def kRspSlotSize_def sizeof_IpcPacket_def)
qed

definition demo_router :: "unit Router" where
  "demo_router = \<lparr>handlers = [3 \<mapsto> \<lambda>pl ctx. (encode \<lparr>fr_event_id = 4, fr_seq = 0, fr_payload = pl\<rparr>, ctx)]\<rparr>"

definition demo_disp :: "unit Disp" where
  "demo_disp = \<lparr>d_tasks = [], d_inflight = 0, d_consumed = 0, d_replies = \<lparr>rpq = []\<rparr>, d_ctx = ()\<rparr>"

definition demo_task :: Task where
  "demo_task = \<lparr>tk_conn_id = 7, tk_eid = 3, tk_seq = 12, tk_one_way = False, tk_payload = [5]\<rparr>"

theorem run_task_echo_witness:
  "\<exists>it. rpq (d_replies (run_task demo_router demo_task demo_disp)) = [it] \<and> rp_conn_id it = 7 \<and>
     decode (rp_frame it) = Some (\<lparr>fr_event_id = 4, fr_seq = 12, fr_payload = [5]\<rparr>, length (rp_frame it))"
proof -
  let ?f = "\<lparr>fr_event_id = 4, fr_seq = 0, fr_payload = [5 :: byte]\<rparr>"
  have e: "encode ?f = Inr (wire ?f)" by (simp add: encode_Inr frame_fits_def kMaxMessageLen_def)
  have "router_dispatch demo_router (tk_eid demo_task) (tk_payload demo_task) (d_ctx demo_disp)
      = (Inr (wire ?f), ())"
    using e by (simp add: router_dispatch_def demo_router_def demo_task_def demo_disp_def)
  from run_task_echo [OF this e] show ?thesis by (auto simp: demo_task_def demo_disp_def)
qed


end
