(* ===== verification/Startup.thy ===== *)
theory Startup
  imports Configuration ShmRegion Dispatch
begin

text \<open>
  How the two server processes come up: \<open>main\<close> of \<open>gateway_main.cpp\<close> and of
  \<open>dispatch_main.cpp\<close> from the command line to the parameters of the ring files, and the FIFO
  channels with their descriptors (\<open>fifo_channel.cpp\<close>). The main property is that two
  processes started with the same file and environment meet in the same region.
\<close>

subsection \<open>FIFO channels\<close>

text \<open>
  A channel owns a descriptor or none. \<open>mkfifo\<close> and \<open>open\<close> are the kernel's: the first says
  whether it failed other than with \<open>EEXIST\<close>, the second gives a descriptor.
  The set \<open>fds\<close> holds the open descriptors of the process.
\<close>

record FifoChannel =
  fifo_fd :: int
  fifo_path :: string

definition fifo0 :: FifoChannel where
  "fifo0 = \<lparr>fifo_fd = - 1, fifo_path = []\<rparr>"

definition fifo_create_or_open ::
  "bool \<Rightarrow> int option \<Rightarrow> string \<Rightarrow> int set \<Rightarrow> FifoChannel res \<times> int set" where
  "fifo_create_or_open mkfifo_fails opened path fds =
     (if mkfifo_fails then (Inl Runtime_error, fds)
      else case opened of
          None \<Rightarrow> (Inl Runtime_error, fds)
        | Some fd \<Rightarrow> (Inr (fifo0\<lparr>fifo_fd := fd, fifo_path := path\<rparr>), insert fd fds))"

definition fifo_close :: "FifoChannel \<Rightarrow> int set \<Rightarrow> FifoChannel \<times> int set" where
  "fifo_close ch fds =
     (if fifo_fd ch \<ge> 0 then (ch\<lparr>fifo_fd := - 1\<rparr>, fds - {fifo_fd ch}) else (ch, fds))"

text \<open>Moving construction, moving assignment to a distinct channel, destruction.\<close>

definition fifo_move :: "FifoChannel \<Rightarrow> FifoChannel \<times> FifoChannel" where
  "fifo_move o' = (\<lparr>fifo_fd = fifo_fd o', fifo_path = fifo_path o'\<rparr>, o'\<lparr>fifo_fd := - 1, fifo_path := []\<rparr>)"

definition fifo_assign :: "FifoChannel \<Rightarrow> FifoChannel \<Rightarrow> int set \<Rightarrow> FifoChannel \<times> FifoChannel \<times> int set" where
  "fifo_assign ch o' fds =
     (case fifo_close ch fds of (ch1, fds1) \<Rightarrow>
        (ch1\<lparr>fifo_fd := fifo_fd o', fifo_path := fifo_path o'\<rparr>, o'\<lparr>fifo_fd := - 1, fifo_path := []\<rparr>, fds1))"

definition fifo_destroy :: "FifoChannel \<Rightarrow> int set \<Rightarrow> int set" where
  "fifo_destroy ch fds = snd (fifo_close ch fds)"

lemma fifo_owns:
  assumes "fifo_create_or_open mf (Some fd) path fds = (Inr ch, fds')" "0 \<le> fd" "fd \<notin> fds"
  shows "fifo_destroy ch fds' = fds" "fifo_destroy (snd (fifo_move ch)) fds' = fds'"
    "fifo_destroy (fst (fifo_move ch)) fds' = fds"
  using assms by (auto simp: fifo_create_or_open_def fifo_destroy_def fifo_close_def fifo_move_def fifo0_def
      split: if_splits)

subsection \<open>The gateway\<close>

record GatewaySetup =
  gs_options :: GatewayOptions
  gs_listen :: string
  gs_port :: int
  gs_cq_depth :: int
  gs_workers :: int
  gs_accept_backlog :: int

definition to_size_t :: "int \<Rightarrow> nat" where
  "to_size_t x = unat (word_of_int x :: u64)"

definition gateway_options :: "(string \<rightharpoonup> string) \<Rightarrow> Config \<Rightarrow> GatewaySetup res" where
  "gateway_options getenv cfg =
     (case override_workers getenv (u_workers (cfg_uring cfg)) of
        Inl e \<Rightarrow> Inl e
      | Inr n \<Rightarrow>
          Inr \<lparr>gs_options = \<lparr>rx_buf_bytes = to_size_t (u_rx_buf_bytes (cfg_uring cfg)),
                 send_backlog_limit = to_size_t (u_send_backlog_limit_bytes (cfg_uring cfg)),
                 idle_timeout = u_idle_timeout_ms (cfg_uring cfg), sq_depth = u_sq_depth (cfg_uring cfg)\<rparr>,
               gs_listen = srv_listen (cfg_server cfg), gs_port = srv_port (cfg_server cfg),
               gs_cq_depth = u_cq_depth (cfg_uring cfg), gs_workers = n,
               gs_accept_backlog = u_accept_backlog (cfg_uring cfg)\<rparr>)"

definition ring_params :: "Config \<Rightarrow> int \<Rightarrow> Params" where
  "ring_params cfg n = \<lparr>prefix_of = ipc_shm_prefix (cfg_ipc cfg), instance_no = ipc_instance (cfg_ipc cfg),
     workers = nat n\<rparr>"

text \<open>
  How far \<open>main\<close> gets before it opens the ring files: it exits with a code, ends with an
  exception, or has its options and, in the ring mode, the parameters of the region and the
  directory of the FIFOs.
\<close>

datatype 'b boot = Exit_code int | Boot_error exn | Booted 'b

definition boot_res :: "'a res \<Rightarrow> ('a \<Rightarrow> 'b boot) \<Rightarrow> 'b boot" where
  "boot_res r f = (case r of Inl e \<Rightarrow> Boot_error e | Inr x \<Rightarrow> f x)"

definition gateway_boot ::
  "'n Toml \<Rightarrow> (string \<rightharpoonup> string) \<Rightarrow> string list \<Rightarrow> (GatewaySetup \<times> (Params \<times> string) option) boot" where
  "gateway_boot T getenv argv =
     (if length argv \<noteq> 2 then Exit_code 1
      else case load_config T (argv ! 1) of
          Inl e \<Rightarrow> Exit_code 2
        | Inr cfg0 \<Rightarrow>
            boot_res (override_instance getenv cfg0) (\<lambda>cfg.
            boot_res (gateway_options getenv cfg) (\<lambda>gs.
            if ipc_mode (cfg_ipc cfg) = ''ring''
            then boot_res (override_mlock getenv) (\<lambda>lock.
                   Booted (gs, Some (ring_params cfg (gs_workers gs), ipc_shm_root (cfg_ipc cfg))))
            else Booted (gs, None))))"

text \<open>The signal handler: it asks the engine to stop, if there is one.\<close>

definition gateway_on_term :: "Engine option \<Rightarrow> Engine option" where
  "gateway_on_term g = map_option request_stop g"

subsection \<open>The dispatch process\<close>

record DispatchSetup =
  ds_params :: Params
  ds_fifo_dir :: string
  ds_biz_workers :: nat
  ds_spin_tries :: u32
  ds_peer_timeout_ms :: int
  ds_alive_path :: string

definition dispatch_boot ::
  "'n Toml \<Rightarrow> (string \<rightharpoonup> string) \<Rightarrow> string list \<Rightarrow> DispatchSetup boot" where
  "dispatch_boot T getenv argv =
     (if length argv \<noteq> 2 then Exit_code 1
      else case load_config T (argv ! 1) of
          Inl e \<Rightarrow> Exit_code 2
        | Inr cfg0 \<Rightarrow>
            boot_res (override_instance getenv (override_log_file getenv cfg0)) (\<lambda>cfg.
            boot_res (override_workers getenv (u_workers (cfg_uring cfg))) (\<lambda>req_rings.
            boot_res (override_mlock getenv) (\<lambda>lock.
              Booted \<lparr>ds_params = ring_params cfg req_rings, ds_fifo_dir = ipc_shm_root (cfg_ipc cfg),
                ds_biz_workers = to_size_t (ipc_dispatch_workers (cfg_ipc cfg)),
                ds_spin_tries = word_of_int (ipc_spin_tries (cfg_ipc cfg)),
                ds_peer_timeout_ms = ipc_peer_timeout_ms (cfg_ipc cfg),
                ds_alive_path = ''/tmp/bike-dispatch'' @ std_to_string (ipc_instance (cfg_ipc cfg)) @ ''.alive''\<rparr>))))"

subsection \<open>The processes meet\<close>

lemma boot_res_Booted: "boot_res r f = Booted b \<longleftrightarrow> (\<exists>x. r = Inr x \<and> f x = Booted b)"
  by (auto simp: boot_res_def split: sum.splits)

lemma override_instance_same:
  assumes "override_instance getenv cfg = Inr c1" "override_instance getenv (override_log_file getenv cfg) = Inr c2"
  shows "cfg_ipc c1 = cfg_ipc c2 \<and> cfg_uring c1 = cfg_uring c2 \<and> cfg_uring c1 = cfg_uring cfg \<and>
    ipc_mode (cfg_ipc c1) = ipc_mode (cfg_ipc cfg)"
  using assms
  by (auto simp: override_instance_def override_log_file_def split: option.splits sum.splits if_splits)

lemma override_workers_pos:
  "override_workers getenv n = Inr m \<Longrightarrow> 1 \<le> n \<Longrightarrow> 1 \<le> m"
  by (auto simp: override_workers_def split: option.splits sum.splits if_splits)

lemma gateway_boot_ring:
  assumes "gateway_boot T getenv argv = Booted (gs, Some (p, dir))"
  obtains cfg c n where "load_config T (argv ! 1) = Inr cfg" "override_instance getenv cfg = Inr c"
    "override_workers getenv (u_workers (cfg_uring c)) = Inr n" "p = ring_params c n" "dir = ipc_shm_root (cfg_ipc c)"
proof -
  obtain cfg where "load_config T (argv ! 1) = Inr cfg"
    using assms by (auto simp: gateway_boot_def split: sum.splits if_splits)
  moreover from this obtain c where "override_instance getenv cfg = Inr c"
    using assms by (auto simp: gateway_boot_def boot_res_Booted split: if_splits)
  moreover from calculation obtain gs' where "gateway_options getenv c = Inr gs'"
    "p = ring_params c (gs_workers gs')" "dir = ipc_shm_root (cfg_ipc c)"
    using assms by (auto simp: gateway_boot_def boot_res_Booted split: if_splits)
  moreover from this obtain n where "override_workers getenv (u_workers (cfg_uring c)) = Inr n" "gs_workers gs' = n"
    by (auto simp: gateway_options_def split: sum.splits)
  ultimately show thesis using that by blast
qed

lemma dispatch_boot_Booted:
  assumes "dispatch_boot T getenv argv = Booted ds"
  obtains cfg c n where "load_config T (argv ! 1) = Inr cfg"
    "override_instance getenv (override_log_file getenv cfg) = Inr c"
    "override_workers getenv (u_workers (cfg_uring c)) = Inr n"
    "ds_params ds = ring_params c n" "ds_fifo_dir ds = ipc_shm_root (cfg_ipc c)"
proof -
  obtain cfg where cfg: "load_config T (argv ! 1) = Inr cfg"
    using assms by (auto simp: dispatch_boot_def split: sum.splits if_splits)
  then obtain c where "override_instance getenv (override_log_file getenv cfg) = Inr c"
    using assms by (auto simp: dispatch_boot_def boot_res_Booted split: if_splits)
  moreover from this obtain n where "override_workers getenv (u_workers (cfg_uring c)) = Inr n"
    "ds_params ds = ring_params c n" "ds_fifo_dir ds = ipc_shm_root (cfg_ipc c)"
    using assms cfg by (auto simp: dispatch_boot_def boot_res_Booted split: if_splits)
  ultimately show thesis using that cfg by blast
qed

lemma boots_agree:
  assumes g: "gateway_boot T getenv argv_g = Booted (gs, Some (p, dir))"
    and d: "dispatch_boot T getenv argv_d = Booted ds" and a: "argv_g ! 1 = argv_d ! 1"
  shows "ds_params ds = p \<and> ds_fifo_dir ds = dir \<and> 1 \<le> workers p"
proof -
  obtain cfg c1 n where g': "load_config T (argv_g ! 1) = Inr cfg" "override_instance getenv cfg = Inr c1"
    "override_workers getenv (u_workers (cfg_uring c1)) = Inr n" "p = ring_params c1 n"
    "dir = ipc_shm_root (cfg_ipc c1)"
    by (rule gateway_boot_ring [OF g])
  obtain cfg' c2 m where d': "load_config T (argv_d ! 1) = Inr cfg'"
    "override_instance getenv (override_log_file getenv cfg') = Inr c2"
    "override_workers getenv (u_workers (cfg_uring c2)) = Inr m"
    "ds_params ds = ring_params c2 m" "ds_fifo_dir ds = ipc_shm_root (cfg_ipc c2)"
    by (rule dispatch_boot_Booted [OF d])
  have "cfg' = cfg" using g'(1) d'(1) a by simp
  note s = override_instance_same [OF g'(2) d'(2) [unfolded this]]
  have w: "1 \<le> u_workers (cfg_uring cfg)"
    by (rule load_config_cases [OF g'(1)]) (use validate_uring_range in \<open>auto simp: uring_in_range_def\<close>)
  have "n = m" using g'(3) d'(3) s by simp
  moreover have "1 \<le> n" by (rule override_workers_pos [OF g'(3)]) (use w s in metis)
  ultimately show ?thesis using g' d' s by (simp add: ring_params_def)
qed

text \<open>
  Property C35: the two processes meet. When the gateway and the dispatch process are started
  with the same configuration file and environment and the dispatch process has created or
  recovered the ring files, the gateway opens the same files, however many attempts it has
  made before, as long as its deadline had not passed; both look for the FIFOs in one place.
\<close>

theorem processes_meet:
  assumes "gateway_boot T getenv argv_g = Booted (gs, Some (p, dir))"
    and "dispatch_boot T getenv argv_d = Booted ds" "argv_g ! 1 = argv_d ! 1"
    and "create_or_recover kn (ds_params ds) fs = (Inr (), fs')" "kernel_ok kn'"
    and "\<forall>(k, f, late) \<in> set before. \<not> late"
  shows "open_region p (before @ (kn', fs', late') # rest) = Some (Inr ()) \<and>
    req_notify_path dir p = req_notify_path (ds_fifo_dir ds) (ds_params ds) \<and>
    rsp_notify_path dir p = rsp_notify_path (ds_fifo_dir ds) (ds_params ds)"
proof -
  note b = boots_agree [OF assms(1-3)]
  have "map_all kn' p False fs' = (Inr (), fs')" using created_opens [OF assms(4,5)] b by simp
  from open_region_waits [OF this assms(6)] b show ?thesis by simp
qed

lemma demo_boots:
  "gateway_boot (demo_toml []) Map.empty [''g'', ''c''] =
     Booted (\<lparr>gs_options = \<lparr>rx_buf_bytes = 65536, send_backlog_limit = 1048576, idle_timeout = 60000,
          sq_depth = 256\<rparr>, gs_listen = ''0.0.0.0'', gs_port = 8888, gs_cq_depth = 512, gs_workers = 8,
        gs_accept_backlog = 1024\<rparr>,
      Some (\<lparr>prefix_of = ''bike'', instance_no = 0, workers = 8\<rparr>, ''/dev/shm''))"
  "dispatch_boot (demo_toml []) Map.empty [''d'', ''c''] =
     Booted \<lparr>ds_params = \<lparr>prefix_of = ''bike'', instance_no = 0, workers = 8\<rparr>, ds_fifo_dir = ''/dev/shm'',
       ds_biz_workers = 8, ds_spin_tries = 64, ds_peer_timeout_ms = 5000,
       ds_alive_path = ''/tmp/bike-dispatch'' @ std_to_string 0 @ ''.alive''\<rparr>"
  by (simp_all add: gateway_boot_def dispatch_boot_def load_config_empty default_config_def override_instance_def
      override_log_file_def override_workers_def override_mlock_def gateway_options_def ring_params_def
      boot_res_def to_size_t_def default_server_def default_uring_def default_ipc_def)

theorem processes_meet_witness:
  "\<exists>gs p dir ds fs'. gateway_boot (demo_toml []) Map.empty [''g'', ''c''] = Booted (gs, Some (p, dir)) \<and>
     dispatch_boot (demo_toml []) Map.empty [''d'', ''c''] = Booted ds \<and>
     create_or_recover demo_kernel (ds_params ds) Map.empty = (Inr (), fs') \<and>
     open_region p [(demo_kernel, Map.empty, False), (demo_kernel, fs', False)] = Some (Inr ())"
proof -
  obtain fs' where c: "create_or_recover demo_kernel \<lparr>prefix_of = ''bike'', instance_no = 0, workers = 8\<rparr> Map.empty = (Inr (), fs')"
    using demo_create by blast
  have "kernel_ok demo_kernel" by (simp add: kernel_ok_def demo_kernel_def)
  from processes_meet [OF demo_boots, simplified, OF c this, of "[(demo_kernel, Map.empty, False)]" False "[]"] c
  show ?thesis unfolding demo_boots by simp
qed

end
