(* ===== verification/EngineSetup.thy ===== *)
theory EngineSetup
  imports Startup
begin

text \<open>
  How the gateway engine comes up and goes down: its constructor and destructor, the listening
  socket, the ring and the first operations of \<open>run\<close> (server/src/gateway/uring_engine.cpp), with
  the descriptors the process holds. The system calls are parameters.
\<close>

text \<open>Negative results are failures. \<open>sys_pton\<close> reads a dotted address, \<open>sys_bind\<close> and \<open>sys_queue_init\<close>
  get the address and port, and the two depths.\<close>

record Sys =
  sys_outbox_efd :: int
  sys_stop_efd :: int
  sys_socket :: int
  sys_pton :: "string \<rightharpoonup> u32"
  sys_bind :: "u32 \<Rightarrow> u16 \<Rightarrow> int"
  sys_listen :: "int \<Rightarrow> int"
  sys_queue_init :: "u32 \<Rightarrow> u32 \<Rightarrow> int"

record EngineFds =
  listen_fd :: int
  stop_efd :: int
  outbox_efd :: int
  ring_ready :: bool

text \<open>The outbox is a member, made first and destroyed when the constructor's body throws.\<close>

definition mk_UringEngine :: "Sys \<Rightarrow> int set \<Rightarrow> EngineFds res \<times> int set" where
  "mk_UringEngine sys fds =
     (if sys_outbox_efd sys < 0 then (Inl Runtime_error, fds)
      else let fds1 = insert (sys_outbox_efd sys) fds in
        if sys_stop_efd sys < 0 then (Inl Runtime_error, fds1 - {sys_outbox_efd sys})
        else (Inr \<lparr>listen_fd = - 1, stop_efd = sys_stop_efd sys, outbox_efd = sys_outbox_efd sys,
                   ring_ready = False\<rparr>, insert (sys_stop_efd sys) fds1))"

text \<open>An address that cannot be read stands for all interfaces.\<close>

definition bind_address :: "Sys \<Rightarrow> string \<Rightarrow> u32" where
  "bind_address sys s = (case sys_pton sys s of None \<Rightarrow> 0 | Some a \<Rightarrow> a)"

definition open_listen_socket ::
  "Sys \<Rightarrow> GatewaySetup \<Rightarrow> EngineFds \<Rightarrow> int set \<Rightarrow> unit res \<times> EngineFds \<times> int set" where
  "open_listen_socket sys gs en fds =
     (let fd = sys_socket sys; en1 = en\<lparr>listen_fd := fd\<rparr> in
      if fd < 0 then (Inl Runtime_error, en1, fds)
      else if sys_bind sys (bind_address sys (gs_listen gs)) (word_of_int (gs_port gs)) < 0
      then (Inl Runtime_error, en1, insert fd fds)
      else if sys_listen sys (gs_accept_backlog gs) < 0 then (Inl Runtime_error, en1, insert fd fds)
      else (Inr (), en1, insert fd fds))"

definition init_ring :: "Sys \<Rightarrow> GatewaySetup \<Rightarrow> EngineFds \<Rightarrow> unit res \<times> EngineFds" where
  "init_ring sys gs en =
     (if sys_queue_init sys (word_of_int (sq_depth (gs_options gs))) (word_of_int (gs_cq_depth gs)) < 0
      then (Inl Runtime_error, en) else (Inr (), en\<lparr>ring_ready := True\<rparr>))"

text \<open>\<open>run\<close> up to its loop.\<close>

definition engine_start ::
  "Sys \<Rightarrow> GatewaySetup \<Rightarrow> (Ring \<times> Consumer) option \<Rightarrow> bool list \<Rightarrow> int \<Rightarrow> EngineFds \<Rightarrow> int set \<Rightarrow>
   Engine res \<times> EngineFds \<times> int set" where
  "engine_start sys gs rs sqs now en fds =
     (case open_listen_socket sys gs en fds of
        (Inl x, en1, fds1) \<Rightarrow> (Inl x, en1, fds1)
      | (Inr _, en1, fds1) \<Rightarrow>
          (case init_ring sys gs en1 of
             (Inl x, en2) \<Rightarrow> (Inl x, en2, fds1)
           | (Inr _, en2) \<Rightarrow>
               (case validate_sq_capacity (gs_options gs) of
                  Inl x \<Rightarrow> (Inl x, en2, fds1)
                | Inr _ \<Rightarrow> (Inr (eng_init rs sqs now), en2, fds1))))"

text \<open>The loop closes the listening socket once when the shutdown begins.\<close>

definition stop_listening :: "EngineFds \<Rightarrow> int set \<Rightarrow> EngineFds \<times> int set" where
  "stop_listening en fds = (if listen_fd en \<ge> 0 then (en\<lparr>listen_fd := - 1\<rparr>, fds - {listen_fd en}) else (en, fds))"

definition engine_destroy :: "EngineFds \<Rightarrow> int set \<Rightarrow> int set" where
  "engine_destroy en fds =
     (let fds1 = (if listen_fd en \<ge> 0 then fds - {listen_fd en} else fds);
          fds2 = (if stop_efd en \<ge> 0 then fds1 - {stop_efd en} else fds1) in
      if outbox_efd en \<ge> 0 then fds2 - {outbox_efd en} else fds2)"

text \<open>The kernel hands out descriptors that are not open.\<close>

definition fresh_fds :: "Sys \<Rightarrow> int set \<Rightarrow> bool" where
  "fresh_fds sys fds \<longleftrightarrow> sys_outbox_efd sys \<notin> fds \<and> sys_stop_efd sys \<notin> insert (sys_outbox_efd sys) fds \<and>
     sys_socket sys \<notin> {sys_outbox_efd sys, sys_stop_efd sys} \<union> fds"

text \<open>Whatever call of the start fails, the destructor leaves the descriptors as they were before
  the constructor, whether or not the shutdown has closed the socket already.\<close>

lemma start_fds:
  assumes "engine_start sys gs rs sqs now en fds = (r, en2, fds2)"
  shows "listen_fd en2 = sys_socket sys" "stop_efd en2 = stop_efd en" "outbox_efd en2 = outbox_efd en"
    "fds2 = (if sys_socket sys < 0 then fds else insert (sys_socket sys) fds)"
proof -
  obtain r1 en1 fds1 where o: "open_listen_socket sys gs en fds = (r1, en1, fds1)" by (metis prod_cases3)
  obtain r2 en3 where i: "init_ring sys gs en1 = (r2, en3)" by fastforce
  have "en1 = en\<lparr>listen_fd := sys_socket sys\<rparr> \<and> fds1 = (if sys_socket sys < 0 then fds else insert (sys_socket sys) fds)"
    using o by (simp add: open_listen_socket_def Let_def split: if_splits)
  moreover have "en3 = en1 \<or> en3 = en1\<lparr>ring_ready := True\<rparr>" using i by (simp add: init_ring_def split: if_splits)
  moreover have "(en2 = en1 \<or> en2 = en3) \<and> fds2 = fds1"
    using assms o i by (simp add: engine_start_def split: sum.splits)
  ultimately show "listen_fd en2 = sys_socket sys" "stop_efd en2 = stop_efd en" "outbox_efd en2 = outbox_efd en"
    "fds2 = (if sys_socket sys < 0 then fds else insert (sys_socket sys) fds)"
    by auto
qed

lemma engine_fds_returned:
  assumes "fresh_fds sys fds" "mk_UringEngine sys fds = (Inr en, fds1)"
    "engine_start sys gs rs sqs now en fds1 = (r, en2, fds2)"
  shows "engine_destroy en2 fds2 = fds"
    "engine_destroy (fst (stop_listening en2 fds2)) (snd (stop_listening en2 fds2)) = fds"
proof -
  have m: "0 \<le> sys_outbox_efd sys" "0 \<le> sys_stop_efd sys" "stop_efd en = sys_stop_efd sys"
    "outbox_efd en = sys_outbox_efd sys" "fds1 = insert (sys_stop_efd sys) (insert (sys_outbox_efd sys) fds)"
    using assms(2) by (simp_all add: mk_UringEngine_def Let_def split: if_splits) auto
  note f = start_fds [OF assms(3)]
  have "fds2 - {sys_socket sys} - {sys_stop_efd sys} - {sys_outbox_efd sys} = fds" if "0 \<le> sys_socket sys"
    using assms(1) that by (auto simp: f m fresh_fds_def)
  moreover have "fds2 - {sys_stop_efd sys} - {sys_outbox_efd sys} = fds" if "sys_socket sys < 0"
    using assms(1) that by (auto simp: f m fresh_fds_def)
  ultimately show "engine_destroy en2 fds2 = fds"
    "engine_destroy (fst (stop_listening en2 fds2)) (snd (stop_listening en2 fds2)) = fds"
    using m(1,2) by (cases "0 \<le> sys_socket sys"; simp add: engine_destroy_def stop_listening_def f(1-3) m(3,4))+
qed

lemma engine_ctor_failed: "fresh_fds sys fds \<Longrightarrow> mk_UringEngine sys fds = (Inl x, fds1) \<Longrightarrow> fds1 = fds"
  by (auto simp: fresh_fds_def mk_UringEngine_def Let_def split: if_splits)

text \<open>The engine starts exactly when every call succeeds for the configured address, port and
  depths and the submission queue is deep enough.\<close>

lemma engine_starts_iff:
  "(\<exists>e en2 fds2. engine_start sys gs rs sqs now en fds = (Inr e, en2, fds2)) \<longleftrightarrow>
     0 \<le> sys_socket sys \<and> 0 \<le> sys_bind sys (bind_address sys (gs_listen gs)) (word_of_int (gs_port gs)) \<and>
     0 \<le> sys_listen sys (gs_accept_backlog gs) \<and>
     0 \<le> sys_queue_init sys (word_of_int (sq_depth (gs_options gs))) (word_of_int (gs_cq_depth gs)) \<and>
     128 \<le> sq_depth (gs_options gs)"
  by (auto simp: engine_start_def open_listen_socket_def init_ring_def validate_sq_capacity_def kMinSqDepth_def
      Let_def not_less)

text \<open>A started engine waits for connections, for its workers and for the stop, unless the queue
  was exhausted already.\<close>

lemma engine_started_armed:
  assumes "engine_start sys gs rs [] now en fds = (Inr e, en2, fds2)"
  shows "set (ops e) = {Accept, Wakeup, Stop} \<union> (if rs = None then {} else {RspNotify})"
proof -
  have "e = eng_init rs [] now" using assms
    by (auto simp: engine_start_def split: prod.splits sum.splits)
  then show ?thesis by (auto simp: eng_init_def Let_def submit_accept_def submit_eventfd_read_def
        submit_stop_read_def submit_rsp_notify_read_def submit_op_def get_sqe_def)
qed

end
