(* ===== verification/DispatchLoop.thy ===== *)
theory DispatchLoop
  imports Dispatch
begin

text \<open>
  The reader thread of the dispatch process as a whole (server/src/dispatch/dispatch_main.cpp):
  one round takes the requests off the rings, flushes the replies and keeps the heartbeats and
  counters. The result ties the parts together: what is asked is answered.
\<close>

record 'c Proc =
  pr_disp :: "'c Disp"
  pr_reader :: Reader
  pr_rsp :: Ring
  pr_prod :: Producer
  pr_taken :: "msg list"
  pr_notified :: nat
  pr_flush_total :: u64
  pr_peak :: nat
  pr_last_metrics :: u64

text \<open>
  What a round meets: where memory runs out, the outcome of \<open>poll\<close>, what the gateway does to
  the rings meanwhile, and the time. \<open>pr_taken\<close> collects what the gateway takes from the response
  ring during a flush.
\<close>

record RoundEnv =
  re_alloc :: "Slot \<Rightarrow> bool"
  re_post :: "Slot \<Rightarrow> bool"
  re_poll :: PollOutcome
  re_rings :: "nat \<Rightarrow> (Ring \<times> Consumer) list \<Rightarrow> (Ring \<times> Consumer) list"
  re_flush :: "(nat \<times> bool) list"
  re_now :: u64

definition metrics_round :: "u64 \<Rightarrow> 'c Proc \<Rightarrow> 'c Proc" where
  "metrics_round now P =
     (if now - pr_last_metrics P \<ge> 30000000000 then P\<lparr>pr_last_metrics := now\<rparr> else P)"

text \<open>One round of the loop; None while a flush is still waiting for room, an exception when
  an assertion fails.\<close>

definition reader_round :: "nat \<Rightarrow> nat \<Rightarrow> RoundEnv \<Rightarrow> 'c Proc \<Rightarrow> 'c Proc res option" where
  "reader_round spin_tries peer_timeout_ms e P =
     (if rd_stopping (pr_reader P) then Some (Inr P)
      else
        case wait_pop (on_request (re_alloc e) (re_post e)) spin_tries True True (re_poll e) (re_rings e)
               (rd_rings (pr_reader P)) (pr_disp P) of
          (n, rcs, d) \<Rightarrow>
            (case flush_replies (re_flush e) (d_replies d) (pr_rsp P) (pr_prod P) of
               None \<Rightarrow> None
             | Some (Inl x) \<Rightarrow> Some (Inl x)
             | Some (Inr (fl, q, notify)) \<Rightarrow>
                 (case heartbeat_round (re_now e) peer_timeout_ms (fl_ring fl) ((pr_reader P)\<lparr>rd_rings := rcs\<rparr>) of
                    (rsp, rd) \<Rightarrow>
                      Some (Inr (metrics_round (re_now e)
                        (P\<lparr>pr_disp := d\<lparr>d_replies := q\<rparr>, pr_reader := rd, pr_rsp := rsp, pr_prod := fl_prod fl,
                           pr_taken := pr_taken P @ fl_taken fl,
                           pr_notified := pr_notified P + of_bool notify,
                           pr_flush_total := pr_flush_total P + 1,
                           pr_peak := max (pr_peak P) (length (rpq (d_replies d)))\<rparr>))))))"

text \<open>The pool runs all queued tasks between two rounds.\<close>

definition pool_all :: "'c Router \<Rightarrow> 'c Proc \<Rightarrow> 'c Proc" where
  "pool_all rt P = P\<lparr>pr_disp := pool_run (length (d_tasks (pr_disp P))) rt (pr_disp P)\<rparr>"

subsection \<open>Requests become tasks\<close>

definition task_of :: "Slot \<Rightarrow> Task" where
  "task_of slot = \<lparr>tk_conn_id = conn_id (pkt slot), tk_eid = pkt_event_id (pkt slot), tk_seq = pkt_seq (pkt slot),
     tk_one_way = (flags (pkt slot) AND kFlagOneWay \<noteq> 0),
     tk_payload = take (unat (payload_len (pkt slot))) (payload slot)\<rparr>"

lemma on_request_replies: "d_replies (on_request af pf slot d) = d_replies d"
  "d_ctx (on_request af pf slot d) = d_ctx d"
  by (simp_all add: on_request_def Let_def)

lemma on_request_posts:
  assumes "\<forall>s \<in> set qs. unat (payload_len (pkt s)) \<le> kPayloadMax kReqSlotSize"
    and "\<forall>s. \<not> af s" "\<forall>s. \<not> pf s"
  shows "d_tasks (fold (on_request af pf) qs d) = d_tasks d @ map task_of qs \<and>
    d_replies (fold (on_request af pf) qs d) = d_replies d \<and> d_ctx (fold (on_request af pf) qs d) = d_ctx d"
  using assms(1)
proof (induction qs arbitrary: d)
  case (Cons s qs)
  have "d_tasks (on_request af pf s d) = d_tasks d @ [task_of s]"
    using Cons.prems assms(2,3) by (simp add: on_request_def Let_def task_of_def not_less [symmetric])
  with Cons.IH [of "on_request af pf s d"] Cons.prems show ?case by (simp add: on_request_replies)
qed simp

text \<open>What the callback leaves alone survives a look at the rings.\<close>

lemma fold_keeps: "(\<And>s st. f (cb s st) = f st) \<Longrightarrow> f (fold cb ss st) = f st"
  by (induction ss arbitrary: st) simp_all

lemma pop_ring_keeps:
  assumes "\<And>s st. f (cb s st) = f st"
  shows "f (snd (snd (snd (pop_ring cb r c n st)))) = f st"
  using assms
proof (induction cb r c n st rule: pop_ring.induct)
  case (1 cb r c n_sum st)
  show ?case
  proof (cases "pop_batch kReqBits r c 64")
    case (Pair n w)
    show ?thesis
    proof (cases w)
      case None
      with Pair show ?thesis by (subst pop_ring.simps) simp
    next
      case (Some i)
      obtain r' c' where rel: "release n r c = (r', c')" by fastforce
      have "f (snd (snd (snd (pop_ring cb r' c' (n_sum + n) (fold cb (take (unat n) (drop i (slots r))) st))))) =
          f (fold cb (take (unat n) (drop i (slots r))) st)"
        using 1(1) [OF Pair [symmetric] Some rel [symmetric] 1(2)] Some by simp
      also have "\<dots> = f st" by (rule fold_keeps) (rule 1(2))
      finally show ?thesis using Pair Some rel by (subst pop_ring.simps) simp
    qed
  qed
qed

lemma pop_once_keeps:
  assumes "\<And>s st. f (cb s st) = f st"
  shows "f (snd (snd (pop_once cb rcs n st))) = f st"
proof (induction rcs arbitrary: n st)
  case (Cons rc rcs)
  obtain r c where rc: "rc = (r, c)" by fastforce
  obtain n1 r' c' st1 where p: "pop_ring cb r c n st = (n1, r', c', st1)" by (metis surj_pair)
  have "f st1 = f st" using pop_ring_keeps [of f cb r c n st] assms p by simp
  with Cons.IH [of n1 st1] rc p show ?case by (auto split: prod.split)
qed simp

lemma spin_pop_keeps:
  assumes "\<And>s st. f (cb s st) = f st"
  shows "f (snd (snd (spin_pop cb env look tries rcs st))) = f st"
proof (induction tries arbitrary: look rcs st)
  case (Suc tries)
  obtain n rcs' st' where p: "pop_once cb (env look rcs) 0 st = (n, rcs', st')" by (metis surj_pair)
  have "f st' = f st" using pop_once_keeps [of f cb "env look rcs" 0 st] assms p by simp
  with Suc.IH [of "Suc look" rcs' st'] p show ?case by simp
qed simp

lemma wait_pop_keeps:
  assumes "\<And>s st. f (cb s st) = f st"
  shows "f (snd (snd (wait_pop cb spin_tries nfd wfd po env rcs st))) = f st"
proof -
  obtain n rcs1 st1 where p: "pop_once cb (env 0 rcs) 0 st = (n, rcs1, st1)" by (metis surj_pair)
  obtain h rcs2 st2 where s: "spin_pop cb env 1 spin_tries rcs1 st1 = (h, rcs2, st2)" by (metis surj_pair)
  have "f st1 = f st" "f st2 = f st1"
    using pop_once_keeps [of f cb "env 0 rcs" 0 st] spin_pop_keeps [of f cb env 1 spin_tries rcs1 st1] assms p s by simp_all
  with pop_once_keeps [of f cb "env (Suc spin_tries) rcs2" 0 st2] assms p s show ?thesis
    by (simp add: wait_pop_def)
qed

text \<open>When requests are queued, \<open>wait_pop\<close> hands all of them to the callback.\<close>

definition queued_requests :: "(Ring \<times> Consumer) list \<Rightarrow> Slot list" where
  "queued_requests rcs = concat (map (queued_slots kReqBits \<circ> fst) rcs)"

lemma wait_pop_takes:
  assumes "\<forall>(r, c) \<in> set (env 0 rcs). consumer_ok kReqBits ss r c"
    and "queued_requests (env 0 rcs) \<noteq> []" "length (queued_requests (env 0 rcs)) < 2 ^ 32"
  shows "snd (snd (wait_pop cb spin_tries nfd wfd po env rcs st)) = fold cb (queued_requests (env 0 rcs)) st"
proof -
  define l where "l = length (concat (map (contents kReqBits \<circ> fst) (env 0 rcs)))"
  have "l = length (queued_requests (env 0 rcs))"
    by (simp add: l_def queued_requests_def length_concat comp_def length_queued)
  then have "0 < l" "l < 2 ^ 32" using assms(2,3) by simp_all
  then have "(0 :: u32) < word_of_nat l" by (simp add: word_less_nat_alt unsigned_of_nat take_bit_nat_eq_self)
  with pop_once_ok [OF assms(1), of cb 0 st, folded l_def] show ?thesis
    by (auto simp: wait_pop_def queued_requests_def)
qed

subsection \<open>Tasks become replies\<close>

text \<open>The replies of a queue of tasks, run one after the other.\<close>

definition task_reply :: "Task \<Rightarrow> bytes res \<Rightarrow> ReplyItem list" where
  "task_reply tk res =
     (case res of
        Inl e \<Rightarrow> []
      | Inr frame \<Rightarrow>
          if \<not> tk_one_way tk \<and> frame \<noteq> [] \<and> fst (stamp_seq frame (tk_seq tk))
          then [\<lparr>rp_conn_id = tk_conn_id tk, rp_seq = tk_seq tk, rp_one_way = False,
                 rp_frame = snd (stamp_seq frame (tk_seq tk))\<rparr>]
          else [])"

fun run_replies :: "'c Router \<Rightarrow> 'c \<Rightarrow> Task list \<Rightarrow> ReplyItem list" where
  "run_replies rt ctx [] = []"
| "run_replies rt ctx (tk # tks) =
     (case router_dispatch rt (tk_eid tk) (tk_payload tk) ctx of
        (res, ctx') \<Rightarrow> task_reply tk res @ run_replies rt ctx' tks)"

lemma run_task_replies:
  assumes "router_dispatch rt (tk_eid tk) (tk_payload tk) (d_ctx d) = (res, ctx')"
  shows "rpq (d_replies (run_task rt tk d)) = rpq (d_replies d) @ task_reply tk res"
    and "d_ctx (run_task rt tk d) = ctx'"
  using assms
  by (auto simp: run_task_def task_reply_def reply_push_def Let_def split: sum.split prod.split bool.split)

lemma pool_run_replies:
  "rpq (d_replies (pool_run (length (d_tasks d)) rt d)) = rpq (d_replies d) @ run_replies rt (d_ctx d) (d_tasks d)"
proof (induction "d_tasks d" arbitrary: d)
  case (Cons tk tks)
  obtain res ctx' where r: "router_dispatch rt (tk_eid tk) (tk_payload tk) (d_ctx d) = (res, ctx')" by fastforce
  let ?d = "run_task rt tk (d\<lparr>d_tasks := tks\<rparr>)"
  have "pool_step rt d = ?d" using Cons.hyps(2) by (simp add: pool_step_def flip: Cons.hyps(2))
  moreover have "d_tasks ?d = tks" by (simp add: run_task_tasks)
  moreover have "rpq (d_replies ?d) = rpq (d_replies d) @ task_reply tk res" "d_ctx ?d = ctx'"
    using run_task_replies [of rt tk "d\<lparr>d_tasks := tks\<rparr>"] r by simp_all
  ultimately show ?case using Cons.hyps(1) [of ?d] r by (simp flip: Cons.hyps(2))
qed (metis append_Nil2 list.size(3) pool_run.simps(1) run_replies.simps(1))

subsection \<open>Requests are answered\<close>

lemma heartbeat_round_ring:
  assumes "heartbeat_round now t r rd = (r', rd')"
  shows "contents k r' = contents k r" "producer_ok k ss r' p = producer_ok k ss r p"
  using assms
  by (auto simp: heartbeat_round_def producer_heartbeat_def contents_def producer_ok_def slots_ok_def used_def Let_def
      split: if_splits)

lemma metrics_keeps [simp]:
  "pr_disp (metrics_round now P) = pr_disp P" "pr_reader (metrics_round now P) = pr_reader P"
  "pr_rsp (metrics_round now P) = pr_rsp P" "pr_prod (metrics_round now P) = pr_prod P"
  "pr_taken (metrics_round now P) = pr_taken P"
  by (simp_all add: metrics_round_def)

text \<open>A round whose flush succeeds.\<close>

lemma reader_round_flushed:
  assumes "\<not> rd_stopping (pr_reader P)" "producer_ok kRspBits kRspSlotSize (pr_rsp P) (pr_prod P)"
    and "unpublished (pr_prod P) = 0"
    and "\<forall>it \<in> set (rpq (d_replies (pr_disp P))). length (rp_frame it) \<le> kRspPayloadMax"
    and "length (contents kRspBits (pr_rsp P)) + length (rpq (d_replies (pr_disp P))) \<le> 256"
    and "length (rpq (d_replies (pr_disp P))) \<le> length (re_flush e)"
  obtains P' taken where "reader_round spin t e P = Some (Inr P')"
    "pr_taken P' = pr_taken P @ taken"
    "taken @ contents kRspBits (pr_rsp P') = contents kRspBits (pr_rsp P) @ map reply_msg (rpq (d_replies (pr_disp P)))"
    "producer_ok kRspBits kRspSlotSize (pr_rsp P') (pr_prod P')" "unpublished (pr_prod P') = 0"
    "rpq (d_replies (pr_disp P')) = []"
    "pr_disp P' = (snd (snd (wait_pop (on_request (re_alloc e) (re_post e)) spin True True (re_poll e) (re_rings e)
       (rd_rings (pr_reader P)) (pr_disp P))))\<lparr>d_replies := d_replies (pr_disp P')\<rparr>"
proof -
  obtain n rcs d where w: "wait_pop (on_request (re_alloc e) (re_post e)) spin True True (re_poll e) (re_rings e)
      (rd_rings (pr_reader P)) (pr_disp P) = (n, rcs, d)" by (metis surj_pair)
  have d: "d_replies d = d_replies (pr_disp P)"
    using wait_pop_keeps [of d_replies "on_request (re_alloc e) (re_post e)" spin True True "re_poll e" "re_rings e"
        "rd_rings (pr_reader P)" "pr_disp P"] w by (simp add: on_request_replies)
  obtain fl q nt where fl: "flush_replies (re_flush e) (d_replies d) (pr_rsp P) (pr_prod P) = Some (Inr (fl, q, nt))"
    "fl_dropped fl = []"
    using flush_replies_completes [OF assms(2-6)] d by metis
  have fits: "\<forall>it \<in> set (rpq (d_replies d)). reply_fits it"
    using assms(4) d by (simp add: reply_fits_def kRspPayloadMax_def kPayloadMax_def)
  have f: "rpq q = []" "rsp_ok (fl_ring fl) (fl_prod fl)" "unpublished (fl_prod fl) = 0"
    "fl_taken fl @ contents kRspBits (fl_ring fl) = contents kRspBits (pr_rsp P) @ map reply_msg (rpq (d_replies d))"
    using flush_replies_ok [OF assms(2,3) fits fl(1)] fl(2) by auto
  obtain rsp rd where h: "heartbeat_round (re_now e) t (fl_ring fl) ((pr_reader P)\<lparr>rd_rings := rcs\<rparr>) = (rsp, rd)"
    by fastforce
  note hb = heartbeat_round_ring [OF h]
  show thesis
    using that [of _ "fl_taken fl"] assms(1) w fl(1) h f hb d by (simp add: reader_round_def)
qed

text \<open>A round that finds requests and no replies posts the tasks.\<close>

lemma round_posts:
  assumes "\<not> rd_stopping (pr_reader P)" "\<forall>(r, c) \<in> set (rd_rings (pr_reader P)). consumer_ok kReqBits kReqSlotSize r c"
    and "qs = queued_requests (rd_rings (pr_reader P))" "qs \<noteq> []" "length qs < 2 ^ 32"
    and "\<forall>s \<in> set qs. unat (payload_len (pkt s)) \<le> kPayloadMax kReqSlotSize"
    and "producer_ok kRspBits kRspSlotSize (pr_rsp P) (pr_prod P)" "unpublished (pr_prod P) = 0"
    and "d_tasks (pr_disp P) = []" "rpq (d_replies (pr_disp P)) = []" "length (contents kRspBits (pr_rsp P)) \<le> 256"
    and "\<forall>s. \<not> re_alloc e s" "\<forall>s. \<not> re_post e s" "re_rings e 0 (rd_rings (pr_reader P)) = rd_rings (pr_reader P)"
  obtains P' tk where "reader_round spin t e P = Some (Inr P')" "pr_taken P' = pr_taken P @ tk"
    "tk @ contents kRspBits (pr_rsp P') = contents kRspBits (pr_rsp P)"
    "producer_ok kRspBits kRspSlotSize (pr_rsp P') (pr_prod P')" "unpublished (pr_prod P') = 0"
    "rpq (d_replies (pr_disp P')) = []" "d_tasks (pr_disp P') = map task_of qs" "d_ctx (pr_disp P') = d_ctx (pr_disp P)"
proof -
  let ?w = "wait_pop (on_request (re_alloc e) (re_post e)) spin True True (re_poll e) (re_rings e)
    (rd_rings (pr_reader P)) (pr_disp P)"
  have w: "snd (snd ?w) = fold (on_request (re_alloc e) (re_post e)) qs (pr_disp P)"
    using wait_pop_takes [where env = "re_rings e" and rcs = "rd_rings (pr_reader P)"] assms(2-5,14) by simp
  obtain P' tk where r: "reader_round spin t e P = Some (Inr P')" "pr_taken P' = pr_taken P @ tk"
    "tk @ contents kRspBits (pr_rsp P') = contents kRspBits (pr_rsp P)"
    "producer_ok kRspBits kRspSlotSize (pr_rsp P') (pr_prod P')" "unpublished (pr_prod P') = 0"
    "rpq (d_replies (pr_disp P')) = []" "pr_disp P' = (snd (snd ?w))\<lparr>d_replies := d_replies (pr_disp P')\<rparr>"
    by (rule reader_round_flushed [OF assms(1,7,8), of e spin t]) (use assms(10,11) in auto)
  have "d_tasks (pr_disp P') = map task_of qs" "d_ctx (pr_disp P') = d_ctx (pr_disp P)"
    using arg_cong [OF r(7), of d_tasks] arg_cong [OF r(7), of d_ctx] w
      on_request_posts [OF assms(6,12,13), of "pr_disp P"] assms(9) by simp_all
  then show thesis using that r(1-6) by blast
qed

text \<open>After the pool has run them, a round delivers the replies.\<close>

lemma round_delivers:
  assumes "\<not> rd_stopping (pr_reader P)" "producer_ok kRspBits kRspSlotSize (pr_rsp P) (pr_prod P)"
    and "unpublished (pr_prod P) = 0" "rpq (d_replies (pr_disp P)) = []"
    and "replies = run_replies rt (d_ctx (pr_disp P)) (d_tasks (pr_disp P))"
    and "\<forall>it \<in> set replies. length (rp_frame it) \<le> kRspPayloadMax"
    and "length (contents kRspBits (pr_rsp P)) + length replies \<le> 256" "length replies \<le> length (re_flush e)"
  obtains P' tk where "reader_round spin t e (pool_all rt P) = Some (Inr P')" "pr_taken P' = pr_taken P @ tk"
    "tk @ contents kRspBits (pr_rsp P') = contents kRspBits (pr_rsp P) @ map reply_msg replies"
proof -
  let ?P = "pool_all rt P"
  have r: "rpq (d_replies (pr_disp ?P)) = replies"
    using pool_run_replies [of "pr_disp P" rt] assms(4,5) by (simp add: pool_all_def)
  have p: "pr_reader ?P = pr_reader P" "pr_rsp ?P = pr_rsp P" "pr_prod ?P = pr_prod P" "pr_taken ?P = pr_taken P"
    by (simp_all add: pool_all_def)
  show thesis
    by (rule reader_round_flushed [of ?P e spin t, unfolded r p, OF assms(1-3,6-8)]) (rule that)
qed


text \<open>A request ring with one empty request of id 0, and a handler that answers it.\<close>

definition one_req_ring :: Ring where
  "one_req_ring = demo_req_ring\<lparr>hdr := (hdr demo_req_ring)\<lparr>head := 0\<rparr>\<rparr>"

definition answer_router :: "unit Router" where
  "answer_router = \<lparr>handlers = [0 \<mapsto> (\<lambda>pl ctx. (Inr (wire \<lparr>fr_event_id = 2, fr_seq = 0, fr_payload = []\<rparr>), ctx))]\<rparr>"

definition answer_proc :: "unit Proc" where
  "answer_proc = \<lparr>pr_disp = \<lparr>d_tasks = [], d_inflight = 0, d_consumed = 0, d_replies = \<lparr>rpq = []\<rparr>, d_ctx = ()\<rparr>,
     pr_reader = \<lparr>rd_rings = [(one_req_ring, mk_Consumer one_req_ring)], rd_last_hb = 0, rd_peer_seen = False,
                  rd_stopping = False\<rparr>,
     pr_rsp = demo_rsp_ring, pr_prod = mk_Producer demo_rsp_ring, pr_taken = [], pr_notified = 0,
     pr_flush_total = 0, pr_peak = 0, pr_last_metrics = 0\<rparr>"

definition answer_round :: RoundEnv where
  "answer_round = \<lparr>re_alloc = (\<lambda>s. False), re_post = (\<lambda>s. False), re_poll = \<lparr>poll_fatal = False, wake_readable = False\<rparr>,
     re_rings = (\<lambda>i rcs. rcs), re_flush = [(0, False)], re_now = 1\<rparr>"

lemma one_req:
  "queued_requests [(one_req_ring, mk_Consumer one_req_ring)] =
     [\<lparr>pkt = packet0, payload = replicate (kPayloadMax kReqSlotSize) 0\<rparr>]"
  "consumer_ok kReqBits kReqSlotSize one_req_ring (mk_Consumer one_req_ring)"
proof -
  have "slot_ix kReqBits w < 2 ^ kReqBits" for w by (rule slot_ix_less) simp
  then show "queued_requests [(one_req_ring, mk_Consumer one_req_ring)] =
      [\<lparr>pkt = packet0, payload = replicate (kPayloadMax kReqSlotSize) 0\<rparr>]"
    by (simp add: queued_requests_def queued_slots_def one_req_ring_def demo_req_ring_def blank_ring_def)
  show "consumer_ok kReqBits kReqSlotSize one_req_ring (mk_Consumer one_req_ring)"
    using demo_req_ok(2) by (simp add: one_req_ring_def demo_req_ring_def blank_ring_def consumer_ok_def
        slots_ok_def mk_Consumer_def kReqBits_def)
qed

definition answer_item :: ReplyItem where
  "answer_item = \<lparr>rp_conn_id = 0, rp_seq = 0, rp_one_way = False,
     rp_frame = wire \<lparr>fr_event_id = 2, fr_seq = 0, fr_payload = []\<rparr>\<rparr>"

lemma answer_replies:
  "run_replies answer_router () (map task_of [\<lparr>pkt = packet0, payload = replicate (kPayloadMax kReqSlotSize) 0\<rparr>]) = [answer_item]"
proof -
  have "wire f \<noteq> []" for f by (simp add: wire_def header_def kFrameMagic_def)
  then show ?thesis
    by (simp add: task_of_def packet0_def router_dispatch_def answer_router_def task_reply_def stamp_wire answer_item_def)
qed


end
