(* ===== verification/WorkPool.thy ===== *)
theory WorkPool
  imports Prelude
begin

text \<open>
  The pool of business threads (server/include/server/util/thread_pool.hpp): a queue under a
  mutex, a condition variable, worker threads that run one task after the other, and a
  destructor that lets them finish. What a thread does under the mutex is one step; tasks run
  outside. A thread between two tasks is about to take the mutex and look at the queue, or
  waits on the condition variable.
\<close>

datatype 'f Worker = Looking | Waiting | Busy 'f | Gone

text \<open>\<open>wp_one\<close> counts the calls of \<open>notify_one\<close> that \<open>post\<close> still has to make, \<open>wp_all\<close> says whether the
  destructor has yet to call \<open>notify_all\<close>. \<open>wp_posted\<close> and \<open>wp_started\<close> record the tasks.\<close>

record 'f ThreadPool =
  wp_workers :: "'f Worker list"
  wp_q :: "'f list"
  wp_stop :: bool
  wp_one :: nat
  wp_all :: bool
  wp_posted :: "'f list"
  wp_started :: "'f list"

definition mk_ThreadPool :: "nat \<Rightarrow> 'f ThreadPool" where
  "mk_ThreadPool n = \<lparr>wp_workers = replicate n Looking, wp_q = [], wp_stop = False, wp_one = 0, wp_all = False,
     wp_posted = [], wp_started = []\<rparr>"

definition wp_set :: "nat \<Rightarrow> 'f Worker \<Rightarrow> 'f ThreadPool \<Rightarrow> 'f ThreadPool" where
  "wp_set i w p = p\<lparr>wp_workers := (wp_workers p)[i := w]\<rparr>"

text \<open>One pass of the body of the worker's loop up to the task: the predicate of \<open>wait\<close>, the
  return when stopping, taking the oldest task.\<close>

definition wp_look :: "nat \<Rightarrow> 'f ThreadPool \<Rightarrow> 'f ThreadPool" where
  "wp_look i p =
     (if \<not> (wp_stop p \<or> wp_q p \<noteq> []) then wp_set i Waiting p
      else if wp_stop p \<and> wp_q p = [] then wp_set i Gone p
      else wp_set i (Busy (hd (wp_q p))) (p\<lparr>wp_q := tl (wp_q p), wp_started := wp_started p @ [hd (wp_q p)]\<rparr>))"

definition wp_post :: "'f \<Rightarrow> 'f ThreadPool \<Rightarrow> 'f ThreadPool" where
  "wp_post f p = p\<lparr>wp_q := wp_q p @ [f], wp_posted := wp_posted p @ [f], wp_one := wp_one p + 1\<rparr>"

definition wp_destroy :: "'f ThreadPool \<Rightarrow> 'f ThreadPool" where
  "wp_destroy p = p\<lparr>wp_stop := True, wp_all := True\<rparr>"

definition notify_all :: "'f ThreadPool \<Rightarrow> 'f ThreadPool" where
  "notify_all p = p\<lparr>wp_all := False, wp_workers := map (\<lambda>w. if w = Waiting then Looking else w) (wp_workers p)\<rparr>"

text \<open>The steps of the pool itself. A task may return or throw: the thread goes on either way.\<close>

inductive pool_runs :: "'f ThreadPool \<Rightarrow> 'f ThreadPool \<Rightarrow> bool" where
  look: "i < length (wp_workers p) \<Longrightarrow> wp_workers p ! i = Looking \<Longrightarrow> pool_runs p (wp_look i p)"
| finish: "i < length (wp_workers p) \<Longrightarrow> wp_workers p ! i = Busy f \<Longrightarrow> pool_runs p (wp_set i Looking p)"
| wake: "0 < wp_one p \<Longrightarrow> i < length (wp_workers p) \<Longrightarrow> wp_workers p ! i = Waiting \<Longrightarrow>
    pool_runs p (wp_set i Looking (p\<lparr>wp_one := wp_one p - 1\<rparr>))"
| wake_none: "0 < wp_one p \<Longrightarrow> Waiting \<notin> set (wp_workers p) \<Longrightarrow> pool_runs p (p\<lparr>wp_one := wp_one p - 1\<rparr>)"
| wake_all: "wp_all p \<Longrightarrow> pool_runs p (notify_all p)"

text \<open>With the steps from outside: tasks are posted before the destructor runs, and a thread may
  wake up for no reason.\<close>

inductive pool_step_all :: "'f ThreadPool \<Rightarrow> 'f ThreadPool \<Rightarrow> bool" where
  runs: "pool_runs p p' \<Longrightarrow> pool_step_all p p'"
| posted: "\<not> wp_stop p \<Longrightarrow> pool_step_all p (wp_post f p)"
| destroyed: "\<not> wp_stop p \<Longrightarrow> pool_step_all p (wp_destroy p)"
| spurious: "i < length (wp_workers p) \<Longrightarrow> wp_workers p ! i = Waiting \<Longrightarrow> pool_step_all p (wp_set i Looking p)"

subsection \<open>No wakeup is lost\<close>

fun awake :: "'f Worker \<Rightarrow> bool" where
  "awake Looking = True" | "awake (Busy f) = True" | "awake Waiting = False" | "awake Gone = False"

definition wp_inv :: "'f ThreadPool \<Rightarrow> bool" where
  "wp_inv p \<longleftrightarrow> wp_workers p \<noteq> [] \<and> wp_posted p = wp_started p @ wp_q p \<and>
     (Gone \<in> set (wp_workers p) \<longrightarrow> wp_stop p \<and> wp_q p = []) \<and>
     (wp_q p \<noteq> [] \<longrightarrow> 0 < wp_one p \<or> wp_all p \<or> (\<exists>w \<in> set (wp_workers p). awake w)) \<and>
     (wp_stop p \<longrightarrow> wp_all p \<or> Waiting \<notin> set (wp_workers p))"

lemma inv_mk: "0 < n \<Longrightarrow> wp_inv (mk_ThreadPool n)"
  by (simp add: wp_inv_def mk_ThreadPool_def)

lemma set_awake: "i < length ws \<Longrightarrow> awake w \<Longrightarrow> \<exists>v \<in> set (ws[i := w]). awake v"
  by (meson set_update_memI)

lemma in_update: "x \<in> set (ws[i := w]) \<Longrightarrow> x = w \<or> x \<in> set ws"
  using set_update_subset_insert [of ws i w] by auto

lemma asleep_before: "x \<in> set (ws[i := w]) \<Longrightarrow> awake w \<Longrightarrow> \<not> awake x \<Longrightarrow> x \<in> set ws"
  using in_update by fastforce

text \<open>A thread that becomes awake, with or without a notification used up, keeps the invariant.\<close>

lemma inv_set_awake:
  assumes "wp_inv p" "i < length (wp_workers p)" "awake w"
  shows "wp_inv (wp_set i w (p\<lparr>wp_one := k\<rparr>))"
proof -
  have "Gone \<in> set ((wp_workers p)[i := w]) \<Longrightarrow> Gone \<in> set (wp_workers p)"
    and "Waiting \<in> set ((wp_workers p)[i := w]) \<Longrightarrow> Waiting \<in> set (wp_workers p)"
    using asleep_before [OF _ assms(3)] by simp_all
  with assms(1) set_awake [OF assms(2,3)] show ?thesis by (auto simp: wp_inv_def wp_set_def)
qed

lemma inv_look:
  assumes "wp_inv p" "i < length (wp_workers p)"
  shows "wp_inv (wp_look i p)"
proof (cases "wp_q p")
  case Nil
  with assms(1) in_update [of Gone "wp_workers p" i Waiting] in_update [of Waiting "wp_workers p" i Gone] show ?thesis
    by (auto simp: wp_look_def wp_inv_def wp_set_def)
next
  case (Cons f fs)
  then have "Gone \<notin> set (wp_workers p)" using assms(1) by (auto simp: wp_inv_def)
  then have "Gone \<notin> set ((wp_workers p)[i := Busy f])"
    and "Waiting \<in> set ((wp_workers p)[i := Busy f]) \<Longrightarrow> Waiting \<in> set (wp_workers p)"
    using asleep_before [of _ "wp_workers p" i "Busy f"] by auto
  with Cons assms(1) set_awake [OF assms(2), of "Busy f"] show ?thesis
    by (auto simp: wp_look_def wp_inv_def wp_set_def)
qed

lemma inv_runs:
  assumes "pool_runs p p'" "wp_inv p"
  shows "wp_inv p'"
  using assms(1)
proof cases
  case (look i)
  with inv_look assms(2) show ?thesis by simp
next
  case (finish i f)
  with inv_set_awake [OF assms(2), of i Looking "wp_one p"] show ?thesis by simp
next
  case (wake i)
  with inv_set_awake [OF assms(2), of i Looking] show ?thesis by simp
next
  case wake_none
  obtain w where w: "w \<in> set (wp_workers p)" using assms(2) by (cases "wp_workers p") (auto simp: wp_inv_def)
  have "awake w" if "wp_q p \<noteq> []"
    using that w wake_none(3) assms(2) by (cases w) (auto simp: wp_inv_def)
  with wake_none w assms(2) show ?thesis by (auto simp: wp_inv_def)
next
  case wake_all
  obtain w where w: "w \<in> set (wp_workers p)" using assms(2) by (cases "wp_workers p") (auto simp: wp_inv_def)
  have "awake (if w = Waiting then Looking else w)" if "wp_q p \<noteq> []"
    using that w assms(2) by (cases w) (auto simp: wp_inv_def)
  with wake_all w assms(2) show ?thesis by (auto simp: wp_inv_def notify_all_def split: if_splits)
qed

lemma inv_reachable: "pool_step_all\<^sup>*\<^sup>* (mk_ThreadPool n) p \<Longrightarrow> 0 < n \<Longrightarrow> wp_inv p"
proof (induction rule: rtranclp_induct)
  case base
  then show ?case by (rule inv_mk)
next
  case (step p p')
  then have p: "wp_inv p" by simp
  from step.hyps(2) show ?case
  proof cases
    case runs
    then show ?thesis by (rule inv_runs [OF _ p])
  next
    case (posted f)
    with p show ?thesis by (auto simp: wp_inv_def wp_post_def)
  next
    case destroyed
    with p show ?thesis by (auto simp: wp_inv_def wp_destroy_def)
  next
    case (spurious i)
    with inv_set_awake [OF p, of i Looking "wp_one p"] show ?thesis by simp
  qed
qed

subsection \<open>The pool runs dry\<close>

fun work :: "'f Worker \<Rightarrow> nat" where
  "work Looking = 1" | "work (Busy f) = 2" | "work Waiting = 0" | "work Gone = 0"

text \<open>How many steps the pool can still make on its own: three for a queued task, and what the
  threads and the pending notifications can cause.\<close>

definition wp_work :: "'f ThreadPool \<Rightarrow> nat" where
  "wp_work p = sum_list (map work (wp_workers p)) + 3 * length (wp_q p) + 2 * wp_one p +
     (if wp_all p then length (wp_workers p) + 1 else 0)"

lemma work_update:
  "i < length ws \<Longrightarrow> sum_list (map work (ws[i := w])) + work (ws ! i) = sum_list (map work ws) + work w"
  using member_le_sum_list [of "work (ws ! i)" "map work ws"] by (simp add: map_update sum_list_update)

lemma work_notify_all:
  "sum_list (map (work \<circ> (\<lambda>w. if w = Waiting then Looking else w)) ws) \<le> sum_list (map work ws) + length ws"
  by (induction ws) auto

lemma runs_work:
  assumes "pool_runs p p'"
  shows "wp_work p' < wp_work p"
  using assms
proof cases
  case (look i)
  with work_update [OF look(2), of Waiting] work_update [OF look(2), of Gone]
    work_update [OF look(2), of "Busy (hd (wp_q p))"] show ?thesis
    by (cases "wp_q p") (simp_all add: wp_work_def wp_look_def wp_set_def)
next
  case (finish i f)
  with work_update [OF finish(2), of Looking] show ?thesis by (simp add: wp_work_def wp_set_def)
next
  case (wake i)
  with work_update [OF wake(3), of Looking] show ?thesis by (simp add: wp_work_def wp_set_def)
next
  case wake_none
  then show ?thesis by (simp add: wp_work_def)
next
  case wake_all
  with work_notify_all [of "wp_workers p"] show ?thesis by (simp add: wp_work_def notify_all_def)
qed

lemma runs_bounded: "(pool_runs ^^ k) p p' \<Longrightarrow> k + wp_work p' \<le> wp_work p"
proof (induction k arbitrary: p')
  case (Suc k)
  then obtain m where "(pool_runs ^^ k) p m" "pool_runs m p'" by auto
  with Suc.IH runs_work show ?case by fastforce
qed simp

lemma runs_to_rest: "\<exists>p'. pool_runs\<^sup>*\<^sup>* p p' \<and> (\<forall>r. \<not> pool_runs p' r)"
proof (induction p rule: measure_induct_rule [of wp_work])
  case (less p)
  show ?case
  proof (cases "\<exists>r. pool_runs p r")
    case True
    then obtain r where r: "pool_runs p r" by blast
    from less [OF runs_work [OF r]] converse_rtranclp_into_rtranclp [of pool_runs, OF r] show ?thesis by blast
  qed blast
qed

lemma runs_outside: "pool_runs p p' \<Longrightarrow> wp_posted p' = wp_posted p \<and> wp_stop p' = wp_stop p"
  by (induction rule: pool_runs.induct) (simp_all add: wp_look_def wp_set_def notify_all_def)

lemma runs_keep:
  "pool_runs\<^sup>*\<^sup>* p p' \<Longrightarrow> wp_inv p \<Longrightarrow> wp_inv p' \<and> wp_posted p' = wp_posted p \<and> wp_stop p' = wp_stop p"
  by (induction rule: rtranclp_induct) (use inv_runs runs_outside in metis)+

lemma rest_asleep:
  assumes "\<forall>r. \<not> pool_runs p r"
  shows "w \<in> set (wp_workers p) \<Longrightarrow> \<not> awake w" and "wp_one p = 0" and "\<not> wp_all p"
proof -
  show "\<not> awake w" if "w \<in> set (wp_workers p)"
  proof -
    from that obtain i where i: "i < length (wp_workers p)" "wp_workers p ! i = w" by (auto simp: in_set_conv_nth)
    with assms pool_runs.look [of i p] pool_runs.finish [of i p] show ?thesis
      by (cases w rule: Worker.exhaust) auto
  qed
  show "wp_one p = 0"
    using assms pool_runs.wake [of p] pool_runs.wake_none [of p] by (metis in_set_conv_nth gr0I)
  show "\<not> wp_all p" using assms pool_runs.wake_all by blast
qed

lemma rest_drained:
  assumes "\<forall>r. \<not> pool_runs p r" "wp_inv p"
  shows "wp_q p = []" "wp_started p = wp_posted p"
    "wp_workers p = replicate (length (wp_workers p)) (if wp_stop p then Gone else Waiting)"
proof -
  note r = rest_asleep [OF assms(1)]
  show q: "wp_q p = []" using r assms(2) by (auto simp: wp_inv_def)
  with assms(2) show "wp_started p = wp_posted p" by (simp add: wp_inv_def)
  have "w = (if wp_stop p then Gone else Waiting)" if "w \<in> set (wp_workers p)" for w
    using that r(1) [OF that] r(3) assms(2) by (cases w rule: Worker.exhaust) (auto simp: wp_inv_def)
  then show "wp_workers p = replicate (length (wp_workers p)) (if wp_stop p then Gone else Waiting)"
    by (intro replicate_eqI) auto
qed

text \<open>Property C33: the pool terminates. From every state it can get into, with any posts, wakeups
  for no reason and at any time the destructor, it makes only a bounded number of steps on its
  own, and it can always run until it rests. When it rests, every task posted so far has been
  started, exactly once and in the order of the posts, none is queued or running, and the
  threads all wait for work, or, when the destructor has been called, have all returned, so that
  its joins return. No notification gets lost on the way.\<close>

theorem pool_drains:
  assumes "0 < n" "pool_step_all\<^sup>*\<^sup>* (mk_ThreadPool n) p"
  shows "((pool_runs ^^ k) p p' \<longrightarrow> k \<le> wp_work p) \<and>
    (\<exists>r. pool_runs\<^sup>*\<^sup>* p r \<and> (\<forall>s. \<not> pool_runs r s)) \<and>
    (pool_runs\<^sup>*\<^sup>* p p' \<and> (\<forall>s. \<not> pool_runs p' s) \<longrightarrow>
      wp_started p' = wp_posted p \<and> wp_q p' = [] \<and>
      (\<forall>w \<in> set (wp_workers p'). w = (if wp_stop p then Gone else Waiting)))"
proof (intro conjI impI)
  assume "(pool_runs ^^ k) p p'"
  then show "k \<le> wp_work p" using runs_bounded by fastforce
next
  show "\<exists>r. pool_runs\<^sup>*\<^sup>* p r \<and> (\<forall>s. \<not> pool_runs r s)" by (rule runs_to_rest)
next
  assume r: "pool_runs\<^sup>*\<^sup>* p p' \<and> (\<forall>s. \<not> pool_runs p' s)"
  note k = runs_keep [OF conjunct1 [OF r] inv_reachable [OF assms(2,1)]]
  note d = rest_drained [OF conjunct2 [OF r] conjunct1 [OF k]]
  show "wp_started p' = wp_posted p" "wp_q p' = []" using d k by simp_all
  show "\<forall>w \<in> set (wp_workers p'). w = (if wp_stop p then Gone else Waiting)"
    using d(3) k by (metis in_set_replicate)
qed

text \<open>One thread, one task, and the destructor before anything ran.\<close>

definition one_task :: "nat ThreadPool" where
  "one_task = wp_destroy (wp_post 7 (mk_ThreadPool 1))"

lemma one_task_reached: "pool_step_all\<^sup>*\<^sup>* (mk_ThreadPool 1) one_task"
proof -
  have "pool_step_all (mk_ThreadPool 1) (wp_post (7::nat) (mk_ThreadPool 1))"
    by (rule posted) (simp add: mk_ThreadPool_def)
  moreover have "pool_step_all (wp_post (7::nat) (mk_ThreadPool 1)) one_task"
    unfolding one_task_def by (rule destroyed) (simp add: mk_ThreadPool_def wp_post_def)
  ultimately show ?thesis by (meson converse_rtranclp_into_rtranclp r_into_rtranclp)
qed

theorem pool_drains_witness:
  "\<exists>r. pool_runs\<^sup>*\<^sup>* one_task r \<and> wp_started r = [7] \<and> wp_q r = [] \<and> (\<forall>w \<in> set (wp_workers r). w = Gone)"
proof -
  note c = pool_drains [OF zero_less_one one_task_reached]
  obtain r where r: "pool_runs\<^sup>*\<^sup>* one_task r" "\<forall>s. \<not> pool_runs r s" using c by blast
  have "wp_posted one_task = [7]" "wp_stop one_task"
    by (simp_all add: one_task_def wp_destroy_def wp_post_def mk_ThreadPool_def)
  then show ?thesis using c [of _ r] r by auto
qed

end
