(* ===== verification/Handlers.thy ===== *)
theory Handlers
  imports Messages Dispatch
begin

text \<open>
  The business handlers (server/src/handlers/*.cpp), the authentication helper and the table
  of handlers of ctx_factory.cpp. A handler takes the protobuf codec, the context and the
  environment it reads (clock and random numbers), the payload and the state.
\<close>

record Env =
  clk :: "nat \<Rightarrow> int"
  spawn_u :: "nat \<Rightarrow> real"
  spawn_v :: "nat \<Rightarrow> real"
  spawn_pick :: "nat \<Rightarrow> nat \<Rightarrow> nat \<Rightarrow> nat"
  std_sort :: "RidePoint list \<Rightarrow> RidePoint list"

text \<open>
  \<open>clk i\<close> is the reading of the \<open>i\<close>-th use of the system clock in a handler, \<open>spawn_u\<close>,
  \<open>spawn_v\<close> and \<open>spawn_pick\<close> are the draws for a new bike, and \<open>std_sort\<close> is the library's
  sort by elapsed time, which leaves the order of equal keys open.
\<close>

text \<open>The frame every handler ends with.\<close>

definition reply_frame :: "Event \<Rightarrow> bytes \<Rightarrow> ('s, bytes) eff" where
  "reply_frame ev pl = lift_res (encode \<lparr>fr_event_id = event_id ev, fr_seq = 0, fr_payload = pl\<rparr>)"

text \<open>The descriptions in Chinese, as UTF-8: no such bike, balance too low, no such ride.\<close>

definition desc_no_bike :: string where
  "desc_no_bike = [CHR 0xE8, CHR 0xBD, CHR 0xA6, CHR 0xE8, CHR 0xBE, CHR 0x86, CHR 0xE4, CHR 0xB8,
     CHR 0x8D, CHR 0xE5, CHR 0xAD, CHR 0x98, CHR 0xE5, CHR 0x9C, CHR 0xA8]"

definition desc_low_balance :: string where
  "desc_low_balance = [CHR 0xE4, CHR 0xBD, CHR 0x99, CHR 0xE9, CHR 0xA2, CHR 0x9D, CHR 0xE4,
     CHR 0xB8, CHR 0x8D, CHR 0xE8, CHR 0xB6, CHR 0xB3]"

definition desc_no_ride :: string where
  "desc_no_ride = [CHR 0xE8, CHR 0xAE, CHR 0xA2, CHR 0xE5, CHR 0x8D, CHR 0x95, CHR 0xE4, CHR 0xB8,
     CHR 0x8D, CHR 0xE5, CHR 0xAD, CHR 0x98, CHR 0xE5, CHR 0x9C, CHR 0xA8]"

definition require_user :: "'s Ctx \<Rightarrow> string \<Rightarrow> ('s, int option) eff" where
  "require_user ctx token =
     bind_eff (lookup_session ctx token) (\<lambda>mobile.
       case mobile of
         None \<Rightarrow> ret None
       | Some m \<Rightarrow> bind_eff (find_or_create ctx m) (\<lambda>u. ret (Some (u_id u))))"

subsection \<open>Registration and accounts\<close>

definition mobile_code :: "Pb \<Rightarrow> 's Ctx \<Rightarrow> bytes \<Rightarrow> ('s, bytes) eff" where
  "mobile_code pb ctx pl =
     (let finish = (\<lambda>ec icode. reply_frame MobileResponse (ser_mobile_response pb
           \<lparr>mobile_response_code = code ec, mobile_response_icode = icode,
            mobile_response_data = to_string ec\<rparr>)) in
      case parse_mobile_request pb pl of
        None \<Rightarrow> finish InvalidMsg 0
      | Some req \<Rightarrow>
          bind_eff (set_code ctx (mobile_request_mobile req)) (\<lambda>icode. finish Ok icode))"

definition login :: "Pb \<Rightarrow> 's Ctx \<Rightarrow> bytes \<Rightarrow> ('s, bytes) eff" where
  "login pb ctx pl =
     (let finish = (\<lambda>ec token. reply_frame LoginResponse (ser_login_response pb
           \<lparr>login_response_code = code ec, login_response_desc = to_string ec,
            login_response_token = token\<rparr>));
          fail = (\<lambda>ec. finish ec []) in
      case parse_login_request pb pl of
        None \<Rightarrow> fail InvalidMsg
      | Some req \<Rightarrow>
          bind_eff (get_code ctx (login_request_mobile req)) (\<lambda>stored.
            if stored = None \<or> the stored \<noteq> login_request_icode req then fail InvalidData
            else
              bind_eff (delete_code ctx (login_request_mobile req)) (\<lambda>_.
              bind_eff (find_or_create ctx (login_request_mobile req)) (\<lambda>u.
              bind_eff (get_balance ctx (u_id u)) (\<lambda>_.
              bind_eff (create_session ctx (login_request_mobile req)) (\<lambda>token.
              finish Ok token))))))"

definition recharge :: "Pb \<Rightarrow> 's Ctx \<Rightarrow> bytes \<Rightarrow> ('s, bytes) eff" where
  "recharge pb ctx pl =
     (let finish = (\<lambda>ec b. reply_frame RechargeResponse (ser_recharge_response pb
           \<lparr>recharge_response_code = code ec, recharge_response_balance = b,
            recharge_response_desc = to_string ec\<rparr>));
          fail = (\<lambda>ec. finish ec 0) in
      case parse_recharge_request pb pl of
        None \<Rightarrow> fail InvalidMsg
      | Some req \<Rightarrow>
          if recharge_request_amount req \<le> 0 then fail InvalidData
          else
            bind_eff (lookup_session ctx (recharge_request_token req)) (\<lambda>mobile.
              case mobile of
                None \<Rightarrow> fail Unauthorized
              | Some m \<Rightarrow>
                  bind_eff (find_or_create ctx m) (\<lambda>u.
                  bind_eff (add_balance ctx (u_id u) Recharge (recharge_request_amount req)) (\<lambda>new_bal.
                  finish Ok new_bal))))"

definition account_balance :: "Pb \<Rightarrow> 's Ctx \<Rightarrow> bytes \<Rightarrow> ('s, bytes) eff" where
  "account_balance pb ctx pl =
     (let finish = (\<lambda>ec b. reply_frame AccountBalanceResponse (ser_account_balance_response pb
           \<lparr>account_balance_response_code = code ec, account_balance_response_balance = b\<rparr>));
          fail = (\<lambda>ec. finish ec 0) in
      case parse_account_balance_request pb pl of
        None \<Rightarrow> fail InvalidMsg
      | Some req \<Rightarrow>
          bind_eff (lookup_session ctx (account_balance_request_token req)) (\<lambda>mobile.
            case mobile of
              None \<Rightarrow> fail Unauthorized
            | Some m \<Rightarrow>
                bind_eff (find_or_create ctx m) (\<lambda>u.
                bind_eff (get_balance ctx (u_id u)) (\<lambda>b. finish Ok b))))"

definition list_records :: "Pb \<Rightarrow> 's Ctx \<Rightarrow> bytes \<Rightarrow> ('s, bytes) eff" where
  "list_records pb ctx pl =
     (let finish = (\<lambda>ec rs. reply_frame ListAccountRecordsResponse (ser_list_records_response pb
           \<lparr>list_records_response_code = code ec, list_records_response_records = rs\<rparr>));
          fail = (\<lambda>ec. finish ec []) in
      case parse_list_records_request pb pl of
        None \<Rightarrow> fail InvalidMsg
      | Some req \<Rightarrow>
          bind_eff (lookup_session ctx (list_records_request_token req)) (\<lambda>mobile.
            case mobile of
              None \<Rightarrow> fail Unauthorized
            | Some m \<Rightarrow>
                bind_eff (find_or_create ctx m) (\<lambda>u.
                bind_eff (list_records_of ctx (u_id u) 100) (\<lambda>rs.
                finish Ok (map (\<lambda>r. \<lparr>account_record_type = ar_type r, account_record_amount = ar_amount r,
                                      account_record_timestamp = ar_timestamp r\<rparr>) rs)))))"

subsection \<open>Bikes nearby\<close>

definition kSpawnThreshold :: nat where "kSpawnThreshold = 5"
definition kSpawnTarget :: nat where "kSpawnTarget = 12"
definition kSpawnRadiusFactor :: real where "kSpawnRadiusFactor = 0.8"
definition kMaxNoRetry :: nat where "kMaxNoRetry = 4"

definition kAlphabet :: string where
  "kAlphabet = ''23456789ABCDEFGHJKMNPQRSTUVWXYZ''"

definition make_dyn_bike_no :: "(nat \<Rightarrow> nat) \<Rightarrow> string" where
  "make_dyn_bike_no pick = ''DY-'' @ map (\<lambda>i. kAlphabet ! (pick i mod length kAlphabet)) [0..<6]"

definition random_offset :: "dbl \<Rightarrow> dbl \<Rightarrow> dbl \<Rightarrow> real \<Rightarrow> real \<Rightarrow> dbl \<times> dbl" where
  "random_offset center_lat center_lng radius_m u v =
     (let rr = dmul (dmul radius_m (Num kSpawnRadiusFactor)) (dsqrt (Num u));
          theta = Num (2 * 3.14159265358979 * v);
          d_east = dmul rr (dcos theta);
          d_north = dmul rr (dsin theta);
          lat = dadd center_lat (ddiv d_north (Num 111000));
          cos_lat = dcos (ddiv (dmul center_lat (Num 3.14159265358979)) (Num 180));
          lng = dadd center_lng (ddiv d_east (dmul (Num 111000)
                  (if dlt cos_lat (Num 0.01) then Num 0.01 else cos_lat)))
      in (lat, lng))"

text \<open>The retries for bike \<open>i\<close>, from a given attempt on; \<open>fuel\<close> counts the attempts left.\<close>

fun insert_retry :: "'s Ctx \<Rightarrow> (nat \<Rightarrow> nat \<Rightarrow> nat) \<Rightarrow> dbl \<Rightarrow> dbl \<Rightarrow> nat \<Rightarrow> nat \<Rightarrow> ('s, Bike option) eff" where
  "insert_retry ctx pick plat plng attempt 0 = ret None"
| "insert_retry ctx pick plat plng attempt (Suc left) =
     bind_eff (insert_bike ctx \<lparr>bk_id = 0, bk_no = make_dyn_bike_no (pick attempt), bk_lat = plat,
                 bk_lng = plng, bk_status = Idle\<rparr>) (\<lambda>ok.
       if ok \<noteq> None then ret ok else insert_retry ctx pick plat plng (attempt + 1) left)"

fun spawn_loop :: "Env \<Rightarrow> 's Ctx \<Rightarrow> dbl \<Rightarrow> dbl \<Rightarrow> dbl \<Rightarrow> nat \<Rightarrow> nat \<Rightarrow> Bike list \<Rightarrow> ('s, Bike list) eff" where
  "spawn_loop env ctx lat lng r i 0 spawned = ret spawned"
| "spawn_loop env ctx lat lng r i (Suc need) spawned =
     (case random_offset lat lng r (spawn_u env i) (spawn_v env i) of
        (plat, plng) \<Rightarrow>
          bind_eff (insert_retry ctx (spawn_pick env i) plat plng 0 kMaxNoRetry) (\<lambda>ok.
            spawn_loop env ctx lat lng r (i + 1) need
              (case ok of Some b \<Rightarrow> spawned @ [b] | None \<Rightarrow> spawned)))"

definition spawn_bikes :: "Env \<Rightarrow> 's Ctx \<Rightarrow> dbl \<Rightarrow> dbl \<Rightarrow> dbl \<Rightarrow> nat \<Rightarrow> ('s, Bike list) eff" where
  "spawn_bikes env ctx lat lng r need = spawn_loop env ctx lat lng r 0 need []"

definition list_nearby_bikes :: "Env \<Rightarrow> Pb \<Rightarrow> 's Ctx \<Rightarrow> bytes \<Rightarrow> ('s, bytes) eff" where
  "list_nearby_bikes env pb ctx pl =
     (let finish = (\<lambda>ec bs. reply_frame ListNearbyBikesResponse (ser_nearby_response pb
           \<lparr>nearby_response_code = code ec, nearby_response_bikes = bs\<rparr>));
          fail = (\<lambda>ec. finish ec []) in
      case parse_nearby_request pb pl of
        None \<Rightarrow> fail InvalidMsg
      | Some req \<Rightarrow>
          bind_eff (require_user ctx (nearby_request_token req)) (\<lambda>uid.
            if uid = None then fail Unauthorized
            else if \<not> valid_lat (nearby_request_lat req) \<or> \<not> valid_lng (nearby_request_lng req)
            then fail InvalidData
            else
              let lat = nearby_request_lat req; lng = nearby_request_lng req;
                  r = clamp_radius (nearby_request_radius req);
                  dlat = ddiv r (Num 111000);
                  dlng = ddiv r (dmul (Num 111000) (dcos (ddiv (dmul lat (Num 3.14159265358979)) (Num 180))))
              in
              bind_eff (list_in_bounds ctx (dsub lat dlat) (dadd lat dlat) (dsub lng dlng) (dadd lng dlng))
                (\<lambda>bikes.
                 let near = filter (\<lambda>b. dle (haversine_m lat lng (bk_lat b) (bk_lng b)) r) bikes in
                 bind_eff (if length near < kSpawnThreshold
                           then spawn_bikes env ctx lat lng r (kSpawnTarget - length near)
                           else ret []) (\<lambda>spawned.
                   finish Ok (map (\<lambda>b. \<lparr>bike_info_no = bk_no b, bike_info_lat = bk_lat b,
                                        bike_info_lng = bk_lng b,
                                        bike_info_status = bike_status (bk_status b)\<rparr>)
                               (near @ spawned))))))"

subsection \<open>Unlocking a bike\<close>

definition scan_reply :: "Pb \<Rightarrow> ErrCode \<Rightarrow> string \<Rightarrow> string \<Rightarrow> int \<Rightarrow> ('s, bytes) eff" where
  "scan_reply pb ec desc no ts = reply_frame ScanUnlockResponse (ser_scan_response pb
     \<lparr>scan_response_code = code ec, scan_response_desc = (if desc = [] then to_string ec else desc),
      scan_response_ride_no = no, scan_response_start_ts = ts\<rparr>)"

text \<open>The checks: a failure is an error code with a description.\<close>

definition scan_check ::
  "'s Ctx \<Rightarrow> scan_unlock_request \<Rightarrow> ('s, (ErrCode \<times> string) + (int \<times> Bike)) eff" where
  "scan_check ctx req =
     bind_eff (require_user ctx (scan_request_token req)) (\<lambda>uid.
       case uid of
         None \<Rightarrow> ret (Inl (Unauthorized, []))
       | Some u \<Rightarrow>
           if \<not> valid_bike_no (scan_request_bike_no req) \<or> \<not> valid_lat (scan_request_lat req)
              \<or> \<not> valid_lng (scan_request_lng req)
           then ret (Inl (InvalidData, []))
           else
             bind_eff (get_for_update ctx (scan_request_bike_no req)) (\<lambda>bike.
               case bike of
                 None \<Rightarrow> ret (Inl (InvalidData, desc_no_bike))
               | Some b \<Rightarrow>
                   if bk_status b = Damaged then ret (Inl (BikeIsDamaged, []))
                   else if bk_status b = Rented then ret (Inl (BikeIsRunning, []))
                   else
                     bind_eff (get_balance ctx u) (\<lambda>bal.
                       if bal < 100 then ret (Inl (ProcessFailed, desc_low_balance))
                       else ret (Inr (u, b)))))"

text \<open>The effect: a ride number from the clock, the session, the status of the bike.\<close>

definition scan_commit ::
  "Env \<Rightarrow> Pb \<Rightarrow> 's Ctx \<Rightarrow> scan_unlock_request \<Rightarrow> int \<Rightarrow> Bike \<Rightarrow> ('s, bytes) eff" where
  "scan_commit env pb ctx req uid bike =
     (let seq = narrow_i32 (c_mod (clk env 0) 999999 + 1) in
      bind_eff (lift_res (make_ride_no (today_yyyymmdd (clk env 1)) seq)) (\<lambda>ride_no.
        let s = \<lparr>rs_ride_no = ride_no, rs_user_id = uid, rs_bike_id = bk_id bike,
                 rs_start_lat = scan_request_lat req, rs_start_lng = scan_request_lng req,
                 rs_start_ts = clk env 2, rs_last_lat = scan_request_lat req,
                 rs_last_lng = scan_request_lng req, rs_last_seq = 0, rs_points = []\<rparr> in
        bind_eff (rs_create ctx s) (\<lambda>_.
        bind_eff (update_status ctx (bk_id bike) Rented) (\<lambda>_.
        scan_reply pb Ok [] ride_no (rs_start_ts s)))))"

definition scan_unlock :: "Env \<Rightarrow> Pb \<Rightarrow> 's Ctx \<Rightarrow> bytes \<Rightarrow> ('s, bytes) eff" where
  "scan_unlock env pb ctx pl =
     (case parse_scan_request pb pl of
        None \<Rightarrow> scan_reply pb InvalidMsg [] [] 0
      | Some req \<Rightarrow>
          bind_eff (scan_check ctx req) (\<lambda>res.
            case res of
              Inl (ec, desc) \<Rightarrow> scan_reply pb ec desc [] 0
            | Inr (uid, bike) \<Rightarrow> scan_commit env pb ctx req uid bike))"

definition position_report :: "Pb \<Rightarrow> 's Ctx \<Rightarrow> bytes \<Rightarrow> ('s, bytes) eff" where
  "position_report pb ctx pl =
     (case parse_position_report pb pl of
        None \<Rightarrow> ret []
      | Some req \<Rightarrow>
          bind_eff (rs_update_pos ctx (position_ride_no req) (position_lat req) (position_lng req)
                      (position_seq req) (position_elapsed_sec req)) (\<lambda>_. ret []))"

subsection \<open>Ending a ride\<close>

definition end_reply :: "Pb \<Rightarrow> ErrCode \<Rightarrow> string \<Rightarrow> int \<Rightarrow> int \<Rightarrow> int \<Rightarrow> int \<Rightarrow> ('s, bytes) eff" where
  "end_reply pb ec desc dur dst amount bal' = reply_frame EndRideResponse (ser_end_response pb
     \<lparr>end_response_code = code ec, end_response_desc = (if desc = [] then to_string ec else desc),
      end_response_duration = dur, end_response_distance = dst, end_response_amount = amount,
      end_response_balance = bal'\<rparr>)"

text \<open>The track: start, reported points and end, sorted by elapsed time.\<close>

definition ride_track :: "Env \<Rightarrow> RideSession \<Rightarrow> end_ride_request \<Rightarrow> int \<Rightarrow> RidePoint list res" where
  "ride_track env sess req duration_sec =
     (case checked_i32 (rs_last_seq sess + 1) of
        Inl e \<Rightarrow> Inl e
      | Inr sq \<Rightarrow>
          Inr (std_sort env
            (\<lparr>pt_seq = 0, pt_lat = rs_start_lat sess, pt_lng = rs_start_lng sess, pt_elapsed_sec = 0\<rparr>
             # rs_points sess
             @ [\<lparr>pt_seq = sq, pt_lat = end_request_lat req, pt_lng = end_request_lng req,
                 pt_elapsed_sec = duration_sec\<rparr>])))"

fun track_length :: "RidePoint list \<Rightarrow> dbl \<Rightarrow> dbl" where
  "track_length (p # q # ps) d =
     track_length (q # ps) (dadd d (haversine_m (pt_lat p) (pt_lng p) (pt_lat q) (pt_lng q)))"
| "track_length ps d = d"

text \<open>The path of a ride that has no session any more.\<close>

definition end_settled :: "Pb \<Rightarrow> 's Ctx \<Rightarrow> end_ride_request \<Rightarrow> int \<Rightarrow> ('s, bytes) eff" where
  "end_settled pb ctx req uid =
     bind_eff (find_by_no ctx (end_request_ride_no req)) (\<lambda>row.
       case row of
         None \<Rightarrow> end_reply pb InvalidData desc_no_ride 0 0 0 0
       | Some rd \<Rightarrow>
           if rd_user_id rd \<noteq> uid then end_reply pb Unauthorized [] 0 0 0 0
           else bind_eff (get_balance ctx uid) (\<lambda>b.
                  end_reply pb Ok [] (rd_duration_sec rd) (rd_distance_m rd) (rd_amount_cent rd) b))"

text \<open>Settling a ride: charging, storing it, freeing the bike.\<close>

definition end_settle ::
  "Env \<Rightarrow> Pb \<Rightarrow> 's Ctx \<Rightarrow> end_ride_request \<Rightarrow> int \<Rightarrow> RideSession \<Rightarrow> ('s, bytes) eff" where
  "end_settle env pb ctx req uid sess =
     (let end_ts = clk env 0;
          d0 = narrow_i32 (end_ts - rs_start_ts sess);
          duration_sec = (if d0 < 0 then 0 else d0) in
      bind_eff (lift_res (compute_fee duration_sec)) (\<lambda>amount.
      bind_eff (lift_res (ride_track env sess req duration_sec)) (\<lambda>pts.
      let dist_m = track_length pts (Num 0) in
      bind_eff (add_balance ctx uid Consume (- amount)) (\<lambda>new_bal.
        if new_bal < 0 then end_reply pb ProcessFailed desc_low_balance 0 0 0 0
        else
          bind_eff (lift_res (dbl_to_int dist_m)) (\<lambda>dst.
          bind_eff (create_with_points ctx
            \<lparr>in_ride_no = rs_ride_no sess, in_user_id = uid, in_bike_id = rs_bike_id sess,
             in_start_ts = rs_start_ts sess, in_end_ts = end_ts, in_start_lat = rs_start_lat sess,
             in_start_lng = rs_start_lng sess, in_end_lat = end_request_lat req,
             in_end_lng = end_request_lng req, in_duration_sec = duration_sec,
             in_distance_m = dst, in_amount_cent = amount, in_points = pts\<rparr>) (\<lambda>_.
          bind_eff (update_location ctx (rs_bike_id sess) (end_request_lat req) (end_request_lng req)) (\<lambda>_.
          bind_eff (update_status ctx (rs_bike_id sess) Idle) (\<lambda>_.
          bind_eff (rs_remove ctx (rs_ride_no sess)) (\<lambda>_.
          end_reply pb Ok [] duration_sec dst amount new_bal)))))))))"

definition end_ride :: "Env \<Rightarrow> Pb \<Rightarrow> 's Ctx \<Rightarrow> bytes \<Rightarrow> ('s, bytes) eff" where
  "end_ride env pb ctx pl =
     (case parse_end_request pb pl of
        None \<Rightarrow> end_reply pb InvalidMsg [] 0 0 0 0
      | Some req \<Rightarrow>
          bind_eff (require_user ctx (end_request_token req)) (\<lambda>uid.
            case uid of
              None \<Rightarrow> end_reply pb Unauthorized [] 0 0 0 0
            | Some u \<Rightarrow>
                if \<not> valid_lat (end_request_lat req) \<or> \<not> valid_lng (end_request_lng req)
                then end_reply pb InvalidData [] 0 0 0 0
                else
                  bind_eff (rs_find ctx (end_request_ride_no req)) (\<lambda>sess.
                    case sess of
                      None \<Rightarrow> end_settled pb ctx req u
                    | Some s \<Rightarrow>
                        if rs_user_id s \<noteq> u then end_reply pb Unauthorized [] 0 0 0 0
                        else end_settle env pb ctx req u s)))"

subsection \<open>Damage reports and history\<close>

definition report_damage :: "Pb \<Rightarrow> 's Ctx \<Rightarrow> bytes \<Rightarrow> ('s, bytes) eff" where
  "report_damage pb ctx pl =
     (let finish = (\<lambda>ec desc. reply_frame ReportDamageResponse (ser_damage_response pb
           \<lparr>damage_response_code = code ec,
            damage_response_desc = (if desc = [] then to_string ec else desc)\<rparr>)) in
      case parse_damage_request pb pl of
        None \<Rightarrow> finish InvalidMsg []
      | Some req \<Rightarrow>
          bind_eff (require_user ctx (damage_request_token req)) (\<lambda>uid.
            if uid = None then finish Unauthorized []
            else if \<not> valid_bike_no (damage_request_bike_no req) then finish InvalidData []
            else
              bind_eff (get_for_update ctx (damage_request_bike_no req)) (\<lambda>bike.
                case bike of
                  None \<Rightarrow> finish InvalidData desc_no_bike
                | Some b \<Rightarrow>
                    bind_eff (update_status ctx (bk_id b) Damaged) (\<lambda>_. finish Ok []))))"

definition get_ride_detail :: "Pb \<Rightarrow> 's Ctx \<Rightarrow> bytes \<Rightarrow> ('s, bytes) eff" where
  "get_ride_detail pb ctx pl =
     (let fail = (\<lambda>ec. reply_frame GetRideDetailResponse (ser_detail_response pb
           \<lparr>detail_response_code = code ec, detail_response_ride_no = [], detail_response_duration = 0,
            detail_response_distance = 0, detail_response_amount = 0, detail_response_start_tm = [],
            detail_response_end_tm = [], detail_response_points = []\<rparr>)) in
      case parse_detail_request pb pl of
        None \<Rightarrow> fail InvalidMsg
      | Some req \<Rightarrow>
          bind_eff (require_user ctx (detail_request_token req)) (\<lambda>uid.
            if uid = None then fail Unauthorized
            else
              bind_eff (find_by_no ctx (detail_request_ride_no req)) (\<lambda>ride.
                case ride of
                  None \<Rightarrow> fail InvalidData
                | Some rd \<Rightarrow>
                    if rd_user_id rd \<noteq> the uid then fail Unauthorized
                    else
                      bind_eff (list_points ctx (rd_id rd)) (\<lambda>ps.
                        reply_frame GetRideDetailResponse (ser_detail_response pb
                          \<lparr>detail_response_code = code Ok, detail_response_ride_no = rd_ride_no rd,
                           detail_response_duration = rd_duration_sec rd,
                           detail_response_distance = rd_distance_m rd,
                           detail_response_amount = rd_amount_cent rd,
                           detail_response_start_tm = fmt_iso (rd_start_ts rd),
                           detail_response_end_tm = fmt_iso (rd_end_ts rd),
                           detail_response_points = map (\<lambda>p. \<lparr>ride_point_lat = pt_lat p,
                             ride_point_lng = pt_lng p, ride_point_elapsed = pt_elapsed_sec p\<rparr>) ps\<rparr>)))))"

definition list_rides :: "Pb \<Rightarrow> 's Ctx \<Rightarrow> bytes \<Rightarrow> ('s, bytes) eff" where
  "list_rides pb ctx pl =
     (let finish = (\<lambda>ec rs. reply_frame ListRidesResponse (ser_list_rides_response pb
           \<lparr>list_rides_response_code = code ec, list_rides_response_rides = rs\<rparr>));
          fail = (\<lambda>ec. finish ec []) in
      case parse_list_rides_request pb pl of
        None \<Rightarrow> fail InvalidMsg
      | Some req \<Rightarrow>
          bind_eff (require_user ctx (list_rides_request_token req)) (\<lambda>uid.
            if uid = None then fail Unauthorized
            else
              bind_eff (list_by_user ctx (the uid) (clamp_limit (list_rides_request_limit req))) (\<lambda>rs.
                finish Ok (map (\<lambda>r. \<lparr>ride_summary_no = rd_ride_no r,
                  ride_summary_start_tm = fmt_iso (rd_start_ts r), ride_summary_duration = rd_duration_sec r,
                  ride_summary_distance = rd_distance_m r, ride_summary_amount = rd_amount_cent r\<rparr>) rs))))"

subsection \<open>The table of handlers\<close>

definition register_all_handlers :: "Env \<Rightarrow> Pb \<Rightarrow> 's Ctx \<Rightarrow> 's Router \<Rightarrow> 's Router" where
  "register_all_handlers env pb ctx rt0 =
     (let rt1 = register_handler (event_id MobileRequest) (mobile_code pb ctx) rt0;
          rt2 = register_handler (event_id LoginRequest) (login pb ctx) rt1;
          rt3 = register_handler (event_id RechargeRequest) (recharge pb ctx) rt2;
          rt4 = register_handler (event_id AccountBalanceRequest) (account_balance pb ctx) rt3;
          rt5 = register_handler (event_id ListAccountRecordsRequest) (list_records pb ctx) rt4;
          rt6 = register_handler (event_id ListNearbyBikesRequest) (list_nearby_bikes env pb ctx) rt5;
          rt7 = register_handler (event_id ScanUnlockRequest) (scan_unlock env pb ctx) rt6;
          rt8 = register_handler (event_id RidePositionReport) (position_report pb ctx) rt7;
          rt9 = register_handler (event_id EndRideRequest) (end_ride env pb ctx) rt8;
          rt10 = register_handler (event_id ReportDamageRequest) (report_damage pb ctx) rt9;
          rt11 = register_handler (event_id GetRideDetailRequest) (get_ride_detail pb ctx) rt10
      in register_handler (event_id ListRidesRequest) (list_rides pb ctx) rt11)"

definition bike_router :: "Env \<Rightarrow> Pb \<Rightarrow> 's Ctx \<Rightarrow> 's Router" where
  "bike_router env pb ctx = register_all_handlers env pb ctx \<lparr>handlers = Map.empty\<rparr>"

end
