(* ===== verification/HandlerProps.thy ===== *)
theory HandlerProps
  imports Handlers
begin

text \<open>
  Properties of the business handlers over any sequence of requests. An invariant that every
  operation of the context keeps is kept by every handler: that is proved once for an abstract
  context and interpreted for the in-memory repositories.
\<close>

subsection \<open>Invariants of operations\<close>

definition keeps :: "('s \<Rightarrow> bool) \<Rightarrow> ('s, 'a) eff \<Rightarrow> bool" where
  "keeps P m \<longleftrightarrow> (\<forall>s. P s \<longrightarrow> P (snd (m s)))"

named_theorems keeps_intros \<open>rules for effects that keep an invariant\<close>

lemma keepsD: "keeps P m \<Longrightarrow> P s \<Longrightarrow> P (snd (m s))"
  by (simp add: keeps_def)

lemma keeps_ret [keeps_intros]: "keeps P (ret x)"
  by (simp add: keeps_def)

lemma keeps_lift [keeps_intros]: "keeps P (lift_res r)"
  by (simp add: keeps_def)

lemma keeps_bind [keeps_intros]:
  assumes "keeps P m" "\<And>x. keeps P (f x)"
  shows "keeps P (bind_eff m f)"
proof -
  have "P (snd (bind_eff m f s))" if "P s" for s
  proof -
    obtain r s1 where m: "m s = (r, s1)" by fastforce
    then have "P s1" using assms(1) that keepsD by fastforce
    then show ?thesis using m keepsD [OF assms(2)] by (cases r) simp_all
  qed
  then show ?thesis by (simp add: keeps_def)
qed

lemma keeps_reply [keeps_intros]:
  "keeps P (reply_frame ev pl)" "keeps P (scan_reply pb ec d n t)" "keeps P (end_reply pb ec d a b c e)"
  by (simp_all add: reply_frame_def scan_reply_def end_reply_def keeps_intros)

lemma keeps_if [keeps_intros]: "keeps P m \<Longrightarrow> keeps P m' \<Longrightarrow> keeps P (if b then m else m')"
  by simp

lemma keeps_option [keeps_intros]:
  "keeps P m \<Longrightarrow> (\<And>x. keeps P (f x)) \<Longrightarrow> keeps P (case v of None \<Rightarrow> m | Some x \<Rightarrow> f x)"
  by (cases v) simp_all

lemma keeps_prod [keeps_intros]: "(\<And>x y. keeps P (f x y)) \<Longrightarrow> keeps P (case v of (x, y) \<Rightarrow> f x y)"
  by (cases v) simp_all

lemma keeps_sum [keeps_intros]:
  "(\<And>x. keeps P (f x)) \<Longrightarrow> (\<And>x. keeps P (g x)) \<Longrightarrow> keeps P (case v of Inl x \<Rightarrow> f x | Inr x \<Rightarrow> g x)"
  by (cases v) simp_all

subsection \<open>The contract of a context\<close>

text \<open>
  Two contracts: the operations that only read, or touch accounts, users, logins, finished
  rides, positions and new bikes; and, extending it, all operations.
\<close>

locale ctx_reads =
  fixes ctx :: "'s Ctx" and P :: "'s \<Rightarrow> bool"
  assumes users: "keeps P (find_by_mobile ctx m)" "keeps P (find_or_create ctx m)"
    and accounts: "keeps P (get_balance ctx uid)" "keeps P (add_balance ctx uid ty am)"
      "keeps P (list_records_of ctx uid l)"
    and sessions: "keeps P (set_code ctx m)" "keeps P (get_code ctx m)" "keeps P (delete_code ctx m)"
      "keeps P (create_session ctx m)" "keeps P (lookup_session ctx t)" "keeps P (destroy_session ctx t)"
    and bikes: "keeps P (get_for_update ctx no)" "keeps P (update_location ctx bid la lo)"
      "keeps P (list_in_bounds ctx x1 x2 x3 x4)" "keeps P (insert_bike ctx b)"
    and rides: "keeps P (create_with_points ctx i)" "keeps P (find_by_no ctx no)"
      "keeps P (list_points ctx rid)" "keeps P (list_by_user ctx uid l)"
    and ride_sessions: "keeps P (rs_find ctx no)" "keeps P (rs_update_pos ctx no la lo sq el)"
begin

lemmas ops = users accounts sessions bikes rides ride_sessions

lemma require_user: "keeps P (require_user ctx t)"
  unfolding require_user_def by (intro keeps_intros ops)

lemma spawn_loop: "keeps P (spawn_loop env ctx lat lng r i need acc)"
proof -
  have retry: "keeps P (insert_retry ctx pick x y a n)" for pick x y a n
    by (induction n arbitrary: a) (auto intro!: keeps_intros ops)
  show ?thesis
    by (induction need arbitrary: i acc) (auto intro!: keeps_intros retry split: prod.splits)
qed

lemmas parts = ops require_user spawn_loop

lemma scan_check: "keeps P (scan_check ctx req)"
  unfolding scan_check_def by (intro keeps_intros parts)

lemma account_handlers:
  "keeps P (mobile_code pb ctx pl)" "keeps P (login pb ctx pl)" "keeps P (recharge pb ctx pl)"
  "keeps P (account_balance pb ctx pl)" "keeps P (list_records pb ctx pl)"
  unfolding mobile_code_def login_def recharge_def account_balance_def list_records_def Let_def
  by (intro keeps_intros parts)+

lemma reading_handlers:
  "keeps P (list_nearby_bikes env pb ctx pl)" "keeps P (position_report pb ctx pl)"
  "keeps P (get_ride_detail pb ctx pl)" "keeps P (list_rides pb ctx pl)"
  "keeps P (end_settled pb ctx req uid)"
  unfolding list_nearby_bikes_def spawn_bikes_def position_report_def get_ride_detail_def
    list_rides_def end_settled_def Let_def
  by (intro keeps_intros parts)+

end

locale ctx_keeps = ctx_reads +
  assumes status: "keeps P (update_status ctx bid st)"
    and create: "keeps P (rs_create ctx s)"
    and remove: "keeps P (rs_remove ctx no)"
begin

lemmas all_ops = parts status create remove

lemma ride_handlers:
  "keeps P (scan_unlock env pb ctx pl)" "keeps P (end_ride env pb ctx pl)" "keeps P (report_damage pb ctx pl)"
  unfolding scan_unlock_def scan_commit_def end_ride_def end_settle_def report_damage_def Let_def
  by (intro keeps_intros all_ops scan_check reading_handlers)+

end

lemma bike_router_handlers:
  "handlers (bike_router env pb ctx) =
     [event_id MobileRequest \<mapsto> mobile_code pb ctx, event_id LoginRequest \<mapsto> login pb ctx,
      event_id RechargeRequest \<mapsto> recharge pb ctx, event_id AccountBalanceRequest \<mapsto> account_balance pb ctx,
      event_id ListAccountRecordsRequest \<mapsto> list_records pb ctx,
      event_id ListNearbyBikesRequest \<mapsto> list_nearby_bikes env pb ctx,
      event_id ScanUnlockRequest \<mapsto> scan_unlock env pb ctx,
      event_id RidePositionReport \<mapsto> position_report pb ctx, event_id EndRideRequest \<mapsto> end_ride env pb ctx,
      event_id ReportDamageRequest \<mapsto> report_damage pb ctx,
      event_id GetRideDetailRequest \<mapsto> get_ride_detail pb ctx,
      event_id ListRidesRequest \<mapsto> list_rides pb ctx]"
  by (simp add: bike_router_def register_all_handlers_def register_handler_def Let_def)

context ctx_keeps
begin

lemma dispatch: "keeps P (router_dispatch (bike_router env pb ctx) eid pl)"
  using account_handlers reading_handlers ride_handlers
  by (auto simp: keeps_def router_dispatch_def bike_router_handlers split: option.splits if_splits)

end

subsection \<open>Runs of the business process\<close>

text \<open>A run serves requests one after the other; between them clocks and random numbers move.\<close>

datatype biz_event = Serve Env u16 bytes | Tick int int "nat list"

fun biz_step :: "Pb \<Rightarrow> biz_event \<Rightarrow> World \<Rightarrow> World" where
  "biz_step pb (Serve env eid pl) w = snd (router_dispatch (bike_router env pb mem_ctx) eid pl w)"
| "biz_step pb (Tick st tm rs) w = w\<lparr>w_steady := st, w_time := tm, w_rnd := rs\<rparr>"

definition biz_run :: "Pb \<Rightarrow> biz_event list \<Rightarrow> World \<Rightarrow> World" where
  "biz_run pb evs w = fold (biz_step pb) evs w"

definition world0 :: World where
  "world0 = \<lparr>w_users = \<lparr>by_mobile = RBT.empty, next_user_id = 1\<rparr>,
     w_accounts = \<lparr>bal = RBT.empty, recs = RBT.empty\<rparr>,
     w_sessions = \<lparr>codes = RBT.empty, tokens = RBT.empty\<rparr>,
     w_bikes = \<lparr>bikes = RBT.empty, next_bike_id = 1000000\<rparr>,
     w_rides = \<lparr>rides = RBT.empty, points = RBT.empty, by_no = RBT.empty, next_ride_id = 1\<rparr>,
     w_ride_sessions = Map.empty, w_steady = 0, w_time = 0, w_rnd = []\<rparr>"

lemma biz_run_keeps:
  assumes "ctx_keeps mem_ctx P" "\<And>st tm rs w. P w \<Longrightarrow> P (w\<lparr>w_steady := st, w_time := tm, w_rnd := rs\<rparr>)"
  shows "P w \<Longrightarrow> P (biz_run pb evs w)"
  unfolding biz_run_def
proof (induction evs arbitrary: w)
  case (Cons ev evs)
  have "P (biz_step pb ev w)"
    using Cons.prems assms(2) keepsD [OF ctx_keeps.dispatch [OF assms(1)]] by (cases ev) simp_all
  then show ?case using Cons.IH by simp
qed simp

subsection \<open>The ledger\<close>

definition history :: "AccountRepo \<Rightarrow> int \<Rightarrow> AccountRecord list" where
  "history r uid = (case RBT.lookup (recs r) uid of None \<Rightarrow> [] | Some v \<Rightarrow> v)"

definition running_sums :: "AccountRecord list \<Rightarrow> bool" where
  "running_sums rs \<longleftrightarrow>
     (\<forall>i<length rs. ar_balance_after (rs ! i) = sum_list (map ar_amount (take (Suc i) rs)))"

definition entry_ok :: "int \<Rightarrow> AccountRecord list \<Rightarrow> bool" where
  "entry_ok b rs \<longleftrightarrow> b = sum_list (map ar_amount rs) \<and> 0 \<le> b \<and> in_i32 b \<and> running_sums rs"

definition ledger_ok :: "AccountRepo \<Rightarrow> bool" where
  "ledger_ok r \<longleftrightarrow> (\<forall>uid. entry_ok (mem_get_balance uid r) (history r uid))"

lemma running_sums_snoc:
  "running_sums (rs @ [a]) \<longleftrightarrow> running_sums rs \<and> ar_balance_after a = sum_list (map ar_amount rs) + ar_amount a"
  by (auto simp: running_sums_def nth_append less_Suc_eq all_conj_distrib take_Suc_conv_app_nth)

lemma mem_add_balance_spec:
  assumes "mem_add_balance now uid ty am r = (x, r')"
  shows "(x = Inr (mem_get_balance uid r + am) \<and> in_i32 (mem_get_balance uid r + am) \<and>
      (am < 0 \<longrightarrow> 0 \<le> mem_get_balance uid r + am) \<and>
      (\<forall>u. mem_get_balance u r' = mem_get_balance u r + (if u = uid then am else 0)) \<and>
      (\<forall>u. history r' u = history r u @ (if u = uid
         then [\<lparr>ar_type = record_type ty, ar_amount = am, ar_balance_after = mem_get_balance uid r + am,
                ar_timestamp = now\<rparr>] else []))) \<or>
    (x = Inr (- 1) \<and> am < 0 \<and> mem_get_balance uid r + am < 0 \<and> r' = r) \<or>
    (x = Inl Undefined_behaviour \<and> \<not> in_i32 (mem_get_balance uid r + am) \<and> r' = r)"
  using assms unfolding mem_add_balance_def mem_get_balance_def [symmetric]
  by (auto simp: checked_i32_def Let_def mem_get_balance_def history_def split: if_splits)

lemma entry_ok_snoc:
  "entry_ok b rs \<Longrightarrow> (am < 0 \<longrightarrow> 0 \<le> b + am) \<Longrightarrow> in_i32 (b + am) \<Longrightarrow>
     entry_ok (b + am) (rs @ [\<lparr>ar_type = ty, ar_amount = am, ar_balance_after = b + am, ar_timestamp = now\<rparr>])"
  by (auto simp: entry_ok_def running_sums_snoc)

lemma ledger_ok_add:
  assumes "ledger_ok r" "mem_add_balance now uid ty am r = (x, r')"
  shows "ledger_ok r'"
  using mem_add_balance_spec [OF assms(2)] assms(1)
  by (auto simp: ledger_ok_def intro!: entry_ok_snoc)

interpretation ledger: ctx_keeps mem_ctx "\<lambda>w. ledger_ok (w_accounts w)"
  by unfold_locales
    (auto simp: keeps_def mem_ctx_def draw_def ledger_ok_add split: prod.splits list.splits)


subsection \<open>Bikes and rides in progress\<close>

text \<open>Outcomes of an operation: \<open>Q\<close> when it returns, \<open>E\<close> when it throws.\<close>

definition triple :: "('s \<Rightarrow> bool) \<Rightarrow> ('s, 'a) eff \<Rightarrow> ('a \<Rightarrow> 's \<Rightarrow> bool) \<Rightarrow> ('s \<Rightarrow> bool) \<Rightarrow> bool" where
  "triple P m Q E \<longleftrightarrow> (\<forall>s. P s \<longrightarrow> (case m s of (Inl e, s1) \<Rightarrow> E s1 | (Inr x, s1) \<Rightarrow> Q x s1))"

lemma triple_bind:
  "triple P m Q E \<Longrightarrow> (\<And>x. triple (Q x) (f x) R E) \<Longrightarrow> triple P (bind_eff m f) R E"
  by (fastforce simp: triple_def bind_eff_def split: prod.splits sum.splits)

lemma keeps_iff_triple: "keeps P m \<longleftrightarrow> triple P m (\<lambda>_. P) P"
proof -
  have "P (snd (m s)) \<longleftrightarrow> (case m s of (Inl e, s1) \<Rightarrow> P s1 | (Inr x, s1) \<Rightarrow> P s1)" for s
    by (auto split: prod.splits sum.splits)
  then show ?thesis by (simp add: triple_def keeps_def)
qed

lemma triple_weaken:
  "triple P m Q E \<Longrightarrow> (\<And>s. P' s \<Longrightarrow> P s) \<Longrightarrow> (\<And>x s. Q x s \<Longrightarrow> Q' x s) \<Longrightarrow> (\<And>s. E s \<Longrightarrow> E' s) \<Longrightarrow>
     triple P' m Q' E'"
  by (fastforce simp: triple_def split: prod.splits sum.splits)

definition fleet_ok :: "(string \<rightharpoonup> Bike) \<Rightarrow> int \<Rightarrow> bool" where
  "fleet_ok m nid \<longleftrightarrow>
     (\<forall>no b. m no = Some b \<longrightarrow> bk_no b = no \<and> bk_id b < nid) \<and>
     (\<forall>no1 no2 b1 b2. m no1 = Some b1 \<longrightarrow> m no2 = Some b2 \<longrightarrow> bk_id b1 = bk_id b2 \<longrightarrow> no1 = no2)"

definition rides_ok :: "(string \<rightharpoonup> Bike) \<Rightarrow> RideSessionStore \<Rightarrow> bool" where
  "rides_ok m st \<longleftrightarrow>
     (\<forall>no s. st no = Some s \<longrightarrow> rs_ride_no s = no \<and>
        (\<exists>bno b. m bno = Some b \<and> bk_id b = rs_bike_id s \<and> bk_status b \<noteq> Idle)) \<and>
     (\<forall>no1 no2 s1 s2. st no1 = Some s1 \<longrightarrow> st no2 = Some s2 \<longrightarrow> rs_bike_id s1 = rs_bike_id s2 \<longrightarrow> no1 = no2)"

definition fleet :: "World \<Rightarrow> string \<rightharpoonup> Bike" where
  "fleet w = RBT.lookup (bikes (w_bikes w))"

definition rental_ok :: "World \<Rightarrow> bool" where
  "rental_ok w \<longleftrightarrow> fleet_ok (fleet w) (next_bike_id (w_bikes w)) \<and> rides_ok (fleet w) (w_ride_sessions w)"

lemma mem_update_first_cases:
  assumes "mem_update_first bid f r = (ok, r')"
  shows "(\<exists>no b. RBT.lookup (bikes r) no = Some b \<and> bk_id b = bid \<and> ok \<and>
      r' = r\<lparr>bikes := RBT.insert no (f b) (bikes r)\<rparr>) \<or>
    (\<not> ok \<and> r' = r \<and> (\<forall>no b. RBT.lookup (bikes r) no = Some b \<longrightarrow> bk_id b \<noteq> bid))"
proof (cases "List.find (\<lambda>(no, b). bk_id b = bid) (RBT.entries (bikes r))")
  case None
  then have "\<forall>no b. RBT.lookup (bikes r) no = Some b \<longrightarrow> bk_id b \<noteq> bid"
    by (auto simp: find_None_iff RBT.lookup_in_tree)
  then show ?thesis using assms None by (simp add: mem_update_first_def)
next
  case (Some x)
  obtain no b where x: "x = (no, b)" by fastforce
  have "x \<in> set (RBT.entries (bikes r))" "bk_id b = bid"
    using Some unfolding find_Some_iff x by (metis nth_mem, auto)
  then have "RBT.lookup (bikes r) no = Some b" by (simp add: RBT.lookup_in_tree x)
  then show ?thesis using assms Some x \<open>bk_id b = bid\<close> by (auto simp: mem_update_first_def)
qed

text \<open>Changing one bike without changing its identity.\<close>

lemma fleet_ok_change:
  assumes "fleet_ok m nid" "m no = Some b" "bk_id b' = bk_id b" "bk_no b' = bk_no b"
  shows "fleet_ok (m(no \<mapsto> b')) nid"
  using assms unfolding fleet_ok_def by (auto split: if_splits)

lemma rides_ok_change:
  assumes "rides_ok m st" "fleet_ok m nid" "m no = Some b" "bk_id b' = bk_id b"
    "bk_status b' = Idle \<longrightarrow> bk_status b = Idle"
  shows "rides_ok (m(no \<mapsto> b')) st"
proof -
  have "\<exists>bno x. (m(no \<mapsto> b')) bno = Some x \<and> bk_id x = bid \<and> bk_status x \<noteq> Idle"
    if "\<exists>bno x. m bno = Some x \<and> bk_id x = bid \<and> bk_status x \<noteq> Idle" for bid
    using that assms(3-5) by (metis fun_upd_apply option.inject)
  then show ?thesis using assms(1) unfolding rides_ok_def by blast
qed

lemma rental_ok_update:
  assumes "rental_ok w" "mem_update_first bid f (w_bikes w) = (ok, r')"
    and f: "\<And>b. bk_id (f b) = bk_id b \<and> bk_no (f b) = bk_no b \<and> (bk_status (f b) = Idle \<longrightarrow> bk_status b = Idle)"
  shows "rental_ok (w\<lparr>w_bikes := r'\<rparr>)"
  using mem_update_first_cases [OF assms(2)] assms(1) f
  by (auto simp: rental_ok_def fleet_def intro!: fleet_ok_change rides_ok_change)

lemma fleet_ok_new:
  assumes "fleet_ok m nid" "bk_id b = nid"
  shows "fleet_ok (m(bk_no b \<mapsto> b)) (nid + 1)"
proof -
  have lt: "bk_id x < nid" if "m no = Some x" for no x
    using assms(1) that by (auto simp: fleet_ok_def)
  have inj: "no1 = no2" if "m no1 = Some b1" "m no2 = Some b2" "bk_id b1 = bk_id b2" for no1 no2 b1 b2
    using assms(1) that unfolding fleet_ok_def by blast
  show ?thesis unfolding fleet_ok_def
  proof (intro conjI allI impI)
    fix no x assume x: "(m(bk_no b \<mapsto> b)) no = Some x"
    show "bk_no x = no" using x assms(1) by (auto simp: fleet_ok_def split: if_splits)
    show "bk_id x < nid + 1" using x lt [of no x] assms(2) by (auto split: if_splits)
  next
    fix no1 no2 b1 b2
    assume "(m(bk_no b \<mapsto> b)) no1 = Some b1" "(m(bk_no b \<mapsto> b)) no2 = Some b2" "bk_id b1 = bk_id b2"
    then show "no1 = no2"
      using lt [of no1 b1] lt [of no2 b2] inj [of no1 b1 no2 b2] assms(2) by (auto split: if_splits)
  qed
qed

lemma rental_ok_insert:
  assumes "rental_ok w" "mem_insert_bike b (w_bikes w) = (x, r')"
  shows "rental_ok (w\<lparr>w_bikes := r'\<rparr>)"
proof (cases "fleet w (bk_no b)")
  case None
  let ?nid = "next_bike_id (w_bikes w)"
  have ok: "fleet_ok (fleet w) ?nid" "rides_ok (fleet w) (w_ride_sessions w)"
    using assms(1) by (simp_all add: rental_ok_def)
  have "fleet_ok ((fleet w)(bk_no b \<mapsto> b\<lparr>bk_id := ?nid\<rparr>)) (?nid + 1)"
    using fleet_ok_new [OF ok(1), of "b\<lparr>bk_id := ?nid\<rparr>"] by simp
  moreover have "rides_ok ((fleet w)(bk_no b \<mapsto> b\<lparr>bk_id := ?nid\<rparr>)) (w_ride_sessions w)"
    using ok(2) None unfolding rides_ok_def by (auto split: if_splits) (metis option.distinct(1))
  ultimately show ?thesis using assms(2) None
    by (auto simp: rental_ok_def fleet_def mem_insert_bike_def Let_def)
qed (use assms in \<open>auto simp: mem_insert_bike_def fleet_def\<close>)

lemma rental_ok_position:
  assumes "rental_ok w" "update_pos no la lo sq el (w_ride_sessions w) = (x, st)"
  shows "rental_ok (w\<lparr>w_ride_sessions := st\<rparr>)"
proof -
  have "rides_ok m st" if "rides_ok m (w_ride_sessions w)" for m
  proof (cases "w_ride_sessions w no")
    case (Some s)
    have "st = w_ride_sessions w \<or> (\<exists>s'. st = (w_ride_sessions w)(no \<mapsto> s') \<and>
        rs_ride_no s' = rs_ride_no s \<and> rs_bike_id s' = rs_bike_id s)"
      using assms(2) Some by (auto simp: update_pos_def Let_def split: if_splits)
    then show ?thesis using that Some unfolding rides_ok_def by (auto split: if_splits)
  qed (use assms(2) that in \<open>simp add: update_pos_def\<close>)
  then show ?thesis using assms(1) by (simp add: rental_ok_def fleet_def)
qed

lemma rental_ok_frame:
  "rental_ok w \<Longrightarrow> w_bikes w' = w_bikes w \<Longrightarrow> w_ride_sessions w' = w_ride_sessions w \<Longrightarrow> rental_ok w'"
  by (simp add: rental_ok_def fleet_def)

interpretation rental: ctx_reads mem_ctx rental_ok
  by unfold_locales
    (auto simp: keeps_def mem_ctx_def draw_def mem_update_location_def
      intro: rental_ok_frame rental_ok_position rental_ok_insert rental_ok_update
      split: prod.splits list.splits)

text \<open>Handing out an idle bike, and taking it back.\<close>

lemma fleet_ok_inj:
  assumes "fleet_ok m nid" "m no1 = Some b1" "m no2 = Some b2" "bk_id b1 = bk_id b2"
  shows "no1 = no2 \<and> b1 = b2"
proof -
  have "no1 = no2" using assms unfolding fleet_ok_def by blast
  then show ?thesis using assms by simp
qed

lemma mem_update_first_unique:
  assumes "fleet_ok (RBT.lookup (bikes r)) nid" "RBT.lookup (bikes r) no = Some b" "bk_id b = bid"
    and "mem_update_first bid f r = (ok, r')"
  shows "ok \<and> r' = r\<lparr>bikes := RBT.insert no (f b) (bikes r)\<rparr>"
  using mem_update_first_cases [OF assms(4)]
proof (elim disjE exE conjE)
  fix no2 b2
  assume "RBT.lookup (bikes r) no2 = Some b2" "bk_id b2 = bid" ok
    "r' = r\<lparr>bikes := RBT.insert no2 (f b2) (bikes r)\<rparr>"
  moreover from this have "no2 = no \<and> b2 = b"
    using fleet_ok_inj [OF assms(1), of no2 b2 no b] assms(2,3) by simp
  ultimately show ?thesis by simp
qed (use assms in blast)

lemma rides_okD:
  assumes "rides_ok m st" "st no = Some s"
  obtains bno b where "rs_ride_no s = no" "m bno = Some b" "bk_id b = rs_bike_id s" "bk_status b \<noteq> Idle"
  using assms unfolding rides_ok_def by blast

lemma rides_ok_inj:
  "rides_ok m st \<Longrightarrow> st no1 = Some s1 \<Longrightarrow> st no2 = Some s2 \<Longrightarrow> rs_bike_id s1 = rs_bike_id s2 \<Longrightarrow> no1 = no2"
  unfolding rides_ok_def by blast

lemma rides_ok_add:
  assumes "rides_ok m st" "m bno = Some b" "bk_id b = rs_bike_id s" "bk_status b \<noteq> Idle"
    and "\<And>no s2. st no = Some s2 \<Longrightarrow> rs_bike_id s2 \<noteq> rs_bike_id s"
  shows "rides_ok m (st(rs_ride_no s \<mapsto> s))"
  unfolding rides_ok_def
proof (intro conjI allI impI)
  fix no s2 assume s2: "(st(rs_ride_no s \<mapsto> s)) no = Some s2"
  show "rs_ride_no s2 = no" using s2 rides_okD [OF assms(1), of no s2] by (auto split: if_splits)
  show "\<exists>bno b. m bno = Some b \<and> bk_id b = rs_bike_id s2 \<and> bk_status b \<noteq> Idle"
  proof (cases "no = rs_ride_no s")
    case True
    then show ?thesis using s2 assms(2-4) by auto
  next
    case False
    then have "st no = Some s2" using s2 by simp
    from rides_okD [OF assms(1) this] show ?thesis by blast
  qed
next
  fix no1 no2 s1 s2
  assume "(st(rs_ride_no s \<mapsto> s)) no1 = Some s1" "(st(rs_ride_no s \<mapsto> s)) no2 = Some s2"
    "rs_bike_id s1 = rs_bike_id s2"
  then show "no1 = no2"
    using assms(5) [of no1 s1] assms(5) [of no2 s2] rides_ok_inj [OF assms(1), of no1 s1 no2 s2]
    by (auto split: if_splits)
qed

lemma rental_ok_unlock:
  assumes "rental_ok w" "fleet w bno = Some b" "bk_status b = Idle" "rs_bike_id s = bk_id b"
    and "mem_update_status (bk_id b) Rented (w_bikes w) = (x, r')"
  shows "rental_ok (w\<lparr>w_ride_sessions := session_create s (w_ride_sessions w), w_bikes := r'\<rparr>)"
proof -
  have ok: "fleet_ok (fleet w) (next_bike_id (w_bikes w))" "rides_ok (fleet w) (w_ride_sessions w)"
    using assms(1) by (simp_all add: rental_ok_def)
  have uniq: "no = bno \<and> b2 = b" if "fleet w no = Some b2" "bk_id b2 = bk_id b" for no b2
    using fleet_ok_inj [OF ok(1) that(1) assms(2) that(2)] .
  have r': "r' = (w_bikes w)\<lparr>bikes := RBT.insert bno (b\<lparr>bk_status := Rented\<rparr>) (bikes (w_bikes w))\<rparr>"
    using mem_update_first_unique [OF ok(1) [unfolded fleet_def] assms(2) [unfolded fleet_def] refl
        assms(5) [unfolded mem_update_status_def]] by simp
  let ?m = "(fleet w)(bno \<mapsto> b\<lparr>bk_status := Rented\<rparr>)"
  have free: "rs_bike_id s2 \<noteq> bk_id b" if "w_ride_sessions w no = Some s2" for no s2
    by (rule rides_okD [OF ok(2) that]) (use uniq assms(3) in \<open>metis\<close>)
  have "rides_ok ?m (w_ride_sessions w)"
    by (rule rides_ok_change [OF ok(2,1) assms(2)]) simp_all
  then have "rides_ok ?m ((w_ride_sessions w)(rs_ride_no s \<mapsto> s))"
    by (rule rides_ok_add [where bno = bno and b = "b\<lparr>bk_status := Rented\<rparr>"]) (use assms(4) free in auto)
  moreover have "fleet_ok ?m (next_bike_id (w_bikes w))"
    using fleet_ok_change [OF ok(1) assms(2)] by simp
  ultimately show ?thesis by (simp add: rental_ok_def fleet_def r' session_create_def)
qed

lemma rental_ok_return:
  assumes "rental_ok w" "w_ride_sessions w no = Some s"
    and "mem_update_status (rs_bike_id s) Idle (w_bikes w) = (x, r')"
  shows "rental_ok (w\<lparr>w_bikes := r', w_ride_sessions := (w_ride_sessions w)(rs_ride_no s := None)\<rparr>)"
proof -
  have ok: "fleet_ok (fleet w) (next_bike_id (w_bikes w))" "rides_ok (fleet w) (w_ride_sessions w)"
    using assms(1) by (simp_all add: rental_ok_def)
  obtain bno b where b: "fleet w bno = Some b" "bk_id b = rs_bike_id s"
    and no: "rs_ride_no s = no" using rides_okD [OF ok(2) assms(2)] by metis
  have r': "r' = (w_bikes w)\<lparr>bikes := RBT.insert bno (b\<lparr>bk_status := Idle\<rparr>) (bikes (w_bikes w))\<rparr>"
    using mem_update_first_unique [OF ok(1) [unfolded fleet_def] b(1) [unfolded fleet_def] b(2)
        assms(3) [unfolded mem_update_status_def]] by simp
  have other: "\<exists>bno2 b2. ((fleet w)(bno \<mapsto> b\<lparr>bk_status := Idle\<rparr>)) bno2 = Some b2 \<and>
      bk_id b2 = rs_bike_id s2 \<and> bk_status b2 \<noteq> Idle"
    if "w_ride_sessions w no2 = Some s2" "no2 \<noteq> no" for no2 s2
  proof -
    obtain bno2 b2 where "fleet w bno2 = Some b2" "bk_id b2 = rs_bike_id s2" "bk_status b2 \<noteq> Idle"
      using rides_okD [OF ok(2) \<open>w_ride_sessions w no2 = Some s2\<close>] by metis
    moreover have "rs_bike_id s2 \<noteq> rs_bike_id s" using rides_ok_inj [OF ok(2) that(1) assms(2)] that(2) by blast
    ultimately show ?thesis using b by (intro exI [of _ bno2] exI [of _ b2]) auto
  qed
  have "rides_ok ((fleet w)(bno \<mapsto> b\<lparr>bk_status := Idle\<rparr>)) ((w_ride_sessions w)(no := None))"
    using ok(2) other unfolding rides_ok_def by (simp split: if_splits)
  moreover have "fleet_ok ((fleet w)(bno \<mapsto> b\<lparr>bk_status := Idle\<rparr>)) (next_bike_id (w_bikes w))"
    using fleet_ok_change [OF ok(1) b(1)] by simp
  ultimately show ?thesis by (simp add: rental_ok_def fleet_def r' no)
qed

lemma triple_scan_check:
  "triple rental_ok (scan_check mem_ctx req)
     (\<lambda>r w. rental_ok w \<and> (\<forall>u b. r = Inr (u, b) \<longrightarrow>
        fleet w (scan_request_bike_no req) = Some b \<and> bk_status b = Idle)) rental_ok"
proof -
  have "triple rental_ok (scan_check mem_ctx req) (\<lambda>_. rental_ok) rental_ok"
    using rental.scan_check by (simp add: keeps_iff_triple)
  moreover have "fleet w' (scan_request_bike_no req) = Some b \<and> bk_status b = Idle"
    if "scan_check mem_ctx req w = (Inr (Inr (u, b)), w')" for w w' u b
    using that
    by (auto simp: scan_check_def mem_ctx_def bind_eff_def fleet_def mem_get_for_update_def ret_def
        split: prod.splits sum.splits option.splits if_splits BikeStatus.splits intro: BikeStatus.exhaust [of "bk_status b"])
  ultimately show ?thesis
    unfolding triple_def by (fastforce split: prod.splits sum.splits)
qed

lemma keeps_rental_scan: "keeps rental_ok (scan_unlock env pb mem_ctx pl)"
proof -
  have commit: "triple (\<lambda>w. rental_ok w \<and> fleet w bno = Some b \<and> bk_status b = Idle)
      (scan_commit env pb mem_ctx req u b) (\<lambda>_. rental_ok) rental_ok" for bno b req u
  proof -
    have "rental_ok (snd (scan_commit env pb mem_ctx req u b w))"
      if ok: "rental_ok w" "fleet w bno = Some b" "bk_status b = Idle" for w
    proof (cases "make_ride_no (today_yyyymmdd (clk env 1)) (narrow_i32 (c_mod (clk env 0) 999999 + 1))")
      case (Inl e)
      then show ?thesis using ok by (simp add: scan_commit_def bind_eff_def)
    next
      case (Inr no)
      obtain x r' where upd: "mem_update_status (bk_id b) Rented (w_bikes w) = (x, r')" by fastforce
      show ?thesis
        using Inr upd rental_ok_unlock [OF ok, OF _ upd]
        by (simp add: scan_commit_def bind_eff_def mem_ctx_def Let_def scan_reply_def reply_frame_def)
    qed
    then show ?thesis
      unfolding triple_def by (auto split: prod.splits sum.splits) (metis snd_conv)+
  qed
  have "triple rental_ok (scan_unlock env pb mem_ctx pl) (\<lambda>_. rental_ok) rental_ok"
  proof (cases "parse_scan_request pb pl")
    case None
    then show ?thesis by (simp add: scan_unlock_def keeps_intros flip: keeps_iff_triple)
  next
    case (Some req)
    show ?thesis unfolding scan_unlock_def Some option.case
    proof (rule triple_bind [OF triple_scan_check])
      fix r :: "ErrCode \<times> string + int \<times> Bike"
      let ?Q = "\<lambda>w. rental_ok w \<and> (\<forall>u b. r = Inr (u, b) \<longrightarrow>
        fleet w (scan_request_bike_no req) = Some b \<and> bk_status b = Idle)"
      show "triple ?Q (case r of Inl (ec, desc) \<Rightarrow> scan_reply pb ec desc [] 0
          | Inr (u, b) \<Rightarrow> scan_commit env pb mem_ctx req u b) (\<lambda>_. rental_ok) rental_ok"
      proof (cases r)
        case (Inl p)
        have "triple rental_ok (scan_reply pb (fst p) (snd p) [] 0) (\<lambda>_. rental_ok) rental_ok"
          by (simp add: keeps_intros flip: keeps_iff_triple)
        then show ?thesis using Inl by (auto simp: case_prod_beta elim: triple_weaken)
      next
        case (Inr p)
        from commit [of "scan_request_bike_no req" "snd p" req "fst p"] show ?thesis
          using Inr by (cases p) (auto elim: triple_weaken)
      qed
    qed
  qed
  then show ?thesis by (simp add: keeps_iff_triple)
qed

lemma keeps_rental_damage: "keeps rental_ok (report_damage pb mem_ctx pl)"
proof -
  have "keeps rental_ok (update_status mem_ctx bid Damaged)" for bid
    by (auto simp: keeps_def mem_ctx_def mem_update_status_def intro: rental_ok_update split: prod.splits)
  then show ?thesis
    unfolding report_damage_def Let_def by (intro keeps_intros rental.parts)
qed

lemma mem_ctx_ops:
  "add_balance mem_ctx uid ty am w =
     (case mem_add_balance (w_time w) uid ty am (w_accounts w) of (b, r) \<Rightarrow> (b, w\<lparr>w_accounts := r\<rparr>))"
  "create_with_points mem_ctx i w =
     (case mem_create_with_points i (w_rides w) of (x, r) \<Rightarrow> (Inr x, w\<lparr>w_rides := r\<rparr>))"
  "update_location mem_ctx bid la lo w =
     (case mem_update_location bid la lo (w_bikes w) of (b, r) \<Rightarrow> (Inr b, w\<lparr>w_bikes := r\<rparr>))"
  "update_status mem_ctx bid st w =
     (case mem_update_status bid st (w_bikes w) of (b, r) \<Rightarrow> (Inr b, w\<lparr>w_bikes := r\<rparr>))"
  "rs_remove mem_ctx no w = (Inr (w_ride_sessions w no \<noteq> None),
     w\<lparr>w_ride_sessions := (w_ride_sessions w)(no := None)\<rparr>)"
  "rs_find mem_ctx no w = (Inr (w_ride_sessions w no), w)"
  "get_balance mem_ctx uid w = (Inr (mem_get_balance uid (w_accounts w)), w)"
  by (simp_all add: mem_ctx_def session_remove_def session_find_def)

text \<open>
  Settling a ride in the in-memory world: it throws before anything is changed, or it is
  refused for want of money with nothing changed, or the charge is booked; then it can only
  fail on the distance, and otherwise the ride is stored, the bike freed and the session gone.
\<close>

definition settle_amount :: "Env \<Rightarrow> RideSession \<Rightarrow> int \<times> int res" where
  "settle_amount env sess =
     (let d0 = narrow_i32 (clk env 0 - rs_start_ts sess); d = (if d0 < 0 then 0 else d0) in
      (d, compute_fee d))"

lemma settle_amount_ok:
  obtains d f where "settle_amount env sess = (d, Inr f)" "0 \<le> d" "in_i32 d" "100 \<le> f" "in_i32 f"
proof -
  define d where "d = (let d0 = narrow_i32 (clk env 0 - rs_start_ts sess) in if d0 < 0 then 0 else d0)"
  have d: "0 \<le> d" "in_i32 d"
    using narrow_i32_in [of "clk env 0 - rs_start_ts sess"] by (auto simp: d_def Let_def i32_defs)
  obtain f where "compute_fee d = Inr f" "100 \<le> f" "in_i32 f" using compute_fee_ok [OF d] .
  then show thesis using that d by (simp add: settle_amount_def d_def Let_def)
qed

definition settled_ride :: "Env \<Rightarrow> RideSession \<Rightarrow> end_ride_request \<Rightarrow> int \<Rightarrow> int \<Rightarrow> int \<Rightarrow> int \<Rightarrow>
    RidePoint list \<Rightarrow> CreateRideInput" where
  "settled_ride env sess req uid d dst amount pts =
     \<lparr>in_ride_no = rs_ride_no sess, in_user_id = uid, in_bike_id = rs_bike_id sess,
      in_start_ts = rs_start_ts sess, in_end_ts = clk env 0, in_start_lat = rs_start_lat sess,
      in_start_lng = rs_start_lng sess, in_end_lat = end_request_lat req,
      in_end_lng = end_request_lng req, in_duration_sec = d,
      in_distance_m = dst, in_amount_cent = amount, in_points = pts\<rparr>"

definition after_settle :: "RideSession \<Rightarrow> end_ride_request \<Rightarrow> CreateRideInput \<Rightarrow> World \<Rightarrow> World" where
  "after_settle sess req ride w =
     (let r1 = snd (mem_update_location (rs_bike_id sess) (end_request_lat req) (end_request_lng req) (w_bikes w));
          r2 = snd (mem_update_status (rs_bike_id sess) Idle r1) in
      w\<lparr>w_rides := snd (mem_create_with_points ride (w_rides w)), w_bikes := r2,
        w_ride_sessions := (w_ride_sessions w)(rs_ride_no sess := None)\<rparr>)"

lemma end_settle_cases:
  assumes amount: "settle_amount env sess = (d, Inr amount)"
  shows "end_settle env pb mem_ctx req uid sess w =
    (case ride_track env sess req d of
       Inl e \<Rightarrow> (Inl e, w)
     | Inr pts \<Rightarrow>
         (case mem_add_balance (w_time w) uid Consume (- amount) (w_accounts w) of
            (Inl e, r) \<Rightarrow> (Inl e, w\<lparr>w_accounts := r\<rparr>)
          | (Inr b, r) \<Rightarrow>
              if b < 0 then end_reply pb ProcessFailed desc_low_balance 0 0 0 0 (w\<lparr>w_accounts := r\<rparr>)
              else
                (case dbl_to_int (track_length pts (Num 0)) of
                   Inl e \<Rightarrow> (Inl e, w\<lparr>w_accounts := r\<rparr>)
                 | Inr dst \<Rightarrow> end_reply pb Ok [] d dst amount b
                     (after_settle sess req (settled_ride env sess req uid d dst amount pts)
                        (w\<lparr>w_accounts := r\<rparr>)))))"
proof -
  have d: "(if narrow_i32 (clk env 0 - rs_start_ts sess) < 0 then 0
      else narrow_i32 (clk env 0 - rs_start_ts sess)) = d" "compute_fee d = Inr amount"
    using amount by (auto simp: settle_amount_def Let_def split: if_splits)
  show ?thesis
    unfolding end_settle_def Let_def d
    by (simp add: bind_eff_def mem_ctx_ops after_settle_def settled_ride_def Let_def case_prod_beta
        split: sum.splits prod.splits)
qed

lemma rental_ok_after_settle:
  assumes "rental_ok w" "w_ride_sessions w no = Some s"
  shows "rental_ok (after_settle s req ride w)"
proof -
  obtain x1 r1 where loc: "mem_update_location (rs_bike_id s) (end_request_lat req) (end_request_lng req) (w_bikes w) = (x1, r1)"
    by fastforce
  obtain x2 r2 where st: "mem_update_status (rs_bike_id s) Idle r1 = (x2, r2)" by fastforce
  have "rental_ok (w\<lparr>w_bikes := r1\<rparr>)"
    by (rule rental_ok_update [OF assms(1) loc [unfolded mem_update_location_def]]) simp
  then have "rental_ok (w\<lparr>w_bikes := r1, w_rides := snd (mem_create_with_points ride (w_rides w))\<rparr>)"
    by (rule rental_ok_frame) simp_all
  from rental_ok_return [OF this, of no s x2 r2] assms(2) st
  show ?thesis by (simp add: after_settle_def loc st Let_def)
qed

lemma keeps_rental_end: "keeps rental_ok (end_ride env pb mem_ctx pl)"
proof -
  have settle: "rental_ok (snd (end_settle env pb mem_ctx req u s w))"
    if "rental_ok w" "w_ride_sessions w no = Some s" for req u s w no
  proof -
    obtain d amount where a: "settle_amount env s = (d, Inr amount)" by (rule settle_amount_ok)
    have acc: "rental_ok (w\<lparr>w_accounts := r\<rparr>)" for r by (rule rental_ok_frame [OF that(1)]) simp_all
    then have "rental_ok (after_settle s req ride (w\<lparr>w_accounts := r\<rparr>))" for r ride
      by (rule rental_ok_after_settle [where no = no]) (simp add: that(2))
    with acc that(1) show ?thesis
      by (simp add: end_settle_cases [OF a] end_reply_def reply_frame_def split: sum.splits prod.splits)
  qed
  have find: "keeps rental_ok (bind_eff (rs_find mem_ctx no) (\<lambda>sess.
      case sess of None \<Rightarrow> end_settled pb mem_ctx req u
      | Some s \<Rightarrow> if rs_user_id s \<noteq> u then end_reply pb Unauthorized [] 0 0 0 0
                  else end_settle env pb mem_ctx req u s))" for no req u
    unfolding keeps_def
    using settle keepsD [OF rental.reading_handlers(5)]
    by (auto simp: bind_eff_def mem_ctx_ops end_reply_def reply_frame_def split: option.splits)
  show ?thesis
    unfolding end_ride_def
    by (rule keeps_option, rule keeps_reply, rule keeps_bind [OF rental.require_user], rule keeps_option,
        rule keeps_reply, rule keeps_if, rule keeps_reply, rule find)
qed

lemma keeps_rental_dispatch:
  "keeps rental_ok (router_dispatch (bike_router env pb mem_ctx) eid pl)"
  using rental.account_handlers rental.reading_handlers keeps_rental_scan keeps_rental_end keeps_rental_damage
  by (auto simp: keeps_def router_dispatch_def bike_router_handlers split: option.splits if_splits)

lemma rental_ok_run: "rental_ok w \<Longrightarrow> rental_ok (biz_run pb evs w)"
  unfolding biz_run_def
proof (induction evs arbitrary: w)
  case (Cons ev evs)
  have "rental_ok (biz_step pb ev w)"
    using Cons.prems keepsD [OF keeps_rental_dispatch]
    by (cases ev) (auto intro: rental_ok_frame)
  then show ?case using Cons.IH by simp
qed simp

definition seeded :: "Bike list \<Rightarrow> World" where
  "seeded bs = world0\<lparr>w_bikes := fold mem_seed_bike bs (w_bikes world0)\<rparr>"

lemma fleet_seed:
  "fleet_ok (RBT.lookup (bikes r)) n \<Longrightarrow> next_bike_id r = n \<Longrightarrow> distinct (map bk_no bs) \<Longrightarrow> distinct (map bk_id bs) \<Longrightarrow>
   (\<forall>b\<in>set bs. bk_id b < n \<and> RBT.lookup (bikes r) (bk_no b) = None \<and>
      (\<forall>no x. RBT.lookup (bikes r) no = Some x \<longrightarrow> bk_id x \<noteq> bk_id b)) \<Longrightarrow>
   fleet_ok (RBT.lookup (bikes (fold mem_seed_bike bs r))) n \<and> next_bike_id (fold mem_seed_bike bs r) = n"
proof (induction bs arbitrary: r)
  case (Cons b bs)
  have "fleet_ok ((RBT.lookup (bikes r))(bk_no b \<mapsto> b)) n"
    using Cons.prems(1,5) unfolding fleet_ok_def by (auto split: if_splits) metis+
  then have ok: "fleet_ok (RBT.lookup (bikes (mem_seed_bike b r))) n" by (simp add: mem_seed_bike_def)
  have nid: "next_bike_id (mem_seed_bike b r) = n" using Cons.prems(2) by (simp add: mem_seed_bike_def)
  have "\<forall>x\<in>set bs. bk_id x < n \<and> RBT.lookup (bikes (mem_seed_bike b r)) (bk_no x) = None \<and>
      (\<forall>no y. RBT.lookup (bikes (mem_seed_bike b r)) no = Some y \<longrightarrow> bk_id y \<noteq> bk_id x)"
    using Cons.prems(3-5) by (auto simp: mem_seed_bike_def image_iff)
  then show ?case using Cons.IH [OF ok nid] Cons.prems(3,4) by simp
qed simp

text \<open>
  Property C2: a bike is in at most one ride. Whatever requests the business process serves,
  one after the other, two rides in progress never have the same bike, and the bike of a ride
  in progress is never marked idle, so nobody else can unlock it.
\<close>

theorem one_ride_per_bike:
  assumes "distinct (map bk_no bs)" "distinct (map bk_id bs)" "\<forall>b\<in>set bs. bk_id b < 1000000"
    and "w = biz_run pb evs (seeded bs)" "w_ride_sessions w no = Some s"
  shows "(\<exists>bno b. fleet w bno = Some b \<and> bk_id b = rs_bike_id s \<and> bk_status b \<noteq> Idle) \<and>
    (\<forall>no' s'. w_ride_sessions w no' = Some s' \<and> rs_bike_id s' = rs_bike_id s \<longrightarrow> no' = no)"
proof -
  have "rental_ok (seeded bs)"
    using fleet_seed [of "w_bikes world0" 1000000 bs] assms(1-3)
    by (auto simp: rental_ok_def seeded_def fleet_def world0_def fleet_ok_def rides_ok_def)
  then have "rides_ok (fleet w) (w_ride_sessions w)"
    using rental_ok_run assms(4) by (simp add: rental_ok_def)
  then show ?thesis using assms(5) unfolding rides_ok_def by blast
qed

subsection \<open>A small world\<close>

text \<open>
  A codec whose parsers know one request each, for the witnesses: a user registers, logs in,
  pays in 5.00, unlocks bike B1 and ends the ride.
\<close>

definition demo_pb :: Pb where
  "demo_pb = \<lparr>
     parse_mobile_request = (\<lambda>_. Some \<lparr>mobile_request_mobile = ''1''\<rparr>),
     parse_login_request = (\<lambda>_. Some \<lparr>login_request_mobile = ''1'', login_request_icode = 100000\<rparr>),
     parse_recharge_request = (\<lambda>_. Some \<lparr>recharge_request_token = ''00'', recharge_request_amount = 500\<rparr>),
     parse_account_balance_request = (\<lambda>_. Some \<lparr>account_balance_request_token = ''00''\<rparr>),
     parse_list_records_request = (\<lambda>_. Some \<lparr>list_records_request_token = ''00''\<rparr>),
     parse_nearby_request = (\<lambda>_. Some \<lparr>nearby_request_token = ''00'', nearby_request_lat = Num 0,
        nearby_request_lng = Num 0, nearby_request_radius = Num 100\<rparr>),
     parse_scan_request = (\<lambda>_. Some \<lparr>scan_request_token = ''00'', scan_request_bike_no = ''B1'',
        scan_request_lat = Num 0, scan_request_lng = Num 0\<rparr>),
     parse_position_report = (\<lambda>_. None),
     parse_end_request = (\<lambda>_. Some \<lparr>end_request_token = ''00'', end_request_ride_no = ''R19700101000001'',
        end_request_lat = Num 0, end_request_lng = Num 0\<rparr>),
     parse_damage_request = (\<lambda>_. Some \<lparr>damage_request_token = ''00'', damage_request_bike_no = ''B1'',
        damage_request_note = []\<rparr>),
     parse_detail_request = (\<lambda>_. Some \<lparr>detail_request_token = ''00'', detail_request_ride_no = ''R19700101000001''\<rparr>),
     parse_list_rides_request = (\<lambda>_. Some \<lparr>list_rides_request_token = ''00'', list_rides_request_limit = 10\<rparr>),
     ser_mobile_response = (\<lambda>_. []), ser_login_response = (\<lambda>_. []), ser_recharge_response = (\<lambda>_. []),
     ser_account_balance_response = (\<lambda>_. []), ser_list_records_response = (\<lambda>_. []),
     ser_nearby_response = (\<lambda>_. []), ser_scan_response = (\<lambda>_. []), ser_end_response = (\<lambda>_. []),
     ser_damage_response = (\<lambda>_. []), ser_detail_response = (\<lambda>_. []), ser_list_rides_response = (\<lambda>_. [])\<rparr>"

definition demo_env0 :: Env where
  "demo_env0 = \<lparr>clk = (\<lambda>_. 0), spawn_u = (\<lambda>_. 0), spawn_v = (\<lambda>_. 0), spawn_pick = (\<lambda>_ _ _. 0),
     std_sort = (\<lambda>ps. ps)\<rparr>"

definition demo_bike :: Bike where
  "demo_bike = \<lparr>bk_id = 1, bk_no = ''B1'', bk_lat = Num 0, bk_lng = Num 0, bk_status = Idle\<rparr>"

definition demo_login :: "biz_event list" where
  "demo_login = [Serve demo_env0 (event_id MobileRequest) [], Serve demo_env0 (event_id LoginRequest) [],
     Serve demo_env0 (event_id RechargeRequest) []]"

definition demo_ride :: "biz_event list" where
  "demo_ride = demo_login @ [Serve demo_env0 (event_id ScanUnlockRequest) []]"

definition demo_world :: World where
  "demo_world = (seeded [demo_bike])\<lparr>
     w_users := \<lparr>by_mobile = RBT.insert ''1'' \<lparr>u_id = 1, u_mobile = ''1''\<rparr> RBT.empty, next_user_id = 2\<rparr>,
     w_accounts := \<lparr>bal = RBT.insert 1 500 RBT.empty, recs = RBT.insert 1 [\<lparr>ar_type = 1, ar_amount = 500,
       ar_balance_after = 500, ar_timestamp = 0\<rparr>] RBT.empty\<rparr>,
     w_sessions := \<lparr>codes = RBT.delete ''1'' (RBT.insert ''1'' (100000, 300) RBT.empty),
       tokens = RBT.insert ''00'' (''1'', 604800) RBT.empty\<rparr>\<rparr>"

lemma hex_zero: "hex_digits 0 = ''0''"
  by code_simp

lemmas serve_simps = router_dispatch_def bike_router_handlers bind_eff_def mem_ctx_def demo_pb_def
  reply_frame_def require_user_def Let_def

lemma demo_login_world: "biz_run demo_pb demo_login (seeded [demo_bike]) = demo_world"
  by (simp add: biz_run_def demo_login_def serve_simps mobile_code_def login_def recharge_def encode_def
      draw_def demo_world_def seeded_def world0_def hex_zero
      mem_set_code_def mem_get_code_def mem_delete_code_def mem_find_or_create_def mem_get_balance_def
      mem_create_session_def mem_lookup_session_def mem_add_balance_def checked_i32_def i32_defs)

definition demo_ride_no :: string where "demo_ride_no = ''R19700101000001''"

definition demo_riding :: World where
  "demo_riding = demo_world\<lparr>
     w_ride_sessions := [demo_ride_no \<mapsto> \<lparr>rs_ride_no = demo_ride_no, rs_user_id = 1, rs_bike_id = 1,
       rs_start_lat = Num 0, rs_start_lng = Num 0, rs_start_ts = 0, rs_last_lat = Num 0,
       rs_last_lng = Num 0, rs_last_seq = 0, rs_points = []\<rparr>],
     w_bikes := \<lparr>bikes = RBT.insert ''B1'' (demo_bike\<lparr>bk_status := Rented\<rparr>) (RBT.insert ''B1'' demo_bike RBT.empty),
       next_bike_id = 1000000\<rparr>\<rparr>"

lemma entries_single: "RBT.entries (RBT.insert k v RBT.empty) = [(k, v)]"
proof -
  let ?xs = "RBT.entries (RBT.insert k v RBT.empty)"
  have "x \<in> set ?xs \<longleftrightarrow> x = (k, v)" for x
    by (cases x) (auto simp flip: RBT.lookup_in_tree)
  then have s: "set ?xs = {(k, v)}" by blast
  moreover have "distinct ?xs" using RBT.distinct_entries [of "RBT.insert k v RBT.empty"] by (simp add: distinct_map)
  ultimately have "length ?xs = 1" using distinct_card [of ?xs] by simp
  then obtain x where "?xs = [x]" by (auto simp: length_Suc_conv)
  then show ?thesis using s by simp
qed

lemma demo_number: "make_ride_no (today_yyyymmdd 0) (narrow_i32 (c_mod 0 999999 + 1)) = Inr demo_ride_no"
  by code_simp

lemma demo_scan: "biz_step demo_pb (Serve demo_env0 (event_id ScanUnlockRequest) []) demo_world = demo_riding"
  by (simp add: serve_simps scan_unlock_def scan_check_def scan_commit_def scan_reply_def encode_def
      demo_world_def demo_riding_def seeded_def world0_def demo_env0_def demo_number mem_seed_bike_def
      mem_lookup_session_def mem_find_or_create_def valid_bike_no_def valid_lat_def valid_lng_def
      mem_get_for_update_def mem_get_balance_def mem_update_status_def mem_update_first_def entries_single
      session_create_def demo_bike_def)

theorem one_ride_per_bike_witness:
  "\<exists>w no s bno b. w = biz_run demo_pb demo_ride (seeded [demo_bike]) \<and> w_ride_sessions w no = Some s \<and>
     fleet w bno = Some b \<and> bk_id b = rs_bike_id s \<and> bk_status b \<noteq> Idle"
proof -
  let ?w = "biz_run demo_pb demo_ride (seeded [demo_bike])"
  have "?w = demo_riding"
    using demo_login_world demo_scan by (simp add: biz_run_def demo_ride_def)
  then obtain s where "w_ride_sessions ?w demo_ride_no = Some s" by (simp add: demo_riding_def)
  from one_ride_per_bike [of "[demo_bike]" ?w demo_pb demo_ride, OF _ _ _ refl this] this
  show ?thesis by (auto simp: demo_bike_def)
qed

end
