(* ===== verification/RideProps.thy ===== *)
theory RideProps
  imports HandlerProps
begin

text \<open>
  What the single handlers guarantee: the charge of a ride and its idempotence, refusal
  without effect, the race between two unlock requests, login codes, and authentication.
\<close>

subsection \<open>Authentication\<close>

definition logged_in :: "World \<Rightarrow> string \<Rightarrow> int \<Rightarrow> bool" where
  "logged_in w t uid \<longleftrightarrow> (\<exists>m e u. RBT.lookup (tokens (w_sessions w)) t = Some (m, e) \<and> w_steady w \<le> e \<and>
     RBT.lookup (by_mobile (w_users w)) m = Some u \<and> u_id u = uid)"

definition token_invalid :: "World \<Rightarrow> string \<Rightarrow> bool" where
  "token_invalid w t \<longleftrightarrow> (case RBT.lookup (tokens (w_sessions w)) t of
     None \<Rightarrow> True | Some (m, e) \<Rightarrow> w_steady w > e)"

lemma require_user_ok:
  "logged_in w t uid \<Longrightarrow> require_user mem_ctx t w = (Inr (Some uid), w)"
  by (auto simp: logged_in_def require_user_def bind_eff_def mem_ctx_def mem_lookup_session_def
      mem_find_or_create_def)

lemma lookup_session_invalid:
  assumes "token_invalid w t"
  shows "\<exists>r. lookup_session mem_ctx t w = (Inr None, w\<lparr>w_sessions := r\<rparr>) \<and>
    require_user mem_ctx t w = (Inr None, w\<lparr>w_sessions := r\<rparr>)"
proof -
  have "\<exists>r. mem_lookup_session (w_steady w) t (w_sessions w) = (None, r)"
    using assms by (auto simp: token_invalid_def mem_lookup_session_def split: option.splits)
  then obtain r where "mem_lookup_session (w_steady w) t (w_sessions w) = (None, r)" ..
  then show ?thesis by (intro exI [of _ r]) (simp add: require_user_def mem_ctx_def bind_eff_def)
qed

text \<open>The token of a request, for the events that need one.\<close>

definition request_token :: "Pb \<Rightarrow> u16 \<Rightarrow> bytes \<Rightarrow> string option" where
  "request_token pb eid pl =
     (if eid = event_id RechargeRequest then map_option recharge_request_token (parse_recharge_request pb pl)
      else if eid = event_id AccountBalanceRequest then map_option account_balance_request_token (parse_account_balance_request pb pl)
      else if eid = event_id ListAccountRecordsRequest then map_option list_records_request_token (parse_list_records_request pb pl)
      else if eid = event_id ListNearbyBikesRequest then map_option nearby_request_token (parse_nearby_request pb pl)
      else if eid = event_id ScanUnlockRequest then map_option scan_request_token (parse_scan_request pb pl)
      else if eid = event_id EndRideRequest then map_option end_request_token (parse_end_request pb pl)
      else if eid = event_id ReportDamageRequest then map_option damage_request_token (parse_damage_request pb pl)
      else if eid = event_id GetRideDetailRequest then map_option detail_request_token (parse_detail_request pb pl)
      else if eid = event_id ListRidesRequest then map_option list_rides_request_token (parse_list_rides_request pb pl)
      else None)"

text \<open>
  Property C7: a request with a token that is unknown or has expired has no effect. Whatever
  of the nine requests that carry a token it is, users, accounts, bikes, finished rides and
  rides in progress stay exactly as they are.
\<close>

theorem unauthorized_no_effect:
  assumes "request_token pb eid pl = Some t" "token_invalid w t"
  shows "\<exists>r. snd (router_dispatch (bike_router env pb mem_ctx) eid pl w) = w\<lparr>w_sessions := r\<rparr>"
proof -
  obtain r where r: "lookup_session mem_ctx t w = (Inr None, w\<lparr>w_sessions := r\<rparr>)"
    "require_user mem_ctx t w = (Inr None, w\<lparr>w_sessions := r\<rparr>)"
    using lookup_session_invalid [OF assms(2)] by blast
  have same: "\<exists>r'. w = w\<lparr>w_sessions := r'\<rparr>" by (rule exI [of _ "w_sessions w"]) simp
  note defs = recharge_def account_balance_def list_records_def list_nearby_bikes_def scan_unlock_def
    scan_check_def end_ride_def report_damage_def get_ride_detail_def list_rides_def Let_def
    reply_frame_def scan_reply_def end_reply_def
  show ?thesis
    using assms(1) r same
    by (auto simp: request_token_def router_dispatch_def bike_router_handlers bind_eff_def defs
        split: if_splits)
qed

theorem unauthorized_no_effect_witness:
  "\<exists>r. snd (router_dispatch (bike_router demo_env0 demo_pb mem_ctx) (event_id ScanUnlockRequest) [] (seeded [demo_bike]))
     = (seeded [demo_bike])\<lparr>w_sessions := r\<rparr>"
  by (rule unauthorized_no_effect [of _ _ _ "''00''"])
    (simp_all add: request_token_def demo_pb_def token_invalid_def seeded_def world0_def)

subsection \<open>Ending a ride\<close>

text \<open>An end request that reaches the settlement.\<close>

definition ends_ride :: "Pb \<Rightarrow> bytes \<Rightarrow> World \<Rightarrow> int \<Rightarrow> end_ride_request \<Rightarrow> bool" where
  "ends_ride pb pl w uid req \<longleftrightarrow> parse_end_request pb pl = Some req \<and>
     logged_in w (end_request_token req) uid \<and>
     valid_lat (end_request_lat req) \<and> valid_lng (end_request_lng req)"

lemma end_ride_found:
  assumes "ends_ride pb pl w uid req" "w_ride_sessions w (end_request_ride_no req) = Some s" "rs_user_id s = uid"
  shows "end_ride env pb mem_ctx pl w = end_settle env pb mem_ctx req uid s w"
  using assms require_user_ok [of w "end_request_token req" uid]
  by (simp add: ends_ride_def end_ride_def bind_eff_def mem_ctx_ops)

lemma end_ride_success:
  assumes req: "ends_ride pb pl w uid req"
    and sess: "w_ride_sessions w (end_request_ride_no req) = Some s" "rs_user_id s = uid"
    and fee: "settle_amount env s = (d, Inr fee)" and track: "ride_track env s req d = Inr pts"
      "dbl_to_int (track_length pts (Num 0)) = Inr dst"
    and pay: "fee \<le> mem_get_balance uid (w_accounts w)" "in_i32 (mem_get_balance uid (w_accounts w))"
    and run: "end_ride env pb mem_ctx pl w = (res, w')"
  obtains r where
    "w' = after_settle s req (settled_ride env s req uid d dst fee pts) (w\<lparr>w_accounts := r\<rparr>)"
    "\<And>u. mem_get_balance u r = mem_get_balance u (w_accounts w) + (if u = uid then - fee else 0)"
    "\<And>u. map ar_amount (history r u) = map ar_amount (history (w_accounts w) u) @ (if u = uid then [- fee] else [])"
proof -
  obtain d0 f0 where "settle_amount env s = (d0, Inr f0)" "100 \<le> f0" by (rule settle_amount_ok)
  then have f: "100 \<le> fee" using fee by simp
  obtain x r where add: "mem_add_balance (w_time w) uid Consume (- fee) (w_accounts w) = (x, r)" by fastforce
  note spec = mem_add_balance_spec [OF add]
  have "in_i32 (mem_get_balance uid (w_accounts w) + - fee)" using pay f by (simp add: i32_defs)
  then have x: "x = Inr (mem_get_balance uid (w_accounts w) - fee)"
    and bal': "\<And>u. mem_get_balance u r = mem_get_balance u (w_accounts w) + (if u = uid then - fee else 0)"
    and his: "\<And>u. map ar_amount (history r u) = map ar_amount (history (w_accounts w) u) @ (if u = uid then [- fee] else [])"
    using spec pay by auto
  have "w' = after_settle s req (settled_ride env s req uid d dst fee pts) (w\<lparr>w_accounts := r\<rparr>)"
    using run end_ride_found [OF req sess] end_settle_cases [OF fee] track add x pay
    by (simp add: end_reply_def reply_frame_def)
  from that [OF this bal' his] show thesis .
qed

lemmas settled_defs = after_settle_def Let_def mem_create_with_points_def mem_find_by_no_def
  mem_list_points_def settled_ride_def ride_of_input_def


text \<open>
  Property C5: ending a ride is idempotent. A second end request for a ride that was ended,
  from the same rider, at any later time and with any coordinates, is answered with the
  duration, distance and fee of the first one and changes nothing: there is no second charge.
\<close>

theorem end_ride_idempotent:
  assumes "ends_ride pb pl w uid req"
    and "w_ride_sessions w (end_request_ride_no req) = Some s" "rs_user_id s = uid"
    and "settle_amount env s = (d, Inr fee)" "ride_track env s req d = Inr pts"
      "dbl_to_int (track_length pts (Num 0)) = Inr dst"
    and "fee \<le> mem_get_balance uid (w_accounts w)" "in_i32 (mem_get_balance uid (w_accounts w))"
    and "end_ride env pb mem_ctx pl w = (res, w')" "rs_ride_no s = end_request_ride_no req"
    and "ends_ride pb pl2 w' uid req2" "end_request_ride_no req2 = end_request_ride_no req"
  shows "end_ride env2 pb mem_ctx pl2 w' =
    end_reply pb Ok [] d dst fee (mem_get_balance uid (w_accounts w) - fee) w' \<and>
    snd (end_ride env2 pb mem_ctx pl2 w') = w'"
proof (rule end_ride_success [OF assms(1-9)])
  fix r
  assume w': "w' = after_settle s req (settled_ride env s req uid d dst fee pts) (w\<lparr>w_accounts := r\<rparr>)"
    and bal': "\<And>u. mem_get_balance u r = mem_get_balance u (w_accounts w) + (if u = uid then - fee else 0)"
  let ?no = "end_request_ride_no req"
  have none: "w_ride_sessions w' ?no = None" and acc: "w_accounts w' = r"
    by (simp_all add: w' settled_defs assms(10))
  obtain rd where rd: "mem_find_by_no ?no (w_rides w') = (Some rd, w_rides w')" "rd_user_id rd = uid"
    "rd_duration_sec rd = d" "rd_amount_cent rd = fee" "rd_distance_m rd = dst"
    by (simp add: w' settled_defs assms(10))
  have find: "find_by_no mem_ctx ?no w' = (Inr (Some rd), w')" using rd(1) by (simp add: mem_ctx_def)
  have "end_ride env2 pb mem_ctx pl2 w' = end_settled pb mem_ctx req2 uid w'"
    using assms(11,12) none require_user_ok [of w' "end_request_token req2" uid]
    by (simp add: ends_ride_def end_ride_def bind_eff_def mem_ctx_ops)
  then show ?thesis
    using find rd(2-5) bal' assms(12) acc
    by (simp add: end_settled_def bind_eff_def mem_ctx_ops end_reply_def reply_frame_def)
qed


text \<open>The ride of the small world, ended at once where it began.\<close>

definition demo_end_req :: end_ride_request where
  "demo_end_req = \<lparr>end_request_token = ''00'', end_request_ride_no = demo_ride_no,
     end_request_lat = Num 0, end_request_lng = Num 0\<rparr>"

definition demo_riding_session :: RideSession where
  "demo_riding_session = \<lparr>rs_ride_no = demo_ride_no, rs_user_id = 1, rs_bike_id = 1,
     rs_start_lat = Num 0, rs_start_lng = Num 0, rs_start_ts = 0, rs_last_lat = Num 0,
     rs_last_lng = Num 0, rs_last_seq = 0, rs_points = []\<rparr>"

definition demo_track :: "RidePoint list" where
  "demo_track = [\<lparr>pt_seq = 0, pt_lat = Num 0, pt_lng = Num 0, pt_elapsed_sec = 0\<rparr>,
     \<lparr>pt_seq = 1, pt_lat = Num 0, pt_lng = Num 0, pt_elapsed_sec = 0\<rparr>]"

lemma demo_end:
  "ends_ride demo_pb [] demo_riding 1 demo_end_req"
  "w_ride_sessions demo_riding (end_request_ride_no demo_end_req) = Some demo_riding_session"
  "rs_user_id demo_riding_session = 1" "rs_ride_no demo_riding_session = end_request_ride_no demo_end_req"
  "settle_amount demo_env0 demo_riding_session = (0, Inr 100)"
  "ride_track demo_env0 demo_riding_session demo_end_req 0 = Inr demo_track"
  "dbl_to_int (track_length demo_track (Num 0)) = Inr 0"
  "mem_get_balance 1 (w_accounts demo_riding) = 500"
  by (simp_all add: ends_ride_def logged_in_def demo_pb_def demo_riding_def demo_world_def seeded_def
      world0_def demo_end_req_def demo_ride_no_def valid_lat_def valid_lng_def demo_riding_session_def
      settle_amount_def demo_env0_def narrow_i32_def compute_fee_def ride_track_def checked_i32_def
      i32_defs demo_track_def dbl_to_int_def haversine_refl mem_get_balance_def)


lemma demo_logged_in_after:
  assumes "w_users w' = w_users demo_riding" "w_sessions w' = w_sessions demo_riding" "w_steady w' = 0"
  shows "ends_ride demo_pb [] w' 1 demo_end_req"
  using assms demo_end(1) by (simp add: ends_ride_def logged_in_def demo_riding_def demo_world_def seeded_def world0_def)

theorem end_ride_idempotent_witness:
  "\<exists>res w'. end_ride demo_env0 demo_pb mem_ctx [] demo_riding = (res, w') \<and>
     snd (end_ride demo_env0 demo_pb mem_ctx [] w') = w'"
proof -
  obtain res w' where run: "end_ride demo_env0 demo_pb mem_ctx [] demo_riding = (res, w')" by fastforce
  have pay: "100 \<le> mem_get_balance 1 (w_accounts demo_riding)" "in_i32 (mem_get_balance 1 (w_accounts demo_riding))"
    using demo_end(8) by (simp_all add: i32_defs)
  obtain r where "w' = after_settle demo_riding_session demo_end_req
      (settled_ride demo_env0 demo_riding_session demo_end_req 1 0 0 100 demo_track) (demo_riding\<lparr>w_accounts := r\<rparr>)"
    by (rule end_ride_success [OF demo_end(1-3,5-7) pay run])
  then have "ends_ride demo_pb [] w' 1 demo_end_req"
    by (intro demo_logged_in_after)
      (simp_all add: after_settle_def Let_def demo_riding_def demo_world_def seeded_def world0_def)
  from end_ride_idempotent [OF demo_end(1-3,5-7) pay run demo_end(4) this refl] run
  show ?thesis by blast
qed


subsection \<open>Two unlock requests at once\<close>

text \<open>A request that passes the checks of \<open>scan_unlock\<close> for an idle bike.\<close>

definition may_unlock :: "World \<Rightarrow> scan_unlock_request \<Rightarrow> int \<Rightarrow> Bike \<Rightarrow> bool" where
  "may_unlock w req uid b \<longleftrightarrow> logged_in w (scan_request_token req) uid \<and>
     valid_bike_no (scan_request_bike_no req) \<and> valid_lat (scan_request_lat req) \<and>
     valid_lng (scan_request_lng req) \<and> fleet w (scan_request_bike_no req) = Some b \<and>
     bk_status b = Idle \<and> 100 \<le> mem_get_balance uid (w_accounts w)"

lemma scan_check_ok:
  "may_unlock w req uid b \<Longrightarrow> scan_check mem_ctx req w = (Inr (Inr (uid, b)), w)"
  using require_user_ok [of w "scan_request_token req" uid]
  by (simp add: may_unlock_def scan_check_def bind_eff_def mem_ctx_def mem_get_for_update_def fleet_def)

definition env_ride_no :: "Env \<Rightarrow> string res" where
  "env_ride_no env = make_ride_no (today_yyyymmdd (clk env 1)) (narrow_i32 (c_mod (clk env 0) 999999 + 1))"

lemma scan_commit_session:
  assumes "env_ride_no env = Inr no" "scan_commit env pb mem_ctx req uid b w = (res, w')"
  shows "\<exists>s. w_ride_sessions w' = (w_ride_sessions w)(no \<mapsto> s) \<and> rs_bike_id s = bk_id b \<and> rs_user_id s = uid"
  using assms
  by (auto simp: env_ride_no_def scan_commit_def bind_eff_def mem_ctx_def Let_def scan_reply_def
      reply_frame_def session_create_def split: prod.splits intro!: exI [of _ "\<lparr>rs_ride_no = no, rs_user_id = uid, rs_bike_id = bk_id b,
        rs_start_lat = scan_request_lat req, rs_start_lng = scan_request_lng req, rs_start_ts = clk env 2,
        rs_last_lat = scan_request_lat req, rs_last_lng = scan_request_lng req, rs_last_seq = 0, rs_points = []\<rparr>"])

text \<open>
  Property C3: the checks and the effect of an unlock request are not one step. When two
  requests for the same idle bike, from two riders, have both passed the checks before either
  takes effect, as two threads of the business pool can, both succeed and the bike is in two
  rides. (The interface comment of \<open>get_for_update\<close> promises a row lock within a transaction.)
\<close>

theorem scan_unlock_race:
  assumes "may_unlock w req1 u1 b" "may_unlock w req2 u2 b"
    and "env_ride_no env1 = Inr no1" "env_ride_no env2 = Inr no2" "no1 \<noteq> no2"
    and "scan_check mem_ctx req1 w = (Inr (Inr (v1, b1)), w1)" "scan_check mem_ctx req2 w1 = (Inr (Inr (v2, b2)), w2)"
    and "scan_commit env1 pb mem_ctx req1 v1 b1 w2 = (r1, w3)" "scan_commit env2 pb mem_ctx req2 v2 b2 w3 = (r2, w4)"
  shows "\<exists>s1 s2. w_ride_sessions w4 no1 = Some s1 \<and> w_ride_sessions w4 no2 = Some s2 \<and>
    rs_user_id s1 = u1 \<and> rs_user_id s2 = u2 \<and> rs_bike_id s1 = rs_bike_id s2"
proof -
  have c: "v1 = u1" "b1 = b" "w1 = w" "v2 = u2" "b2 = b" "w2 = w"
    using scan_check_ok [OF assms(1)] scan_check_ok [OF assms(2)] assms(6,7) by auto
  obtain s1 where s1: "w_ride_sessions w3 = (w_ride_sessions w2)(no1 \<mapsto> s1)" "rs_bike_id s1 = bk_id b" "rs_user_id s1 = u1"
    using scan_commit_session [OF assms(3,8)] c by auto
  obtain s2 where s2: "w_ride_sessions w4 = (w_ride_sessions w3)(no2 \<mapsto> s2)" "rs_bike_id s2 = bk_id b" "rs_user_id s2 = u2"
    using scan_commit_session [OF assms(4,9)] c by auto
  show ?thesis using s1 s2 assms(5) by simp
qed

definition demo_pair :: World where
  "demo_pair = (seeded [demo_bike])\<lparr>
     w_users := \<lparr>by_mobile = RBT.insert ''2'' \<lparr>u_id = 2, u_mobile = ''2''\<rparr> (RBT.insert ''1'' \<lparr>u_id = 1, u_mobile = ''1''\<rparr> RBT.empty),
       next_user_id = 3\<rparr>,
     w_accounts := \<lparr>bal = RBT.insert 2 500 (RBT.insert 1 500 RBT.empty), recs = RBT.empty\<rparr>,
     w_sessions := \<lparr>codes = RBT.empty,
       tokens = RBT.insert ''01'' (''2'', 604800) (RBT.insert ''00'' (''1'', 604800) RBT.empty)\<rparr>\<rparr>"

definition demo_scan_req :: "string \<Rightarrow> scan_unlock_request" where
  "demo_scan_req token = \<lparr>scan_request_token = token, scan_request_bike_no = ''B1'',
     scan_request_lat = Num 0, scan_request_lng = Num 0\<rparr>"

lemma demo_pair_unlock:
  "may_unlock demo_pair (demo_scan_req ''00'') 1 demo_bike" "may_unlock demo_pair (demo_scan_req ''01'') 2 demo_bike"
  by (simp_all add: may_unlock_def logged_in_def demo_pair_def demo_scan_req_def seeded_def world0_def fleet_def
      mem_seed_bike_def valid_bike_no_def valid_lat_def valid_lng_def mem_get_balance_def demo_bike_def)

lemma demo_numbers:
  "env_ride_no demo_env0 = Inr demo_ride_no" "env_ride_no (demo_env0\<lparr>clk := \<lambda>_. 1\<rparr>) = Inr ''R19700101000002''"
  by (simp_all add: env_ride_no_def demo_env0_def demo_number) code_simp

theorem scan_unlock_race_witness:
  "\<exists>w2 r1 w3 r2 w4 s1 s2. scan_check mem_ctx (demo_scan_req ''01'') demo_pair = (Inr (Inr (2, demo_bike)), w2) \<and>
     scan_commit demo_env0 demo_pb mem_ctx (demo_scan_req ''00'') 1 demo_bike w2 = (r1, w3) \<and>
     scan_commit (demo_env0\<lparr>clk := \<lambda>_. 1\<rparr>) demo_pb mem_ctx (demo_scan_req ''01'') 2 demo_bike w3 = (r2, w4) \<and>
     w_ride_sessions w4 demo_ride_no = Some s1 \<and> w_ride_sessions w4 ''R19700101000002'' = Some s2 \<and>
     rs_user_id s1 = 1 \<and> rs_user_id s2 = 2 \<and> rs_bike_id s1 = rs_bike_id s2"
proof -
  note c1 = scan_check_ok [OF demo_pair_unlock(1)] and c2 = scan_check_ok [OF demo_pair_unlock(2)]
  obtain r1 w3 where e1: "scan_commit demo_env0 demo_pb mem_ctx (demo_scan_req ''00'') 1 demo_bike demo_pair = (r1, w3)"
    by fastforce
  obtain r2 w4 where e2: "scan_commit (demo_env0\<lparr>clk := \<lambda>_. 1\<rparr>) demo_pb mem_ctx (demo_scan_req ''01'') 2 demo_bike w3 = (r2, w4)"
    by fastforce
  have "demo_ride_no \<noteq> ''R19700101000002''" by (simp add: demo_ride_no_def)
  from scan_unlock_race [OF demo_pair_unlock demo_numbers this c1 c2 e1 e2] c2 e1 e2
  show ?thesis by blast
qed

subsection \<open>Logging in\<close>

lemma login_done:
  assumes "parse_login_request pb pl = Some req" "login_request_mobile req = m"
    and "mem_get_code (w_steady w) m (w_sessions w) = (Some (login_request_icode req), w_sessions w)"
    and "login pb mem_ctx pl w = (res, w')"
  shows "\<exists>r1 r2. w_sessions w' = snd (mem_create_session (w_steady w) r1 r2 m (mem_delete_code m (w_sessions w)))"
proof -
  have "w_sessions w' = snd (mem_create_session (w_steady w) (fst (draw w)) (fst (draw (snd (draw w)))) m (mem_delete_code m (w_sessions w)))"
    using assms by (auto simp: login_def Let_def bind_eff_def mem_ctx_def draw_def mem_create_session_def reply_frame_def
      split: prod.splits list.splits)
  then show ?thesis by blast
qed

text \<open>
  Property C8: a verification code logs in once. A login with the stored, unexpired code makes
  a session token that belongs to the mobile number, and leaves no code: a second login with
  the same code, at any later time, is refused and changes nothing.
\<close>

theorem login_code_single_use:
  assumes "parse_login_request pb pl = Some req" "login_request_mobile req = m"
    and "mem_get_code (w_steady w) m (w_sessions w) = (Some (login_request_icode req), w_sessions w)"
    and "login pb mem_ctx pl w = (res, w')"
  shows "(\<exists>t. mem_lookup_session (w_steady w) t (w_sessions w') = (Some m, w_sessions w')) \<and>
    login pb mem_ctx pl (w'\<lparr>w_steady := later\<rparr>) =
      reply_frame LoginResponse (ser_login_response pb \<lparr>login_response_code = code InvalidData,
        login_response_desc = to_string InvalidData, login_response_token = []\<rparr>) (w'\<lparr>w_steady := later\<rparr>)"
proof -
  obtain r1 r2 where s: "w_sessions w' = snd (mem_create_session (w_steady w) r1 r2 m (mem_delete_code m (w_sessions w)))"
    using login_done [OF assms] by auto
  have "mem_lookup_session (w_steady w) (hex_digits r1 @ hex_digits r2) (w_sessions w') = (Some m, w_sessions w')"
    by (simp add: s mem_create_session_def mem_lookup_session_def mem_delete_code_def Let_def)
  moreover have "mem_get_code later m (w_sessions w') = (None, w_sessions w')"
    by (simp add: s mem_create_session_def mem_get_code_def mem_delete_code_def Let_def)
  ultimately show ?thesis using assms(1,2)
    by (auto simp: login_def Let_def bind_eff_def mem_ctx_def)
qed

theorem login_code_single_use_witness:
  "\<exists>res w'. login demo_pb mem_ctx [] ((seeded [])\<lparr>w_sessions :=
       \<lparr>codes = RBT.insert ''1'' (100000, 300) RBT.empty, tokens = RBT.empty\<rparr>\<rparr>) = (res, w') \<and>
     (\<exists>t. mem_lookup_session 0 t (w_sessions w') = (Some ''1'', w_sessions w'))"
proof -
  let ?w = "(seeded [])\<lparr>w_sessions := \<lparr>codes = RBT.insert ''1'' (100000, 300) RBT.empty, tokens = RBT.empty\<rparr>\<rparr>"
  obtain res w' where run: "login demo_pb mem_ctx [] ?w = (res, w')" by fastforce
  have st: "w_steady ?w = 0" by (simp add: seeded_def world0_def)
  show ?thesis
    using login_code_single_use [of demo_pb "[]" "\<lparr>login_request_mobile = ''1'', login_request_icode = 100000\<rparr>" "''1''" ?w, OF _ _ _ run]
      run st by (auto simp: demo_pb_def mem_get_code_def)
qed

end
