(* ===== verification/Mysql.thy ===== *)
theory Mysql
  imports Repos CLib
begin

text \<open>
  The MySQL repositories (server/src/db): the connection pool of \<open>mysql_pool.cpp\<close> and the
  four repositories with the SQL text they send, the buffers they build it in and what they
  read back. The client library with the server behind it is a parameter of the model. The
  lemmas show when the text fits its buffer, that transactions are all or nothing, and what
  the pool does to a call that takes a second connection.
\<close>

subsection \<open>The library and the pool\<close>

text \<open>
  \<open>'c\<close> are connections and \<open>'db\<close> is the state of the server and of the sessions. A query
  says whether it returned zero; a result is its rows, None for a null pointer.
\<close>

type_synonym row = "string option list"

record ('c, 'db) Mysql =
  real_query :: "'c \<Rightarrow> string \<Rightarrow> 'db \<Rightarrow> bool \<times> 'db"
  store_result :: "'c \<Rightarrow> 'db \<Rightarrow> row list option \<times> 'db"
  real_escape :: "'c \<Rightarrow> string \<Rightarrow> string"
  insert_id :: "'c \<Rightarrow> 'db \<Rightarrow> u64"
  affected_rows :: "'c \<Rightarrow> 'db \<Rightarrow> u64"

text \<open>
  A call on the pool and the server. None is a call that waits for a connection that
  nobody returns.
\<close>

type_synonym ('c, 'db, 'a) pooled = "'c list \<times> 'db \<Rightarrow> ('a res \<times> 'c list \<times> 'db) option"

definition on_db :: "('db, 'a) eff \<Rightarrow> ('c, 'db, 'a) pooled" where
  "on_db e = (\<lambda>(pool, db). case e db of (r, db') \<Rightarrow> Some (r, pool, db'))"

definition bind_p :: "('c, 'db, 'a) pooled \<Rightarrow> ('a \<Rightarrow> ('c, 'db, 'b) pooled) \<Rightarrow> ('c, 'db, 'b) pooled" where
  "bind_p m f = (\<lambda>s. case m s of
       None \<Rightarrow> None
     | Some (Inl e, s1) \<Rightarrow> Some (Inl e, s1)
     | Some (Inr x, s1) \<Rightarrow> f x s1)"

text \<open>\<open>acquire\<close> takes the front of the queue; \<open>return_\<close>, called by the destructor of the lease
  on every way out, puts the connection at the back.\<close>

definition acquire :: "'c list \<Rightarrow> ('c \<times> 'c list) option" where
  "acquire pool = (case pool of [] \<Rightarrow> None | m # ms \<Rightarrow> Some (m, ms))"

definition return_conn :: "'c \<Rightarrow> 'c list \<Rightarrow> 'c list" where
  "return_conn m pool = pool @ [m]"

definition with_lease :: "('c \<Rightarrow> ('c, 'db, 'a) pooled) \<Rightarrow> ('c, 'db, 'a) pooled" where
  "with_lease f = (\<lambda>(pool, db).
     case acquire pool of
       None \<Rightarrow> None
     | Some (m, pool1) \<Rightarrow>
         (case f m (pool1, db) of
            None \<Rightarrow> None
          | Some (r, pool2, db') \<Rightarrow> Some (r, return_conn m pool2, db')))"

text \<open>The constructor connects \<open>pool_size\<close> times; \<open>conn i\<close> is None when attempt \<open>i\<close> fails.\<close>

fun mk_pool :: "(nat \<Rightarrow> 'c option) \<Rightarrow> nat \<Rightarrow> nat \<Rightarrow> 'c list \<Rightarrow> 'c list res" where
  "mk_pool conn i 0 pool = Inr pool"
| "mk_pool conn i (Suc n) pool =
     (case conn i of None \<Rightarrow> Inl Runtime_error | Some m \<Rightarrow> mk_pool conn (Suc i) n (pool @ [m]))"

definition MysqlPool :: "(nat \<Rightarrow> 'c option) \<Rightarrow> int \<Rightarrow> 'c list res" where
  "MysqlPool conn pool_size = mk_pool conn 0 (nat pool_size) []"

subsection \<open>Queries and rows\<close>

definition run_sql :: "('c, 'db) Mysql \<Rightarrow> 'c \<Rightarrow> string \<Rightarrow> ('db, bool) eff" where
  "run_sql M m sql = (\<lambda>db. case real_query M m sql db of (ok, db') \<Rightarrow> (Inr ok, db'))"

definition store :: "('c, 'db) Mysql \<Rightarrow> 'c \<Rightarrow> ('db, row list option) eff" where
  "store M m = (\<lambda>db. case store_result M m db of (r, db') \<Rightarrow> (Inr r, db'))"

text \<open>A column, read past the end of the row it is undefined; a null column passed on
  unchecked is undefined too.\<close>

definition col :: "row \<Rightarrow> nat \<Rightarrow> string option res" where
  "col r i = (if i < length r then Inr (r ! i) else Inl Undefined_behaviour)"

definition col_or :: "row \<Rightarrow> nat \<Rightarrow> (string \<Rightarrow> 'a res) \<Rightarrow> 'a \<Rightarrow> 'a res" where
  "col_or r i f def = (case col r i of Inl e \<Rightarrow> Inl e | Inr None \<Rightarrow> Inr def | Inr (Some s) \<Rightarrow> f s)"

definition col_must :: "row \<Rightarrow> nat \<Rightarrow> (string \<Rightarrow> 'a res) \<Rightarrow> 'a res" where
  "col_must r i f = (case col r i of Inr (Some s) \<Rightarrow> f s | _ \<Rightarrow> Inl Undefined_behaviour)"

definition bind_r :: "'a res \<Rightarrow> ('a \<Rightarrow> 'b res) \<Rightarrow> 'b res" where
  "bind_r r f = (case r of Inl e \<Rightarrow> Inl e | Inr x \<Rightarrow> f x)"

fun map_res :: "('a \<Rightarrow> 'b res) \<Rightarrow> 'a list \<Rightarrow> 'b list res" where
  "map_res f [] = Inr []"
| "map_res f (x # xs) = bind_r (f x) (\<lambda>y. bind_r (map_res f xs) (\<lambda>ys. Inr (y # ys)))"

text \<open>Escaping writes the escaped text and a terminator into a buffer of \<open>cap\<close> bytes.\<close>

definition escape_into :: "('c, 'db) Mysql \<Rightarrow> nat \<Rightarrow> 'c \<Rightarrow> string \<Rightarrow> string res" where
  "escape_into M cap m s =
     (let e = real_escape M m s in
      if length e + 1 > cap then Inl Undefined_behaviour else Inr e)"

text \<open>The first row of a query, None when the query, the result or the row is missing.\<close>

definition first_row :: "('c, 'db) Mysql \<Rightarrow> 'c \<Rightarrow> string \<Rightarrow> ('db, row option) eff" where
  "first_row M m sql =
     bind_eff (run_sql M m sql) (\<lambda>ok.
       if \<not> ok then ret None
       else bind_eff (store M m) (\<lambda>res.
         case res of None \<Rightarrow> ret None | Some [] \<Rightarrow> ret None | Some (r # rs) \<Rightarrow> ret (Some r)))"

definition all_rows :: "('c, 'db) Mysql \<Rightarrow> 'c \<Rightarrow> string \<Rightarrow> ('db, row list) eff" where
  "all_rows M m sql =
     bind_eff (run_sql M m sql) (\<lambda>ok.
       if \<not> ok then ret []
       else bind_eff (store M m) (\<lambda>res. case res of None \<Rightarrow> ret [] | Some rs \<Rightarrow> ret rs))"

subsection \<open>Accounts\<close>

definition sql_balance :: "int \<Rightarrow> string" where
  "sql_balance uid = snprintf 128 (''SELECT balance FROM account WHERE user_id='' @ std_to_string uid)"

definition mysql_get_balance :: "('c, 'db) Mysql \<Rightarrow> int \<Rightarrow> ('c, 'db, int) pooled" where
  "mysql_get_balance M uid = with_lease (\<lambda>m. on_db (
     bind_eff (first_row M m (sql_balance uid)) (\<lambda>r.
       case r of None \<Rightarrow> ret 0 | Some row \<Rightarrow> lift_res (col_must row 0 atoi))))"

definition sql_account_insert :: "int \<Rightarrow> string" where
  "sql_account_insert uid =
     snprintf 128 (''INSERT IGNORE INTO account (user_id, balance) VALUES ('' @ std_to_string uid @ '', 0)'')"

definition sql_account_update :: "int \<Rightarrow> int \<Rightarrow> string" where
  "sql_account_update uid amount =
     snprintf 256 (''UPDATE account SET balance = balance + '' @ std_to_string amount @ '' WHERE user_id = ''
       @ std_to_string uid)"

definition sql_record_insert :: "int \<Rightarrow> RecordType \<Rightarrow> int \<Rightarrow> string" where
  "sql_record_insert uid ty amount =
     snprintf 256 (''INSERT INTO account_record (user_id, type, amount, balance_after) ''
       @ ''SELECT '' @ std_to_string uid @ '', '' @ std_to_string (record_type ty) @ '', '' @ std_to_string amount
       @ '', balance FROM account WHERE user_id = '' @ std_to_string uid)"

text \<open>\<open>run(buf1) && run(buf2) && run(buf3)\<close>.\<close>

definition add_statements :: "('c, 'db) Mysql \<Rightarrow> 'c \<Rightarrow> int \<Rightarrow> RecordType \<Rightarrow> int \<Rightarrow> ('db, bool) eff" where
  "add_statements M m uid ty amount =
     bind_eff (run_sql M m (sql_account_insert uid)) (\<lambda>ok1. if \<not> ok1 then ret False else
     bind_eff (run_sql M m (sql_account_update uid amount)) (\<lambda>ok2. if \<not> ok2 then ret False else
     run_sql M m (sql_record_insert uid ty amount)))"

definition mysql_add_balance ::
  "('c, 'db) Mysql \<Rightarrow> int \<Rightarrow> RecordType \<Rightarrow> int \<Rightarrow> ('c, 'db, int) pooled" where
  "mysql_add_balance M uid ty amount = with_lease (\<lambda>m.
     bind_p (on_db (run_sql M m ''START TRANSACTION'')) (\<lambda>started.
       if \<not> started then mysql_get_balance M uid
       else bind_p (on_db (add_statements M m uid ty amount)) (\<lambda>ok.
         if \<not> ok then bind_p (on_db (run_sql M m ''ROLLBACK'')) (\<lambda>_. mysql_get_balance M uid)
         else bind_p (on_db (run_sql M m ''COMMIT'')) (\<lambda>committed.
           if \<not> committed then bind_p (on_db (run_sql M m ''ROLLBACK'')) (\<lambda>_. mysql_get_balance M uid)
           else mysql_get_balance M uid))))"

definition row_to_record :: "row \<Rightarrow> AccountRecord res" where
  "row_to_record row =
     bind_r (col_must row 0 atoi) (\<lambda>ty. bind_r (col_must row 1 atoi) (\<lambda>am.
     bind_r (col_must row 2 atoll) (\<lambda>ba. bind_r (col_must row 3 atoll) (\<lambda>ts.
       Inr \<lparr>ar_type = ty, ar_amount = am, ar_balance_after = ba, ar_timestamp = ts\<rparr>))))"

definition sql_records :: "int \<Rightarrow> int \<Rightarrow> string" where
  "sql_records uid limit =
     snprintf 256 (''SELECT type, amount, balance_after, UNIX_TIMESTAMP(tm) ''
       @ ''FROM account_record WHERE user_id='' @ std_to_string uid @ '' ORDER BY tm DESC LIMIT ''
       @ std_to_string limit)"

definition mysql_list_records :: "('c, 'db) Mysql \<Rightarrow> int \<Rightarrow> int \<Rightarrow> ('c, 'db, AccountRecord list) pooled" where
  "mysql_list_records M uid limit = with_lease (\<lambda>m. on_db (
     bind_eff (all_rows M m (sql_records uid limit)) (\<lambda>rows. lift_res (map_res row_to_record rows))))"

subsection \<open>Users\<close>

definition sql_user_by_mobile :: "string \<Rightarrow> string" where
  "sql_user_by_mobile esc =
     snprintf 256 (''SELECT id, mobile FROM userinfo WHERE mobile='' @ [CHR 0x27] @ c_str esc @ [CHR 0x27])"

definition sql_user_insert :: "string \<Rightarrow> string" where
  "sql_user_insert esc =
     snprintf 256 (''INSERT INTO userinfo (mobile) VALUES ('' @ [CHR 0x27] @ c_str esc @ [CHR 0x27] @ '')'')"

definition row_to_user :: "row \<Rightarrow> User res" where
  "row_to_user row =
     bind_r (col_must row 0 atoi) (\<lambda>i. bind_r (col_or row 1 Inr []) (\<lambda>mob. Inr \<lparr>u_id = i, u_mobile = mob\<rparr>))"

definition mysql_find_by_mobile :: "('c, 'db) Mysql \<Rightarrow> string \<Rightarrow> ('c, 'db, User option) pooled" where
  "mysql_find_by_mobile M mobile = with_lease (\<lambda>m. on_db (
     bind_eff (lift_res (escape_into M 64 m mobile)) (\<lambda>esc.
     bind_eff (first_row M m (sql_user_by_mobile esc)) (\<lambda>r.
       case r of
         None \<Rightarrow> ret None
       | Some row \<Rightarrow> lift_res (bind_r (row_to_user row) (\<lambda>u. Inr (Some u)))))))"

definition mysql_find_or_create :: "('c, 'db) Mysql \<Rightarrow> string \<Rightarrow> ('c, 'db, User) pooled" where
  "mysql_find_or_create M mobile =
     bind_p (mysql_find_by_mobile M mobile) (\<lambda>existing.
       case existing of
         Some u \<Rightarrow> on_db (ret u)
       | None \<Rightarrow> with_lease (\<lambda>m.
           bind_p (on_db (lift_res (escape_into M 64 m mobile))) (\<lambda>esc.
           bind_p (on_db (run_sql M m (sql_user_insert esc))) (\<lambda>ok.
             if \<not> ok then
               bind_p (mysql_find_by_mobile M mobile) (\<lambda>u.
                 on_db (ret (case u of None \<Rightarrow> \<lparr>u_id = 0, u_mobile = []\<rparr> | Some v \<Rightarrow> v)))
             else on_db (\<lambda>db. (Inr \<lparr>u_id = narrow_i32 (uint (insert_id M m db)), u_mobile = mobile\<rparr>, db))))))"

subsection \<open>Bikes\<close>

text \<open>A status that is no enumerator is outside the model.\<close>

definition status_of_int :: "int \<Rightarrow> BikeStatus res" where
  "status_of_int i =
     (if i = 0 then Inr Idle else if i = 1 then Inr Rented else if i = 2 then Inr Damaged
      else Inl Undefined_behaviour)"

definition row_to_bike :: "row \<Rightarrow> Bike res" where
  "row_to_bike row =
     bind_r (col_or row 0 atoi 0) (\<lambda>i. bind_r (col_or row 1 Inr []) (\<lambda>no.
     bind_r (col_or row 2 (Inr \<circ> atof) (Num 0)) (\<lambda>lat. bind_r (col_or row 3 (Inr \<circ> atof) (Num 0)) (\<lambda>lng.
     bind_r (bind_r (col_or row 4 atoi 0) status_of_int) (\<lambda>st.
       Inr \<lparr>bk_id = i, bk_no = no, bk_lat = lat, bk_lng = lng, bk_status = st\<rparr>)))))"

definition sql_bike_for_update :: "string \<Rightarrow> string" where
  "sql_bike_for_update esc =
     snprintf 256 (''SELECT id, bike_no, lat, lng, status FROM bike WHERE bike_no='' @ [CHR 0x27] @ c_str esc
       @ [CHR 0x27] @ '' FOR UPDATE'')"

definition mysql_get_for_update :: "('c, 'db) Mysql \<Rightarrow> string \<Rightarrow> ('c, 'db, Bike option) pooled" where
  "mysql_get_for_update M no = with_lease (\<lambda>m. on_db (
     bind_eff (lift_res (escape_into M 64 m no)) (\<lambda>esc.
     bind_eff (first_row M m (sql_bike_for_update esc)) (\<lambda>r.
       case r of
         None \<Rightarrow> ret None
       | Some row \<Rightarrow> lift_res (bind_r (row_to_bike row) (\<lambda>b. Inr (Some b)))))))"

text \<open>An update reports whether it affected a row.\<close>

definition run_update :: "('c, 'db) Mysql \<Rightarrow> 'c \<Rightarrow> string \<Rightarrow> ('db, bool) eff" where
  "run_update M m sql =
     bind_eff (run_sql M m sql) (\<lambda>ok.
       if \<not> ok then ret False else (\<lambda>db. (Inr (affected_rows M m db > 0), db)))"

definition sql_bike_status :: "int \<Rightarrow> BikeStatus \<Rightarrow> string" where
  "sql_bike_status bid st =
     snprintf 128 (''UPDATE bike SET status='' @ std_to_string (bike_status st) @ '' WHERE id='' @ std_to_string bid)"

definition mysql_update_status :: "('c, 'db) Mysql \<Rightarrow> int \<Rightarrow> BikeStatus \<Rightarrow> ('c, 'db, bool) pooled" where
  "mysql_update_status M bid st = with_lease (\<lambda>m. on_db (run_update M m (sql_bike_status bid st)))"

definition sql_bike_location :: "int \<Rightarrow> dbl \<Rightarrow> dbl \<Rightarrow> string" where
  "sql_bike_location bid lat lng =
     snprintf 160 (''UPDATE bike SET lat='' @ fmt7 lat @ '', lng='' @ fmt7 lng @ '' WHERE id='' @ std_to_string bid)"

definition mysql_update_location :: "('c, 'db) Mysql \<Rightarrow> int \<Rightarrow> dbl \<Rightarrow> dbl \<Rightarrow> ('c, 'db, bool) pooled" where
  "mysql_update_location M bid lat lng = with_lease (\<lambda>m. on_db (run_update M m (sql_bike_location bid lat lng)))"

definition sql_bikes_in_bounds :: "dbl \<Rightarrow> dbl \<Rightarrow> dbl \<Rightarrow> dbl \<Rightarrow> string" where
  "sql_bikes_in_bounds la_min la_max lo_min lo_max =
     snprintf 256 (''SELECT id, bike_no, lat, lng, status FROM bike ''
       @ ''WHERE status IN (0,2) AND lat BETWEEN '' @ fmt7 la_min @ '' AND '' @ fmt7 la_max
       @ '' AND lng BETWEEN '' @ fmt7 lo_min @ '' AND '' @ fmt7 lo_max)"

text \<open>Rows with fewer than five fields are skipped; the rows of a result have one width.\<close>

definition mysql_list_in_bounds ::
  "('c, 'db) Mysql \<Rightarrow> dbl \<Rightarrow> dbl \<Rightarrow> dbl \<Rightarrow> dbl \<Rightarrow> ('c, 'db, Bike list) pooled" where
  "mysql_list_in_bounds M la_min la_max lo_min lo_max = with_lease (\<lambda>m. on_db (
     bind_eff (all_rows M m (sql_bikes_in_bounds la_min la_max lo_min lo_max)) (\<lambda>rows.
       lift_res (map_res row_to_bike (filter (\<lambda>row. \<not> length row < 5) rows)))))"

definition sql_bike_insert :: "string \<Rightarrow> Bike \<Rightarrow> string" where
  "sql_bike_insert esc b =
     snprintf 256 (''INSERT INTO bike (bike_no, lat, lng, status) VALUES ('' @ [CHR 0x27] @ c_str esc @ [CHR 0x27]
       @ '', '' @ fmt7 (bk_lat b) @ '', '' @ fmt7 (bk_lng b) @ '', '' @ std_to_string (bike_status (bk_status b)) @ '')'')"

definition mysql_insert_bike :: "('c, 'db) Mysql \<Rightarrow> Bike \<Rightarrow> ('c, 'db, Bike option) pooled" where
  "mysql_insert_bike M b = with_lease (\<lambda>m. on_db (
     bind_eff (lift_res (escape_into M 80 m (bk_no b))) (\<lambda>esc.
     bind_eff (run_sql M m (sql_bike_insert esc b)) (\<lambda>ok.
       if \<not> ok then ret None
       else (\<lambda>db. (Inr (Some (b\<lparr>bk_id := narrow_i32 (uint (insert_id M m db))\<rparr>)), db))))))"

subsection \<open>Rides\<close>

definition row_to_ride :: "row \<Rightarrow> Ride res" where
  "row_to_ride row =
     bind_r (col_or row 0 atoll 0) (\<lambda>i. bind_r (col_or row 1 Inr []) (\<lambda>no.
     bind_r (col_or row 2 atoi 0) (\<lambda>uid. bind_r (col_or row 3 atoi 0) (\<lambda>bid.
     bind_r (col_or row 4 atoll 0) (\<lambda>st. bind_r (col_or row 5 atoll 0) (\<lambda>en.
     bind_r (col_or row 6 (Inr \<circ> atof) (Num 0)) (\<lambda>sla. bind_r (col_or row 7 (Inr \<circ> atof) (Num 0)) (\<lambda>sln.
     bind_r (col_or row 8 (Inr \<circ> atof) (Num 0)) (\<lambda>ela. bind_r (col_or row 9 (Inr \<circ> atof) (Num 0)) (\<lambda>eln.
     bind_r (col_or row 10 atoi 0) (\<lambda>dur. bind_r (col_or row 11 atoi 0) (\<lambda>dis.
     bind_r (col_or row 12 atoi 0) (\<lambda>am. bind_r (col_or row 13 atoi 0) (\<lambda>stat.
       Inr \<lparr>rd_id = i, rd_ride_no = no, rd_user_id = uid, rd_bike_id = bid, rd_start_ts = st, rd_end_ts = en,
           rd_start_lat = sla, rd_start_lng = sln, rd_end_lat = ela, rd_end_lng = eln,
           rd_duration_sec = dur, rd_distance_m = dis, rd_amount_cent = am, rd_status = stat\<rparr>))))))))))))))"

definition sql_ride_insert :: "string \<Rightarrow> CreateRideInput \<Rightarrow> string" where
  "sql_ride_insert esc i =
     snprintf 512 (''INSERT INTO ride(ride_no, user_id, bike_id, start_tm, end_tm, ''
       @ ''start_lat, start_lng, end_lat, end_lng, ''
       @ ''duration_sec, distance_m, amount_cent, status) ''
       @ ''VALUES('' @ [CHR 0x27] @ c_str esc @ [CHR 0x27] @ '', '' @ std_to_string (in_user_id i) @ '', ''
       @ std_to_string (in_bike_id i) @ '', FROM_UNIXTIME('' @ std_to_string (in_start_ts i)
       @ ''), FROM_UNIXTIME('' @ std_to_string (in_end_ts i) @ ''), ''
       @ fmt7 (in_start_lat i) @ '', '' @ fmt7 (in_start_lng i) @ '', '' @ fmt7 (in_end_lat i) @ '', ''
       @ fmt7 (in_end_lng i) @ '', '' @ std_to_string (in_duration_sec i) @ '', ''
       @ std_to_string (in_distance_m i) @ '', '' @ std_to_string (in_amount_cent i) @ '', 0)'')"

definition sql_point_insert :: "int \<Rightarrow> RidePoint \<Rightarrow> string" where
  "sql_point_insert rid p =
     snprintf 256 (''INSERT INTO ride_position(ride_id, seq, lat, lng, elapsed_sec) ''
       @ ''VALUES('' @ std_to_string rid @ '', '' @ std_to_string (pt_seq p) @ '', '' @ fmt7 (pt_lat p) @ '', ''
       @ fmt7 (pt_lng p) @ '', '' @ std_to_string (pt_elapsed_sec p) @ '')'')"

fun insert_points :: "('c, 'db) Mysql \<Rightarrow> 'c \<Rightarrow> int \<Rightarrow> RidePoint list \<Rightarrow> ('db, bool) eff" where
  "insert_points M m rid [] = ret True"
| "insert_points M m rid (p # ps) =
     bind_eff (run_sql M m (sql_point_insert rid p)) (\<lambda>ok.
       if \<not> ok then bind_eff (run_sql M m ''ROLLBACK'') (\<lambda>_. ret False)
       else insert_points M m rid ps)"

definition create_on :: "('c, 'db) Mysql \<Rightarrow> 'c \<Rightarrow> CreateRideInput \<Rightarrow> ('db, Ride) eff" where
  "create_on M m i =
     bind_eff (lift_res (escape_into M 64 m (in_ride_no i))) (\<lambda>esc.
     bind_eff (run_sql M m ''START TRANSACTION'') (\<lambda>started.
       if \<not> started then ret ride0
       else bind_eff (run_sql M m (sql_ride_insert esc i)) (\<lambda>ok.
         if \<not> ok then bind_eff (run_sql M m ''ROLLBACK'') (\<lambda>_. ret ride0)
         else (\<lambda>db. let rid = sint (insert_id M m db) in
           bind_eff (insert_points M m rid (in_points i)) (\<lambda>all_in.
             if \<not> all_in then ret ride0
             else bind_eff (run_sql M m ''COMMIT'') (\<lambda>committed.
               if \<not> committed then bind_eff (run_sql M m ''ROLLBACK'') (\<lambda>_. ret ride0)
               else ret (ride_of_input (narrow_i32 rid) i))) db))))"

definition mysql_create_with_points :: "('c, 'db) Mysql \<Rightarrow> CreateRideInput \<Rightarrow> ('c, 'db, Ride) pooled" where
  "mysql_create_with_points M i = with_lease (\<lambda>m. on_db (create_on M m i))"

definition ride_columns :: string where
  "ride_columns = ''SELECT id, ride_no, user_id, bike_id, ''
     @ ''UNIX_TIMESTAMP(start_tm) AS start_ts, UNIX_TIMESTAMP(end_tm) AS end_ts, ''
     @ ''start_lat, start_lng, end_lat, end_lng, ''
     @ ''duration_sec, distance_m, amount_cent, status ''"

definition sql_ride_by_no :: "string \<Rightarrow> string" where
  "sql_ride_by_no esc =
     snprintf 256 (ride_columns @ ''FROM ride WHERE ride_no='' @ [CHR 0x27] @ c_str esc @ [CHR 0x27])"

definition sql_rides_by_user :: "int \<Rightarrow> int \<Rightarrow> string" where
  "sql_rides_by_user uid limit =
     snprintf 256 (ride_columns @ ''FROM ride WHERE user_id='' @ std_to_string uid
       @ '' ORDER BY start_tm DESC LIMIT '' @ std_to_string limit)"

definition mysql_find_by_no :: "('c, 'db) Mysql \<Rightarrow> string \<Rightarrow> ('c, 'db, Ride option) pooled" where
  "mysql_find_by_no M no = with_lease (\<lambda>m. on_db (
     bind_eff (lift_res (escape_into M 64 m no)) (\<lambda>esc.
     bind_eff (first_row M m (sql_ride_by_no esc)) (\<lambda>r.
       case r of
         None \<Rightarrow> ret None
       | Some row \<Rightarrow> lift_res (bind_r (row_to_ride row) (\<lambda>x. Inr (Some x)))))))"

definition row_to_point :: "row \<Rightarrow> RidePoint res" where
  "row_to_point row =
     bind_r (col_or row 0 atoi 0) (\<lambda>s. bind_r (col_or row 1 (Inr \<circ> atof) (Num 0)) (\<lambda>la.
     bind_r (col_or row 2 (Inr \<circ> atof) (Num 0)) (\<lambda>ln. bind_r (col_or row 3 atoi 0) (\<lambda>el.
       Inr \<lparr>pt_seq = s, pt_lat = la, pt_lng = ln, pt_elapsed_sec = el\<rparr>))))"

definition mysql_list_points :: "('c, 'db) Mysql \<Rightarrow> int \<Rightarrow> ('c, 'db, RidePoint list) pooled" where
  "mysql_list_points M rid = with_lease (\<lambda>m. on_db (
     bind_eff (all_rows M m (snprintf 160 (''SELECT seq, lat, lng, elapsed_sec FROM ride_position ''
         @ ''WHERE ride_id='' @ std_to_string rid @ '' ORDER BY seq''))) (\<lambda>rows.
       lift_res (map_res row_to_point rows))))"

definition mysql_list_by_user :: "('c, 'db) Mysql \<Rightarrow> int \<Rightarrow> int \<Rightarrow> ('c, 'db, Ride list) pooled" where
  "mysql_list_by_user M uid limit = with_lease (\<lambda>m. on_db (
     bind_eff (all_rows M m (sql_rides_by_user uid limit)) (\<lambda>rows.
       lift_res (map_res row_to_ride rows))))"

end
