(* ===== verification/MysqlProps.thy ===== *)
theory MysqlProps
  imports Mysql "HOL-Library.Multiset"
begin

text \<open>
  What the MySQL repositories guarantee: which statements fit their buffers, that a change of
  a balance and the storing of a ride are all or nothing, and when the pool lets a call
  return. What is assumed of the server is stated by \<open>account_server\<close> and \<open>txn_server\<close>.
\<close>

subsection \<open>Statements and buffers\<close>

lemma snprintf_fits: "length s < cap \<Longrightarrow> snprintf cap s = s"
  by (simp add: snprintf_def)

text \<open>The statements of the accounts and of the bike status never fill their buffers.\<close>

lemma account_sql_fits:
  assumes "in_i32 uid" "in_i32 amount"
  shows "sql_balance uid = ''SELECT balance FROM account WHERE user_id='' @ std_to_string uid"
    "sql_account_insert uid = ''INSERT IGNORE INTO account (user_id, balance) VALUES ('' @ std_to_string uid @ '', 0)''"
    "sql_account_update uid amount = ''UPDATE account SET balance = balance + '' @ std_to_string amount
       @ '' WHERE user_id = '' @ std_to_string uid"
    "sql_bike_status uid st = ''UPDATE bike SET status='' @ std_to_string (bike_status st) @ '' WHERE id='' @ std_to_string uid"
proof -
  have u: "length (std_to_string uid) \<le> 11" and a: "length (std_to_string amount) \<le> 11"
    using assms by (simp_all add: length_std_to_string)
  have s: "length (std_to_string (bike_status st)) \<le> 11"
    by (cases st) (simp_all add: length_std_to_string i32_defs)
  show "sql_balance uid = ''SELECT balance FROM account WHERE user_id='' @ std_to_string uid"
    unfolding sql_balance_def by (rule snprintf_fits) (use u in simp)
  show "sql_account_insert uid = ''INSERT IGNORE INTO account (user_id, balance) VALUES ('' @ std_to_string uid @ '', 0)''"
    unfolding sql_account_insert_def by (rule snprintf_fits) (use u in simp)
  show "sql_account_update uid amount = ''UPDATE account SET balance = balance + '' @ std_to_string amount
       @ '' WHERE user_id = '' @ std_to_string uid"
    unfolding sql_account_update_def by (rule snprintf_fits) (use u a in simp)
  show "sql_bike_status uid st = ''UPDATE bike SET status='' @ std_to_string (bike_status st) @ '' WHERE id='' @ std_to_string uid"
    unfolding sql_bike_status_def by (rule snprintf_fits) (use u s in simp)
qed

lemma length_ride_columns: "length ride_columns = 196"
  by (simp add: ride_columns_def)

text \<open>The list of rides leaves five characters for the user and the limit.\<close>

lemma sql_rides_take:
  "sql_rides_by_user uid limit = ride_columns @ ''FROM ride WHERE user_id='' @
     take 35 (std_to_string uid @ '' ORDER BY start_tm DESC LIMIT '' @ std_to_string limit)"
  by (simp add: sql_rides_by_user_def snprintf_def take_Cons' length_ride_columns)

lemma digits_split: "10 \<le> n \<Longrightarrow> dec_digits n = dec_digits (n div 10) @ [digit_char (n mod 10)]"
  by (subst dec_digits.simps) simp

lemma digits_one: "n < 10 \<Longrightarrow> dec_digits n = [digit_char n]"
  by (subst dec_digits.simps) simp

lemma length_digits:
  "10 ^ k \<le> n \<Longrightarrow> n < 10 ^ Suc k \<Longrightarrow> length (dec_digits n) = Suc k"
proof (induction k arbitrary: n)
  case 0
  then show ?case by (simp add: digits_one)
next
  case (Suc k)
  then have "10 ^ k \<le> n div 10" "n div 10 < 10 ^ Suc k" "10 \<le> n"
    by (auto simp: less_mult_imp_div_less mult.commute le_div_geq div_le_mono [of "10 * 10 ^ k" n 10, simplified]
        intro: order_trans [of 10 "10 * 10 ^ k"])
  then show ?case using Suc.IH [of "n div 10"] by (simp add: digits_split)
qed

text \<open>
  The query for the rides of a user is cut off. The buffer has room for five
  digits of user id and limit together: from user 1000 on a two-digit limit loses its second
  digit, and from user 10000 on the query ends before the limit, whatever it was.
\<close>

theorem ride_list_truncated:
  "(1000 \<le> uid \<and> uid < 10000 \<and> 10 \<le> limit \<and> limit < 100 \<longrightarrow>
      sql_rides_by_user uid limit = sql_rides_by_user uid (limit div 10)) \<and>
   (10000 \<le> uid \<and> uid < 100000 \<longrightarrow>
      sql_rides_by_user uid limit = ride_columns @ ''FROM ride WHERE user_id='' @ std_to_string uid
        @ '' ORDER BY start_tm DESC LIMIT '')"
proof (intro conjI impI)
  assume a: "1000 \<le> uid \<and> uid < 10000 \<and> 10 \<le> limit \<and> limit < 100"
  have "length (std_to_string uid) = 4"
    using a length_digits [of 3 "nat uid"] by (simp add: std_to_string_def nat_le_iff le_nat_iff nat_less_iff)
  moreover have "std_to_string limit = std_to_string (limit div 10) @ [digit_char (nat limit mod 10)]"
    using a digits_split [of "nat limit"]
    by (simp add: std_to_string_def le_nat_iff nat_div_distrib pos_imp_zdiv_neg_iff)
  moreover have "length (std_to_string (limit div 10)) = 1"
    using a less_mult_imp_div_less [of "nat limit" 10 10]
    by (simp add: std_to_string_def digits_one nat_less_iff nat_div_distrib pos_imp_zdiv_neg_iff)
  ultimately show "sql_rides_by_user uid limit = sql_rides_by_user uid (limit div 10)"
    by (simp add: sql_rides_take)
next
  assume a: "10000 \<le> uid \<and> uid < 100000"
  have "length (std_to_string uid) = 5"
    using a length_digits [of 4 "nat uid"] by (simp add: std_to_string_def le_nat_iff nat_less_iff)
  then show "sql_rides_by_user uid limit = ride_columns @ ''FROM ride WHERE user_id='' @ std_to_string uid
        @ '' ORDER BY start_tm DESC LIMIT ''"
    by (simp add: sql_rides_take)
qed

theorem ride_list_truncated_witness:
  "sql_rides_by_user 1234 20 = sql_rides_by_user 1234 2 \<and> sql_rides_by_user 12345 20 = sql_rides_by_user 12345 100"
  using ride_list_truncated [of 1234 20] ride_list_truncated [of 12345 20] ride_list_truncated [of 12345 100] by simp

subsection \<open>The pool\<close>

lemma with_lease_Nil: "with_lease f ([], db) = None"
  by (simp add: with_lease_def acquire_def)

lemma with_lease_Cons:
  "with_lease f (m # ms, db) =
     (case f m (ms, db) of None \<Rightarrow> None | Some (r, pool, db') \<Rightarrow> Some (r, pool @ [m], db'))"
  by (simp add: with_lease_def acquire_def return_conn_def split: option.split)

lemma on_db_apply: "on_db e (pool, db) = (case e db of (r, db') \<Rightarrow> Some (r, pool, db'))"
  by (simp add: on_db_def)

text \<open>A call that returns leaves the pool with the connections it found there.\<close>

definition keeps_pool :: "('c, 'db, 'a) pooled \<Rightarrow> bool" where
  "keeps_pool f \<longleftrightarrow> (\<forall>pool db r pool' db'. f (pool, db) = Some (r, pool', db') \<longrightarrow> mset pool' = mset pool)"

lemma keeps_poolD: "keeps_pool f \<Longrightarrow> f (pool, db) = Some (r, pool', db') \<Longrightarrow> mset pool' = mset pool"
  unfolding keeps_pool_def by blast

lemma keeps_pool_on_db [intro]: "keeps_pool (on_db e)"
  by (auto simp: keeps_pool_def on_db_def split: prod.splits)

lemma keeps_pool_bind [intro]:
  assumes "keeps_pool f" "\<And>x. keeps_pool (g x)"
  shows "keeps_pool (bind_p f g)"
  unfolding keeps_pool_def
proof (intro allI impI)
  fix pool db r pool' db'
  assume b: "bind_p f g (pool, db) = Some (r, pool', db')"
  then obtain x pool1 db1 where f: "f (pool, db) = Some (x, pool1, db1)"
    by (auto simp: bind_p_def split: option.splits)
  then have "mset pool1 = mset pool" by (rule keeps_poolD [OF assms(1)])
  moreover have "mset pool' = mset pool1"
    using b f by (cases x) (auto simp: bind_p_def dest: keeps_poolD [OF assms(2)])
  ultimately show "mset pool' = mset pool" by simp
qed

lemma keeps_pool_if [intro]: "keeps_pool f \<Longrightarrow> keeps_pool g \<Longrightarrow> keeps_pool (if c then f else g)"
  by simp

lemma keeps_pool_option [intro]:
  "keeps_pool f \<Longrightarrow> (\<And>x. keeps_pool (g x)) \<Longrightarrow> keeps_pool (case opt of None \<Rightarrow> f | Some x \<Rightarrow> g x)"
  by (simp split: option.split)

lemma keeps_pool_lease [intro]:
  assumes "\<And>m. keeps_pool (f m)"
  shows "keeps_pool (with_lease f)"
  unfolding keeps_pool_def
proof (intro allI impI)
  fix pool db r pool' db'
  assume "with_lease f (pool, db) = Some (r, pool', db')"
  then show "mset pool' = mset pool"
    by (cases pool) (auto simp: with_lease_Nil with_lease_Cons split: option.splits dest: keeps_poolD [OF assms])
qed

lemmas keeps_pool_intros = keeps_pool_lease keeps_pool_bind keeps_pool_on_db keeps_pool_if keeps_pool_option

lemma mysql_keeps_pool:
  "keeps_pool (mysql_get_balance M uid)" "keeps_pool (mysql_add_balance M uid ty am)"
  "keeps_pool (mysql_list_records M uid l)" "keeps_pool (mysql_find_by_mobile M mob)"
  "keeps_pool (mysql_find_or_create M mob)" "keeps_pool (mysql_get_for_update M no)"
  "keeps_pool (mysql_update_status M bid st)" "keeps_pool (mysql_update_location M bid la lo)"
  "keeps_pool (mysql_list_in_bounds M a b c d)" "keeps_pool (mysql_insert_bike M bk)"
  "keeps_pool (mysql_create_with_points M i)" "keeps_pool (mysql_find_by_no M no)"
  "keeps_pool (mysql_list_points M rid)" "keeps_pool (mysql_list_by_user M uid l)"
  unfolding mysql_add_balance_def mysql_find_or_create_def mysql_get_balance_def mysql_list_records_def
    mysql_find_by_mobile_def mysql_get_for_update_def mysql_update_status_def mysql_update_location_def
    mysql_list_in_bounds_def mysql_insert_bike_def mysql_create_with_points_def mysql_find_by_no_def
    mysql_list_points_def mysql_list_by_user_def
  by (rule keeps_pool_intros)+

lemma on_db_returns: "on_db e s \<noteq> None"
  by (simp add: on_db_def split: prod.splits)

lemma get_balance_returns: "mysql_get_balance M uid (pool, db) = None \<longleftrightarrow> pool = []"
  by (cases pool)
    (auto simp: mysql_get_balance_def with_lease_Nil with_lease_Cons on_db_def split: prod.splits)

text \<open>Every statement of the transaction comes back; what can wait is the last reading of
  the balance.\<close>

lemma bind_on_db: "bind_p (on_db e) f (pool, db) =
    (case e db of (Inl x, db') \<Rightarrow> Some (Inl x, pool, db') | (Inr x, db') \<Rightarrow> f x (pool, db'))"
  by (simp add: bind_p_def on_db_def split: prod.splits sum.splits)

lemma run_sql_Inr: "run_sql M m sql db = (Inr (fst (real_query M m sql db)), snd (real_query M m sql db))"
  by (simp add: run_sql_def split: prod.splits)

lemma bind_run_sql:
  "bind_p (on_db (run_sql M m sql)) f (pool, db) = f (fst (real_query M m sql db)) (pool, snd (real_query M m sql db))"
  by (simp add: bind_on_db run_sql_Inr)

lemma with_lease_None: "with_lease f (m # ms, db) = None \<longleftrightarrow> f m (ms, db) = None"
  by (auto simp: with_lease_Cons split: option.split)

lemma add_statements_Inr: "\<exists>ok db'. add_statements M m uid ty am db = (Inr ok, db')"
  by (auto simp: add_statements_def bind_eff_def run_sql_Inr)

text \<open>The state in which \<open>add_balance\<close> reads the new balance.\<close>

definition after_txn :: "('c, 'db) Mysql \<Rightarrow> 'c \<Rightarrow> int \<Rightarrow> RecordType \<Rightarrow> int \<Rightarrow> 'db \<Rightarrow> 'db" where
  "after_txn M m uid ty amount db =
     (let st = real_query M m ''START TRANSACTION'' db;
          ad = add_statements M m uid ty amount (snd st);
          cm = real_query M m ''COMMIT'' (snd ad) in
      if \<not> fst st then snd st
      else if fst ad \<noteq> Inr True then snd (real_query M m ''ROLLBACK'' (snd ad))
      else if fst cm then snd cm
      else snd (real_query M m ''ROLLBACK'' (snd cm)))"

lemma add_balance_eq:
  "mysql_add_balance M uid ty amount (m # ms, db) =
     (case mysql_get_balance M uid (ms, after_txn M m uid ty amount db) of
        None \<Rightarrow> None | Some (r, ms', db') \<Rightarrow> Some (r, ms' @ [m], db'))"
proof -
  let ?st = "real_query M m ''START TRANSACTION'' db"
  obtain ok d where a: "add_statements M m uid ty amount (snd ?st) = (Inr ok, d)"
    using add_statements_Inr [of M m uid ty amount "snd ?st"] by blast
  have b: "bind_p (on_db (add_statements M m uid ty amount)) F (ms, snd ?st) = F ok (ms, d)"
    for F :: "bool \<Rightarrow> ('a, 'b, int) pooled" by (simp add: bind_on_db a)
  show ?thesis
    unfolding mysql_add_balance_def with_lease_Cons
    by (cases "fst ?st"; cases ok; cases "fst (real_query M m ''COMMIT'' d)")
      (simp_all add: bind_run_sql b after_txn_def a)
qed


subsection \<open>Transactions\<close>

text \<open>
  What the repositories rely on of the server. \<open>com\<close> is the committed data, \<open>wrk m\<close> the
  working copy of the transaction open on connection \<open>m\<close>, and \<open>app\<close> the meaning of an
  INSERT or UPDATE. Statements of a transaction work on its copy; a successful COMMIT makes
  the copy the committed data, everything else leaves the committed data as it was.
\<close>

definition dml :: "string \<Rightarrow> bool" where
  "dml sql \<longleftrightarrow> take 7 sql = ''INSERT '' \<or> take 7 sql = ''UPDATE ''"

definition txn_server ::
  "('c, 'db) Mysql \<Rightarrow> ('db \<Rightarrow> 'v) \<Rightarrow> ('c \<Rightarrow> 'db \<Rightarrow> 'v option) \<Rightarrow> (string \<Rightarrow> 'v \<Rightarrow> 'v) \<Rightarrow> bool" where
  "txn_server M com wrk app \<longleftrightarrow>
     (\<forall>m db. com (snd (real_query M m ''START TRANSACTION'' db)) = com db \<and>
        (fst (real_query M m ''START TRANSACTION'' db) \<longrightarrow>
           wrk m (snd (real_query M m ''START TRANSACTION'' db)) = Some (com db))) \<and>
     (\<forall>m sql db w. dml sql \<and> wrk m db = Some w \<longrightarrow>
        com (snd (real_query M m sql db)) = com db \<and>
        (fst (real_query M m sql db) \<longrightarrow> wrk m (snd (real_query M m sql db)) = Some (app sql w))) \<and>
     (\<forall>m db. com (snd (real_query M m ''ROLLBACK'' db)) = com db) \<and>
     (\<forall>m db w. wrk m db = Some w \<longrightarrow> com (snd (real_query M m ''COMMIT'' db)) =
        (if fst (real_query M m ''COMMIT'' db) then w else com db)) \<and>
     (\<forall>m sql db. take 7 sql = ''SELECT '' \<longrightarrow> com (snd (real_query M m sql db)) = com db) \<and>
     (\<forall>m db. com (snd (store_result M m db)) = com db)"

lemma txn_serverD:
  assumes "txn_server M com wrk app"
  shows "com (snd (real_query M m ''START TRANSACTION'' db)) = com db"
    "fst (real_query M m ''START TRANSACTION'' db) \<Longrightarrow> wrk m (snd (real_query M m ''START TRANSACTION'' db)) = Some (com db)"
    "dml sql \<Longrightarrow> wrk m db = Some w \<Longrightarrow> com (snd (real_query M m sql db)) = com db"
    "dml sql \<Longrightarrow> wrk m db = Some w \<Longrightarrow> fst (real_query M m sql db) \<Longrightarrow> wrk m (snd (real_query M m sql db)) = Some (app sql w)"
    "com (snd (real_query M m ''ROLLBACK'' db)) = com db"
    "wrk m db = Some w \<Longrightarrow> com (snd (real_query M m ''COMMIT'' db)) = (if fst (real_query M m ''COMMIT'' db) then w else com db)"
    "take 7 sql = ''SELECT '' \<Longrightarrow> com (snd (real_query M m sql db)) = com db"
    "com (snd (store_result M m db)) = com db"
  using assms unfolding txn_server_def by blast+

lemma store_Inr: "store M m db = (Inr (fst (store_result M m db)), snd (store_result M m db))"
  by (simp add: store_def split: prod.splits)

lemma dml_texts [simp]:
  "dml (sql_account_insert uid)" "dml (sql_account_update uid am)" "dml (sql_record_insert uid ty am)"
  "dml (sql_ride_insert e i)" "dml (sql_point_insert rid p)"
  by (simp_all add: dml_def sql_account_insert_def sql_account_update_def sql_record_insert_def
      sql_ride_insert_def sql_point_insert_def snprintf_def)

lemma select_texts [simp]: "take 7 (sql_balance uid) = ''SELECT ''"
  by (simp add: sql_balance_def snprintf_def)

text \<open>Reading a balance changes nothing that is committed.\<close>

lemma get_balance_com:
  assumes "txn_server M com wrk app" "mysql_get_balance M uid (pool, db) = Some (r, pool', db')"
  shows "com db' = com db"
  using assms(2) txn_serverD(7,8) [OF assms(1)]
  by (cases pool)
    (auto simp: mysql_get_balance_def with_lease_Nil with_lease_Cons on_db_def first_row_def bind_eff_def
      run_sql_Inr store_Inr split: if_splits option.splits list.splits)

definition add_texts :: "int \<Rightarrow> RecordType \<Rightarrow> int \<Rightarrow> string list" where
  "add_texts uid ty amount = [sql_account_insert uid, sql_account_update uid amount, sql_record_insert uid ty amount]"

lemma add_statements_txn:
  assumes "txn_server M com wrk app" "wrk m db = Some w" "add_statements M m uid ty amount db = (Inr ok, db')"
  shows "com db' = com db" "ok \<Longrightarrow> wrk m db' = Some (fold app (add_texts uid ty amount) w)"
proof -
  note t = txn_serverD(3,4) [OF assms(1), of _ m]
  let ?q1 = "real_query M m (sql_account_insert uid) db"
  let ?q2 = "real_query M m (sql_account_update uid amount) (snd ?q1)"
  let ?q3 = "real_query M m (sql_record_insert uid ty amount) (snd ?q2)"
  have e: "(Inr ok, db') = (if \<not> fst ?q1 then (Inr False, snd ?q1) else if \<not> fst ?q2 then (Inr False, snd ?q2)
      else (Inr (fst ?q3), snd ?q3))"
    using assms(3) by (simp add: add_statements_def bind_eff_def run_sql_Inr split: if_splits)
  have 1: "com (snd ?q1) = com db" "fst ?q1 \<Longrightarrow> wrk m (snd ?q1) = Some (app (sql_account_insert uid) w)"
    using t [OF dml_texts(1) assms(2)] by simp_all
  have 2: "fst ?q1 \<Longrightarrow> com (snd ?q2) = com (snd ?q1)"
    "fst ?q1 \<Longrightarrow> fst ?q2 \<Longrightarrow> wrk m (snd ?q2) = Some (app (sql_account_update uid amount) (app (sql_account_insert uid) w))"
    using t [OF dml_texts(2) 1(2)] by simp_all
  have 3: "fst ?q1 \<Longrightarrow> fst ?q2 \<Longrightarrow> com (snd ?q3) = com (snd ?q2)"
    "fst ?q1 \<Longrightarrow> fst ?q2 \<Longrightarrow> fst ?q3 \<Longrightarrow> wrk m (snd ?q3) = Some (fold app (add_texts uid ty amount) w)"
    using t [OF dml_texts(3) 2(2)] by (simp_all add: add_texts_def)
  show "com db' = com db" using e 1 2 3 by (auto split: if_splits)
  show "ok \<Longrightarrow> wrk m db' = Some (fold app (add_texts uid ty amount) w)" using e 3 by (auto split: if_splits)
qed

lemma add_balance_run:
  assumes srv: "txn_server M com wrk app"
    and run: "mysql_add_balance M uid ty amount (pool, db) = Some (r, pool', db')"
  obtains m ms d where "pool = m # ms" "com d = com db \<or> com d = fold app (add_texts uid ty amount) (com db)"
    "\<exists>ms'. mysql_get_balance M uid (ms, d) = Some (r, ms', db')"
    "(\<And>sql d. fst (real_query M m sql d)) \<Longrightarrow> com d = fold app (add_texts uid ty amount) (com db)"
proof -
  obtain m ms where p: "pool = m # ms"
    using run by (cases pool) (simp_all add: mysql_add_balance_def with_lease_Nil)
  let ?st = "real_query M m ''START TRANSACTION'' db" and ?d = "after_txn M m uid ty amount db"
  obtain ok d1 where a: "add_statements M m uid ty amount (snd ?st) = (Inr ok, d1)"
    using add_statements_Inr [of M m uid ty amount "snd ?st"] by blast
  have g: "\<exists>ms'. mysql_get_balance M uid (ms, ?d) = Some (r, ms', db')"
    using run by (auto simp: p add_balance_eq split: option.splits)
  note D = txn_serverD [OF srv]
  have w: "fst ?st \<Longrightarrow> wrk m (snd ?st) = Some (com db)" "com (snd ?st) = com db" using D(1,2) by simp_all
  note s = add_statements_txn [OF srv w(1) a]
  have c: "fst ?st \<Longrightarrow> ok \<Longrightarrow> com (snd (real_query M m ''COMMIT'' d1)) =
      (if fst (real_query M m ''COMMIT'' d1) then fold app (add_texts uid ty amount) (com db) else com d1)"
    using D(6) [of m d1] s(2) by simp
  have "com ?d = com db \<or> com ?d = fold app (add_texts uid ty amount) (com db)"
    using w(2) s(1) c D(5) a by (auto simp: after_txn_def Let_def)
  moreover have "com ?d = fold app (add_texts uid ty amount) (com db)" if up: "\<And>sql d. fst (real_query M m sql d)"
  proof -
    have "ok" using a up by (simp add: add_statements_def bind_eff_def run_sql_Inr)
    then show ?thesis using c up a by (simp add: after_txn_def Let_def)
  qed
  ultimately show thesis using that [OF p] g by metis
qed


text \<open>A server that is up: statements succeed and the balance of the user is \<open>bal_of\<close>
  of the committed data.\<close>

definition server_up :: "('c, 'db) Mysql \<Rightarrow> ('db \<Rightarrow> 'v) \<Rightarrow> ('v \<Rightarrow> int) \<Rightarrow> int \<Rightarrow> bool" where
  "server_up M com bal_of uid \<longleftrightarrow> (\<forall>m sql db. fst (real_query M m sql db)) \<and>
     (\<forall>m db. fst (store_result M m (snd (real_query M m (sql_balance uid) db))) =
        Some [[Some (std_to_string (bal_of (com db)))]])"

lemma get_balance_up:
  assumes "server_up M com bal_of uid" "in_i32 (bal_of (com db))"
    and "mysql_get_balance M uid (pool, db) = Some (r, pool', db')"
  shows "r = Inr (bal_of (com db))"
  using assms
  by (cases pool)
    (auto simp: server_up_def mysql_get_balance_def with_lease_Nil with_lease_Cons on_db_def first_row_def bind_eff_def
      run_sql_Inr store_Inr col_must_def col_def atoi_print)

text \<open>
  Property C12: the MySQL accounts have no guard against overdrawing. A charge that exceeds the
  balance is committed, and the negative balance it returns is what \<open>end_ride\<close> takes for a
  refusal, so the rider is charged and told that the balance was too low. The in-memory
  accounts refuse the same charge and change nothing.
\<close>

theorem mysql_charges_overdraft:
  assumes "txn_server M com wrk app" "server_up M com bal_of uid"
    and "bal_of (fold app (add_texts uid Consume (- fee)) (com db)) = bal_of (com db) - fee"
    and "in_i32 (bal_of (com db) - fee)" "bal_of (com db) < fee" "0 \<le> bal_of (com db)"
    and "mysql_add_balance M uid Consume (- fee) (pool, db) = Some (r, pool', db')"
    and "mem_get_balance uid acc = bal_of (com db)"
  shows "r = Inr (bal_of (com db) - fee) \<and> bal_of (com db) - fee < 0 \<and>
    bal_of (com db') = bal_of (com db) - fee \<and> mem_add_balance now uid Consume (- fee) acc = (Inr (- 1), acc)"
proof -
  have up: "fst (real_query M m sql d)" for m sql d using assms(2) by (simp add: server_up_def)
  obtain m ms d ms' where d: "com d = fold app (add_texts uid Consume (- fee)) (com db)"
    "mysql_get_balance M uid (ms, d) = Some (r, ms', db')"
    by (rule add_balance_run [OF assms(1,7)]) (use up in blast)
  have "r = Inr (bal_of (com d))" by (rule get_balance_up [OF assms(2) _ d(2)]) (use d(1) assms(3,4) in simp)
  moreover have "com db' = com d" by (rule get_balance_com [OF assms(1) d(2)])
  ultimately show ?thesis
    using d(1) assms(3-6,8) by (simp add: mem_add_balance_def mem_get_balance_def Let_def checked_i32_def)
qed

subsection \<open>Rides\<close>

lemma insert_points_txn:
  assumes srv: "txn_server M com wrk app" and w: "wrk m db = Some w"
    and run: "insert_points M m rid ps db = (res, db')"
  shows "com db' = com db \<and> (\<exists>ok. res = Inr ok \<and> (ok \<longrightarrow> wrk m db' = Some (fold app (map (sql_point_insert rid) ps) w)))"
  using w run
proof (induction ps arbitrary: db w)
  case Nil
  then show ?case by auto
next
  case (Cons p ps)
  let ?q = "real_query M m (sql_point_insert rid p) db"
  note D = txn_serverD [OF srv]
  have c: "com (snd ?q) = com db" by (rule D(3) [OF _ Cons.prems(1)]) simp
  show ?case
  proof (cases "fst ?q")
    case True
    have "wrk m (snd ?q) = Some (app (sql_point_insert rid p) w)" by (rule D(4) [OF _ Cons.prems(1) True]) simp
    from Cons.IH [OF this] Cons.prems(2) True c show ?thesis by (simp add: bind_eff_def run_sql_Inr)
  next
    case False
    then show ?thesis using Cons.prems(2) c D(5) by (auto simp: bind_eff_def run_sql_Inr)
  qed
qed

definition ride_texts :: "string \<Rightarrow> int \<Rightarrow> CreateRideInput \<Rightarrow> string list" where
  "ride_texts esc rid i = sql_ride_insert esc i # map (sql_point_insert rid) (in_points i)"

lemma create_on_txn:
  assumes srv: "txn_server M com wrk app" and run: "create_on M m i db = (res, db')"
  shows "com db' = com db \<or> (\<exists>esc rid. com db' = fold app (ride_texts esc rid i) (com db) \<and>
    res = Inr (ride_of_input (narrow_i32 rid) i))"
proof -
  note D = txn_serverD [OF srv]
  let ?esc = "real_escape M m (in_ride_no i)" and ?s = "real_query M m ''START TRANSACTION'' db"
  let ?q = "real_query M m (sql_ride_insert ?esc i) (snd ?s)"
  let ?rid = "sint (insert_id M m (snd ?q))"
  obtain pr pd where pts: "insert_points M m ?rid (in_points i) (snd ?q) = (pr, pd)" by fastforce
  consider (ok) "length ?esc + 1 \<le> 64" "fst ?s" "fst ?q" | (bad) "\<not> (length ?esc + 1 \<le> 64 \<and> fst ?s \<and> fst ?q)" by blast
  then show ?thesis
  proof cases
    case ok
    have w: "wrk m (snd ?q) = Some (app (sql_ride_insert ?esc i) (com db))" "com (snd ?q) = com db"
      using D(3,4) [OF dml_texts(4) D(2) [OF ok(2)]] ok(3) D(1) by simp_all
    obtain b where b: "pr = Inr b" "com pd = com (snd ?q)"
      "b \<longrightarrow> wrk m pd = Some (fold app (ride_texts ?esc ?rid i) (com db))"
      using insert_points_txn [OF srv w(1) pts] by (auto simp: ride_texts_def)
    let ?c = "real_query M m ''COMMIT'' pd"
    have r: "(res, db') = (if \<not> b then (Inr ride0, pd) else if fst ?c then (Inr (ride_of_input (narrow_i32 ?rid) i), snd ?c)
        else (Inr ride0, snd (real_query M m ''ROLLBACK'' (snd ?c))))"
      using run ok pts b(1)
      by (simp add: create_on_def escape_into_def Let_def bind_eff_def run_sql_Inr split: if_splits)
    have "b \<Longrightarrow> com (snd ?c) = (if fst ?c then fold app (ride_texts ?esc ?rid i) (com db) else com pd)"
      using D(6) b(3) by simp
    then show ?thesis using r b(2) w(2) D(5) by (auto split: if_splits)
  next
    case bad
    have "fst ?s \<Longrightarrow> com (snd ?q) = com (snd ?s)" by (rule D(3) [OF dml_texts(4) D(2)])
    with bad have "com db' = com db"
      using run D(1,5)
      by (auto simp: create_on_def escape_into_def Let_def bind_eff_def run_sql_Inr split: if_splits)
    then show ?thesis ..
  qed
qed


text \<open>
  A long mobile number overruns the escape buffer. Its length is not checked by
  the handlers; an escaped text of 64 characters or more is undefined behaviour in both
  look-ups of a user.
\<close>

theorem long_mobile_overflows:
  assumes "64 \<le> length (real_escape M m mobile)"
  shows "mysql_find_by_mobile M mobile (m # ms, db) = Some (Inl Undefined_behaviour, ms @ [m], db) \<and>
    mysql_find_or_create M mobile (m # ms, db) = Some (Inl Undefined_behaviour, ms @ [m], db)"
  using assms
  by (simp add: mysql_find_or_create_def mysql_find_by_mobile_def with_lease_Cons on_db_def escape_into_def
      bind_eff_def bind_p_def)

subsection \<open>A server\<close>

text \<open>Committed data and a working copy per connection; every statement succeeds.\<close>

definition demo_query ::
  "(string \<Rightarrow> 'v \<Rightarrow> 'v) \<Rightarrow> nat \<Rightarrow> string \<Rightarrow> 'v \<times> (nat \<Rightarrow> 'v option) \<Rightarrow> bool \<times> 'v \<times> (nat \<Rightarrow> 'v option)" where
  "demo_query app m sql db =
     (case db of (c, w) \<Rightarrow>
        (True,
         if sql = ''START TRANSACTION'' then (c, w(m := Some c))
         else if sql = ''ROLLBACK'' then (c, w(m := None))
         else if sql = ''COMMIT'' then (case w m of None \<Rightarrow> (c, w) | Some x \<Rightarrow> (x, w(m := None)))
         else if dml sql then (case w m of None \<Rightarrow> (app sql c, w) | Some x \<Rightarrow> (c, w(m := Some (app sql x))))
         else (c, w)))"

definition demo_server ::
  "(string \<Rightarrow> 'v \<Rightarrow> 'v) \<Rightarrow> ('v \<Rightarrow> int) \<Rightarrow> (nat, 'v \<times> (nat \<Rightarrow> 'v option)) Mysql" where
  "demo_server app b = \<lparr>real_query = demo_query app,
     store_result = (\<lambda>m db. (Some [[Some (std_to_string (b (fst db)))]], db)),
     real_escape = (\<lambda>m s. s), insert_id = (\<lambda>m db. 7), affected_rows = (\<lambda>m db. 1)\<rparr>"

lemma dml_neq: "dml sql \<Longrightarrow> sql \<notin> {''START TRANSACTION'', ''ROLLBACK'', ''COMMIT''}"
  by (auto simp: dml_def)

lemma select_neq:
  assumes "take 7 sql = ''SELECT ''"
  shows "\<not> dml sql" "sql \<notin> {''START TRANSACTION'', ''ROLLBACK'', ''COMMIT''}"
  using assms by (auto simp: dml_def)

lemma demo_query_eqs:
  "demo_query app m ''START TRANSACTION'' (c, w) = (True, c, w(m := Some c))"
  "demo_query app m ''ROLLBACK'' (c, w) = (True, c, w(m := None))"
  "w m = Some x \<Longrightarrow> demo_query app m ''COMMIT'' (c, w) = (True, x, w(m := None))"
  "dml sql \<Longrightarrow> w m = Some x \<Longrightarrow> demo_query app m sql (c, w) = (True, c, w(m := Some (app sql x)))"
  "take 7 sql = ''SELECT '' \<Longrightarrow> demo_query app m sql (c, w) = (True, c, w)"
  using dml_neq [of sql] select_neq [of sql] by (simp_all add: demo_query_def)

lemma demo_txn: "txn_server (demo_server app b) fst (\<lambda>m db. snd db m) app"
  unfolding txn_server_def demo_server_def by (intro conjI allI impI; (elim conjE)?) (auto simp: demo_query_eqs)

lemma demo_up: "server_up (demo_server app b) fst b uid"
proof -
  have "fst (demo_query app m sql db)" for m sql db by (simp add: demo_query_def split: prod.split)
  then show ?thesis by (auto simp: server_up_def demo_server_def demo_query_eqs)
qed

text \<open>A balance and the log of the statements applied; user 1 is charged 300.\<close>

definition demo_app :: "string \<Rightarrow> int \<times> string list \<Rightarrow> int \<times> string list" where
  "demo_app sql v = (if sql = sql_account_update 1 (- 300) then fst v - 300 else fst v, snd v @ [sql])"

abbreviation demo_pool :: "nat list \<times> (int \<times> string list) \<times> (nat \<Rightarrow> (int \<times> string list) option)" where
  "demo_pool \<equiv> ([0, 1], (100, []), (\<lambda>_. None))"

lemma demo_charge:
  obtains r pool' db' where
    "mysql_add_balance (demo_server demo_app fst) 1 Consume (- 300) demo_pool = Some (r, pool', db')"
proof -
  let ?d = "after_txn (demo_server demo_app fst) 0 1 Consume (- 300) ((100, []), (\<lambda>_. None))"
  obtain r ms' db' where "mysql_get_balance (demo_server demo_app fst) 1 ([1], ?d) = Some (r, ms', db')"
    using get_balance_returns [of "demo_server demo_app fst" 1 "[1]" ?d]
    by (cases "mysql_get_balance (demo_server demo_app fst) 1 ([1], ?d)") (auto simp del: One_nat_def)
  then show thesis using that by (simp add: add_balance_eq)
qed


lemma demo_texts: "fold demo_app (add_texts 1 Consume (- 300)) (100, []) = (- 200, add_texts 1 Consume (- 300))"
proof -
  have "sql_account_insert 1 \<noteq> sql_account_update 1 (- 300)" "sql_record_insert 1 Consume (- 300) \<noteq> sql_account_update 1 (- 300)"
    by (simp_all add: sql_account_insert_def sql_account_update_def sql_record_insert_def snprintf_def)
  then show ?thesis by (simp add: demo_app_def add_texts_def)
qed

theorem mysql_charges_overdraft_witness:
  "\<exists>pool' db'. mysql_add_balance (demo_server demo_app fst) 1 Consume (- 300) demo_pool = Some (Inr (- 200), pool', db') \<and>
    fst (fst db') = - 200 \<and>
    mem_add_balance 0 1 Consume (- 300) \<lparr>bal = RBT.insert 1 100 RBT.empty, recs = RBT.empty\<rparr>
      = (Inr (- 1), \<lparr>bal = RBT.insert 1 100 RBT.empty, recs = RBT.empty\<rparr>)"
proof -
  let ?acc = "\<lparr>bal = RBT.insert 1 100 RBT.empty, recs = RBT.empty\<rparr> :: AccountRepo"
  obtain r pool' db' where run: "mysql_add_balance (demo_server demo_app fst) 1 Consume (- 300) demo_pool
      = Some (r, pool', db')" by (rule demo_charge)
  let ?db = "((100 :: int, [] :: string list), (\<lambda>_ :: nat. None :: (int \<times> string list) option))"
  have "r = Inr (fst (fst ?db) - 300) \<and> fst (fst ?db) - 300 < 0 \<and> fst (fst db') = fst (fst ?db) - 300 \<and>
      mem_add_balance 0 1 Consume (- 300) ?acc = (Inr (- 1), ?acc)"
    by (rule mysql_charges_overdraft [OF demo_txn demo_up _ _ _ _ run])
      (simp_all only: fst_conv demo_texts, simp_all add: i32_defs mem_get_balance_def)
  then show ?thesis using run by simp
qed

definition demo_input :: CreateRideInput where
  "demo_input = \<lparr>in_ride_no = ''R19700101000001'', in_user_id = 1, in_bike_id = 1, in_start_ts = 0, in_end_ts = 60,
     in_start_lat = Num 0, in_start_lng = Num 0, in_end_lat = Num 0, in_end_lng = Num 0,
     in_duration_sec = 60, in_distance_m = 0, in_amount_cent = 100, in_points = []\<rparr>"


theorem long_mobile_overflows_witness:
  "mysql_find_or_create (demo_server demo_app fst) (replicate 64 CHR ''1'') ([0], (0, []), (\<lambda>_. None))
     = Some (Inl Undefined_behaviour, [0], (0, []), (\<lambda>_. None))"
  using long_mobile_overflows [of "demo_server demo_app fst" 0 "replicate 64 CHR ''1''" "[]"]
  by (simp add: demo_server_def)

end
