(* ===== verification/Redis.thy ===== *)
theory Redis
  imports Repos CLib
begin

text \<open>
  The session store of production, \<open>server/src/cache/redis_session_store.cpp\<close>: its stack of
  connections and its six operations as the commands they send. The client library with the
  server behind it is a parameter of the model. The lemmas show that codes and sessions are
  found again under a key-value server, and what becomes of a connection that breaks.
\<close>

subsection \<open>The library and the pool\<close>

datatype redis_reply = Reply_string string | Reply_other

text \<open>
  \<open>redis_connect\<close> gives a context and whether it carries an error, or a null pointer;
  \<open>redis_command\<close> gives a reply or a null pointer. The arguments of a command are kept apart.
\<close>

record ('c, 'db) Hiredis =
  redis_connect :: "'db \<Rightarrow> ('c \<times> bool) option \<times> 'db"
  redis_command :: "'c \<Rightarrow> string list \<Rightarrow> 'db \<Rightarrow> redis_reply option \<times> 'db"

record ('c, 'db) RedisStore =
  redis_pool :: "'c list"
  redis_db :: 'db

definition redis_acquire :: "('c, 'db) Hiredis \<Rightarrow> ('c, 'db) RedisStore \<Rightarrow> 'c option \<times> ('c, 'db) RedisStore" where
  "redis_acquire H s =
     (if redis_pool s = [] then
        (case redis_connect H (redis_db s) of
           (None, db) \<Rightarrow> (None, s\<lparr>redis_db := db\<rparr>)
         | (Some (c, err), db) \<Rightarrow> (if err then None else Some c, s\<lparr>redis_db := db\<rparr>))
      else (Some (last (redis_pool s)), s\<lparr>redis_pool := butlast (redis_pool s)\<rparr>))"

definition redis_release :: "'c option \<Rightarrow> ('c, 'db) RedisStore \<Rightarrow> ('c, 'db) RedisStore" where
  "redis_release co s = (case co of None \<Rightarrow> s | Some c \<Rightarrow> s\<lparr>redis_pool := redis_pool s @ [c]\<rparr>)"

text \<open>The constructor keeps the connections that come up.\<close>

fun mk_redis_pool :: "('c, 'db) Hiredis \<Rightarrow> nat \<Rightarrow> ('c, 'db) RedisStore \<Rightarrow> ('c, 'db) RedisStore" where
  "mk_redis_pool H 0 s = s"
| "mk_redis_pool H (Suc n) s =
     (case redis_connect H (redis_db s) of
        (Some (c, False), db) \<Rightarrow> mk_redis_pool H n (s\<lparr>redis_pool := redis_pool s @ [c], redis_db := db\<rparr>)
      | (_, db) \<Rightarrow> mk_redis_pool H n (s\<lparr>redis_db := db\<rparr>))"

definition mk_RedisStore :: "('c, 'db) Hiredis \<Rightarrow> int \<Rightarrow> 'db \<Rightarrow> ('c, 'db) RedisStore" where
  "mk_RedisStore H pool_size db = mk_redis_pool H (nat pool_size) \<lparr>redis_pool = [], redis_db = db\<rparr>"

text \<open>An operation takes a connection, sends its command and puts the connection back.\<close>

definition redis_call ::
  "('c, 'db) Hiredis \<Rightarrow> string list \<Rightarrow> 'a \<Rightarrow> (redis_reply option \<Rightarrow> 'a) \<Rightarrow> ('c, 'db) RedisStore \<Rightarrow> 'a \<times> ('c, 'db) RedisStore" where
  "redis_call H cmd dflt f s =
     (case redis_acquire H s of
        (None, s1) \<Rightarrow> (dflt, s1)
      | (Some c, s1) \<Rightarrow>
          (case redis_command H c cmd (redis_db s1) of
             (r, db) \<Rightarrow> (f r, redis_release (Some c) (s1\<lparr>redis_db := db\<rparr>))))"

subsection \<open>The operations\<close>

definition code_key :: "string \<Rightarrow> string" where
  "code_key m = c_str (''code:'' @ m)"

definition session_key :: "string \<Rightarrow> string" where
  "session_key t = c_str (''session:'' @ t)"

definition redis_set_code :: "('c, 'db) Hiredis \<Rightarrow> nat \<Rightarrow> string \<Rightarrow> ('c, 'db) RedisStore \<Rightarrow> int \<times> ('c, 'db) RedisStore" where
  "redis_set_code H rnd m s =
     (let code = 100000 + int (rnd mod 900000) in
      redis_call H [''SET'', code_key m, std_to_string code, ''EX'', ''300''] 0 (\<lambda>_. code) s)"

definition redis_get_code ::
  "('c, 'db) Hiredis \<Rightarrow> string \<Rightarrow> ('c, 'db) RedisStore \<Rightarrow> int option res \<times> ('c, 'db) RedisStore" where
  "redis_get_code H m s =
     redis_call H [''GET'', code_key m] (Inr None)
       (\<lambda>r. case r of
          Some (Reply_string v) \<Rightarrow> (case atoi (c_str v) of Inl e \<Rightarrow> Inl e | Inr c \<Rightarrow> Inr (Some c))
        | _ \<Rightarrow> Inr None) s"

definition redis_delete_code :: "('c, 'db) Hiredis \<Rightarrow> string \<Rightarrow> ('c, 'db) RedisStore \<Rightarrow> unit \<times> ('c, 'db) RedisStore" where
  "redis_delete_code H m s = redis_call H [''DEL'', code_key m] () (\<lambda>_. ()) s"

definition redis_create_session ::
  "('c, 'db) Hiredis \<Rightarrow> nat \<Rightarrow> nat \<Rightarrow> string \<Rightarrow> ('c, 'db) RedisStore \<Rightarrow> string \<times> ('c, 'db) RedisStore" where
  "redis_create_session H r1 r2 m s =
     (let token = hex_digits r1 @ hex_digits r2 in
      redis_call H [''SET'', session_key token, c_str m, ''EX'', ''604800''] [] (\<lambda>_. token) s)"

definition redis_lookup_session ::
  "('c, 'db) Hiredis \<Rightarrow> string \<Rightarrow> ('c, 'db) RedisStore \<Rightarrow> string option \<times> ('c, 'db) RedisStore" where
  "redis_lookup_session H t s =
     redis_call H [''GET'', session_key t] None
       (\<lambda>r. case r of Some (Reply_string v) \<Rightarrow> Some v | _ \<Rightarrow> None) s"

definition redis_destroy_session :: "('c, 'db) Hiredis \<Rightarrow> string \<Rightarrow> ('c, 'db) RedisStore \<Rightarrow> unit \<times> ('c, 'db) RedisStore" where
  "redis_destroy_session H t s = redis_call H [''DEL'', session_key t] () (\<lambda>_. ()) s"

subsection \<open>Found again\<close>

text \<open>
  What the store relies on of a server that answers: SET with an expiry stores, GET reads and
  DEL removes, \<open>kv\<close> being the unexpired keys.
\<close>

definition kv_server :: "('c, 'db) Hiredis \<Rightarrow> ('db \<Rightarrow> string \<rightharpoonup> string) \<Rightarrow> bool" where
  "kv_server H kv \<longleftrightarrow>
     (\<forall>c k v ttl db. fst (redis_command H c [''SET'', k, v, ''EX'', ttl] db) \<noteq> None \<and>
        kv (snd (redis_command H c [''SET'', k, v, ''EX'', ttl] db)) = (kv db)(k \<mapsto> v)) \<and>
     (\<forall>c k db. fst (redis_command H c [''GET'', k] db) =
          Some (case kv db k of None \<Rightarrow> Reply_other | Some v \<Rightarrow> Reply_string v) \<and>
        kv (snd (redis_command H c [''GET'', k] db)) = kv db) \<and>
     (\<forall>c k db. kv (snd (redis_command H c [''DEL'', k] db)) = (kv db)(k := None))"

definition kv_of :: "('db \<Rightarrow> string \<rightharpoonup> string) \<Rightarrow> ('c, 'db) RedisStore \<Rightarrow> string \<rightharpoonup> string" where
  "kv_of kv s = kv (redis_db s)"

lemma redis_call_conn:
  assumes "redis_pool s \<noteq> []"
  shows "redis_call H cmd d f s =
    (f (fst (redis_command H (last (redis_pool s)) cmd (redis_db s))),
     s\<lparr>redis_db := snd (redis_command H (last (redis_pool s)) cmd (redis_db s))\<rparr>)"
  using assms by (simp add: redis_call_def redis_acquire_def redis_release_def split: prod.split)

lemma kv_serverD:
  assumes "kv_server H kv"
  shows "kv (snd (redis_command H c [''SET'', k, v, ''EX'', ttl] db)) = (kv db)(k \<mapsto> v)"
    "fst (redis_command H c [''GET'', k] db) =
       Some (case kv db k of None \<Rightarrow> Reply_other | Some v \<Rightarrow> Reply_string v)"
    "kv (snd (redis_command H c [''GET'', k] db)) = kv db"
    "kv (snd (redis_command H c [''DEL'', k] db)) = (kv db)(k := None)"
  using assms by (simp_all add: kv_server_def)

lemma redis_ops:
  assumes "kv_server H kv" "redis_pool s \<noteq> []"
  shows "kv_of kv (snd (redis_set_code H rnd m s)) =
      (kv_of kv s)(code_key m \<mapsto> std_to_string (fst (redis_set_code H rnd m s)))"
    and "kv_of kv (snd (redis_create_session H r1 r2 mob s)) =
      (kv_of kv s)(session_key (fst (redis_create_session H r1 r2 mob s)) \<mapsto> c_str mob)"
    and "kv_of kv (snd (redis_delete_code H m s)) = (kv_of kv s)(code_key m := None)"
    and "kv_of kv (snd (redis_destroy_session H t s)) = (kv_of kv s)(session_key t := None)"
    and "fst (redis_lookup_session H t s) = kv_of kv s (session_key t)"
    and "fst (redis_get_code H m s) = (case kv_of kv s (code_key m) of None \<Rightarrow> Inr None
      | Some v \<Rightarrow> (case atoi (c_str v) of Inl e \<Rightarrow> Inl e | Inr c \<Rightarrow> Inr (Some c)))"
    and "kv_of kv (snd (redis_get_code H m s)) = kv_of kv s" "kv_of kv (snd (redis_lookup_session H t s)) = kv_of kv s"
  by (simp_all add: redis_set_code_def redis_create_session_def redis_delete_code_def redis_destroy_session_def
      redis_lookup_session_def redis_get_code_def redis_call_conn [OF assms(2)] kv_serverD [OF assms(1)] kv_of_def
      Let_def fun_eq_iff split: option.split)

lemma redis_pool_kept:
  assumes "redis_pool s \<noteq> []"
  shows "redis_pool (snd (redis_set_code H rnd m s)) = redis_pool s"
    "redis_pool (snd (redis_create_session H r1 r2 mob s)) = redis_pool s"
    "redis_pool (snd (redis_delete_code H m s)) = redis_pool s"
    "redis_pool (snd (redis_get_code H m s)) = redis_pool s"
  by (simp_all add: redis_set_code_def redis_create_session_def redis_delete_code_def redis_get_code_def
      redis_call_conn [OF assms] Let_def)

text \<open>Codes and sessions live under keys that never meet.\<close>

lemma c_str_append: "CHR 0x00 \<notin> set a \<Longrightarrow> c_str (a @ b) = a @ c_str b"
  by (induction a) (auto simp: c_str_def)

lemma c_str_id: "CHR 0x00 \<notin> set a \<Longrightarrow> c_str a = a"
  using c_str_append [of a "[]"] by (simp add: c_str_def)

lemma keys_disjoint: "code_key m \<noteq> session_key t"
  using c_str_append [of "''code:''" m] c_str_append [of "''session:''" t] by (simp add: code_key_def session_key_def)

lemma digits_no_null: "CHR 0x00 \<notin> set (std_to_string i)"
proof -
  have "\<not> is_digit CHR 0x00" by (simp add: is_digit_def)
  then have "CHR 0x00 \<notin> set (dec_digits n)" for n
    using dec_digits_digits [of n] by (auto simp: list_all_iff)
  then show ?thesis by (simp add: std_to_string_def)
qed

lemma set_code_range: "redis_pool s \<noteq> [] \<Longrightarrow> fst (redis_set_code H rnd m s) \<in> {100000..999999}"
  by (simp add: redis_set_code_def redis_call_conn Let_def)

text \<open>
  Property C13: codes and sessions are found again. With a server that stores what it is told,
  the code sent for a mobile number is read back unchanged after a session has been created,
  the session token leads to its mobile number, and deleting the code leaves the session.
\<close>

theorem redis_roundtrip:
  assumes "kv_server H kv" "redis_pool s \<noteq> []" "CHR 0x00 \<notin> set mob"
    and "redis_set_code H rnd m s = (icode, s1)" "redis_create_session H r1 r2 mob s1 = (token, s2)"
    and "redis_delete_code H m s2 = (u, s3)"
  shows "fst (redis_get_code H m s2) = Inr (Some icode) \<and> fst (redis_get_code H m s3) = Inr None \<and>
    fst (redis_lookup_session H token s2) = Some mob \<and> fst (redis_lookup_session H token s3) = Some mob"
proof -
  have p: "redis_pool s1 \<noteq> []" "redis_pool s2 \<noteq> []" "redis_pool s3 \<noteq> []"
    using redis_pool_kept [OF assms(2)] redis_pool_kept [of s1] redis_pool_kept [of s2] assms(2,4-6)
    by (metis snd_conv)+
  have k: "kv_of kv s1 = (kv_of kv s)(code_key m \<mapsto> std_to_string icode)"
    "kv_of kv s2 = (kv_of kv s1)(session_key token \<mapsto> mob)" "kv_of kv s3 = (kv_of kv s2)(code_key m := None)"
    using redis_ops(1) [OF assms(1,2), of rnd m] redis_ops(2) [OF assms(1) p(1), of r1 r2 mob]
      redis_ops(3) [OF assms(1) p(2), of m] assms(3-6) by (simp_all add: c_str_id)
  have "in_i32 icode" using set_code_range [OF assms(2), of H rnd m] assms(4) by (simp add: i32_defs)
  then show ?thesis
    using keys_disjoint [of m token]
    by (simp add: redis_ops(5,6) [OF assms(1) p(2)] redis_ops(5,6) [OF assms(1) p(3)] k c_str_id digits_no_null atoi_print)
qed

text \<open>
  A broken connection is never replaced. Once the connection at the top of the
  stack answers nothing, it is put back after every call: codes keep being handed out that are
  stored nowhere, and no code and no session is ever found again, however often the store is
  asked.
\<close>

theorem broken_connection_stays:
  assumes "redis_pool s = cs @ [c]" "\<forall>cmd db. redis_command H c cmd db = (None, db)"
  shows "\<exists>icode. redis_set_code H rnd m s = (icode, s) \<and> 100000 \<le> icode \<and>
    redis_get_code H m s = (Inr None, s) \<and> redis_lookup_session H t s = (None, s)"
proof -
  have "redis_call H cmd d f s = (f None, s)" for cmd and d :: 'x and f
    using assms redis_call_conn [of s H cmd d f] by simp
  then have "redis_set_code H rnd m s = (100000 + int (rnd mod 900000), s)" "redis_get_code H m s = (Inr None, s)"
    "redis_lookup_session H t s = (None, s)"
    using assms by (simp_all add: redis_set_code_def redis_get_code_def redis_lookup_session_def Let_def redis_call_conn)
  then show ?thesis by simp
qed

definition demo_redis :: "(nat, string \<rightharpoonup> string) Hiredis" where
  "demo_redis = \<lparr>redis_connect = (\<lambda>db. (None, db)),
     redis_command = (\<lambda>c cmd db. case cmd of
         [''SET'', k, v, ''EX'', ttl] \<Rightarrow> (Some Reply_other, db(k \<mapsto> v))
       | [''GET'', k] \<Rightarrow> (Some (case db k of None \<Rightarrow> Reply_other | Some v \<Rightarrow> Reply_string v), db)
       | [''DEL'', k] \<Rightarrow> (Some Reply_other, db(k := None))
       | _ \<Rightarrow> (None, db))\<rparr>"

lemma demo_kv: "kv_server demo_redis id"
  by (simp add: kv_server_def demo_redis_def)

theorem redis_roundtrip_witness:
  "\<exists>icode s1 token s2. redis_set_code demo_redis 5 ''1'' \<lparr>redis_pool = [0], redis_db = Map.empty\<rparr> = (icode, s1) \<and>
     redis_create_session demo_redis 3 4 ''1'' s1 = (token, s2) \<and>
     fst (redis_get_code demo_redis ''1'' s2) = Inr (Some icode) \<and>
     fst (redis_lookup_session demo_redis token s2) = Some ''1''"
proof -
  obtain icode s1 token s2 u s3 where "redis_set_code demo_redis 5 ''1'' \<lparr>redis_pool = [0], redis_db = Map.empty\<rparr> = (icode, s1)"
    "redis_create_session demo_redis 3 4 ''1'' s1 = (token, s2)" "redis_delete_code demo_redis ''1'' s2 = (u, s3)"
    by (metis surj_pair)
  from redis_roundtrip [OF demo_kv _ _ this] this show ?thesis by auto
qed

theorem broken_connection_stays_witness:
  "redis_get_code \<lparr>redis_connect = (\<lambda>db. (None, db)), redis_command = (\<lambda>c cmd db. (None, db))\<rparr> ''1''
     \<lparr>redis_pool = [0 :: nat], redis_db = ()\<rparr> = (Inr None, \<lparr>redis_pool = [0], redis_db = ()\<rparr>)"
  using broken_connection_stays [of "\<lparr>redis_pool = [0 :: nat], redis_db = ()\<rparr>" "[]" 0
      "\<lparr>redis_connect = (\<lambda>db. (None, db)), redis_command = (\<lambda>c cmd db. (None, db))\<rparr>" 0 "''1''" "''1''"]
  by auto

end
